(* ===== verification/Ztg_Prelude.thy ===== *)
theory Ztg_Prelude
  imports Main "HOL-Library.Word"
begin

text \<open>
  Shared vocabulary of the ztg development: Go errors and panics as values, the machine
  integers the code computes with, the byte-level helpers of the Go standard library that
  the code calls (big-endian and little-endian encodings, \<open>bytes.Compare\<close>,
  \<open>io.ReadFull\<close>), and the generic facts about them that the component theories use.
\<close>

unbundle bit_operations_syntax

named_theorems res_simps \<open>reduction rules for fallible results\<close>
named_theorems int_simps \<open>machine integers that stay in range\<close>
named_theorems wire_simps \<open>lengths and round trips of byte encodings\<close>

section \<open>Go errors\<close>

text \<open>
  An error value carries the format string of the \<open>fmt.Errorf\<close> or \<open>errors.New\<close> call
  that made it (the formatted arguments are left out) and, for \<open>%w\<close>, the wrapped error.
  A run-time panic is a value too, so that no crash is hidden in an unspecified result.
\<close>

datatype go_error =
    Errorf string
  | Wrapf string go_error
  | Panic string

type_synonym 'a res = "go_error + 'a"

fun is_panic :: "go_error \<Rightarrow> bool" where
  "is_panic (Panic _) = True"
| "is_panic _ = False"

text \<open>\<open>return fmt.Errorf("...: %w", err)\<close>: a panic unwinds past the \<open>return\<close>.\<close>

fun wrapf :: "string \<Rightarrow> go_error \<Rightarrow> go_error" where
  "wrapf s (Panic p) = Panic p"
| "wrapf s (Errorf t) = Wrapf s (Errorf t)"
| "wrapf s (Wrapf t e) = Wrapf s (Wrapf t e)"

lemma is_panic_wrapf [simp, res_simps]: "is_panic (wrapf s e) = is_panic e"
  by (cases e) simp_all

lemma wrapf_not_panic [res_simps]: "\<not> is_panic e \<Longrightarrow> wrapf s e = Wrapf s e"
  by (cases e) simp_all

section \<open>Machine integers\<close>

text \<open>
  Go's \<open>int\<close> (64 bits on every platform the server is built for) and \<open>int32\<close>, as the
  integer they denote: every arithmetic result is reduced to two's complement range.
\<close>

definition int64 :: "int \<Rightarrow> int" where
  "int64 x = (x + 9223372036854775808) mod 18446744073709551616 - 9223372036854775808"

definition int32 :: "int \<Rightarrow> int" where
  "int32 x = (x + 2147483648) mod 4294967296 - 2147483648"

definition is_int64 :: "int \<Rightarrow> bool" where
  "is_int64 x \<longleftrightarrow> - 9223372036854775808 \<le> x \<and> x < 9223372036854775808"

definition is_int32 :: "int \<Rightarrow> bool" where
  "is_int32 x \<longleftrightarrow> - 2147483648 \<le> x \<and> x < 2147483648"

lemma int64_id [int_simps]: "is_int64 x \<Longrightarrow> int64 x = x"
  by (simp add: int64_def is_int64_def)

lemma is_int64_int64 [simp, int_simps]: "is_int64 (int64 x)"
proof -
  have "0 \<le> (x + 9223372036854775808) mod 18446744073709551616"
    and "(x + 9223372036854775808) mod 18446744073709551616 < 18446744073709551616"
    by simp_all
  then show ?thesis unfolding is_int64_def int64_def by linarith
qed

lemma int64_le: "x \<le> m \<Longrightarrow> - 9223372036854775808 \<le> x \<Longrightarrow> m < 9223372036854775808 \<Longrightarrow> int64 x \<le> m"
  by (simp add: int64_id is_int64_def)

lemma int32_id [int_simps]: "is_int32 x \<Longrightarrow> int32 x = x"
  by (simp add: int32_def is_int32_def)

lemma is_int32_int32 [simp, int_simps]: "is_int32 (int32 x)"
proof -
  have "0 \<le> (x + 2147483648) mod 4294967296"
    and "(x + 2147483648) mod 4294967296 < 4294967296"
    by simp_all
  then show ?thesis unfolding is_int32_def int32_def by linarith
qed

lemma int32_eq_iff: "int32 x = x \<longleftrightarrow> is_int32 x"
  using int32_id is_int32_int32 by metis

text \<open>Go's integer division truncates toward zero; the remainder has the dividend's sign.\<close>

definition go_quot :: "int \<Rightarrow> int \<Rightarrow> int" where
  "go_quot a b = sgn a * sgn b * (\<bar>a\<bar> div \<bar>b\<bar>)"

definition go_rem :: "int \<Rightarrow> int \<Rightarrow> int" where
  "go_rem a b = a - b * go_quot a b"

lemma go_quot_mult: "b \<noteq> 0 \<Longrightarrow> go_quot (b * q) b = q"
proof -
  assume b: "b \<noteq> 0"
  have "go_quot (b * q) b = (sgn b * sgn b) * (sgn q * (\<bar>b\<bar> * \<bar>q\<bar> div \<bar>b\<bar>))"
    by (simp add: go_quot_def sgn_mult abs_mult mult.assoc mult.left_commute)
  also have "\<dots> = (sgn b * sgn b) * q"
    using b by (simp add: sgn_mult_abs)
  also have "sgn b * sgn b = 1"
    using b by (simp add: sgn_if)
  finally show ?thesis by simp
qed

lemma go_quot_dvd [int_simps]: "b \<noteq> 0 \<Longrightarrow> b dvd a \<Longrightarrow> go_quot a b = a div b"
  by (auto simp: dvd_def go_quot_mult)

lemma go_rem_eq_0_iff [int_simps]: "b \<noteq> 0 \<Longrightarrow> go_rem a b = 0 \<longleftrightarrow> b dvd a"
proof
  assume "b \<noteq> 0" and "go_rem a b = 0"
  then have "a = b * go_quot a b" by (simp add: go_rem_def)
  then show "b dvd a" by (rule dvdI)
next
  assume "b \<noteq> 0" and "b dvd a"
  then show "go_rem a b = 0" by (simp add: go_rem_def go_quot_dvd)
qed

text \<open>Sums, differences and products may be reduced at any point.\<close>

lemma int64_cong_iff: "int64 x = int64 y \<longleftrightarrow> x mod 18446744073709551616 = y mod 18446744073709551616"
proof -
  have "int64 x = int64 y \<longleftrightarrow>
      (x + 9223372036854775808) mod 18446744073709551616 = (y + 9223372036854775808) mod 18446744073709551616"
    by (simp add: int64_def)
  also have "\<dots> \<longleftrightarrow> 18446744073709551616 dvd (x - y)"
    by (simp add: mod_eq_dvd_iff)
  finally show ?thesis by (simp add: mod_eq_dvd_iff)
qed

lemma int64_mod [simp]: "int64 x mod 18446744073709551616 = x mod 18446744073709551616"
  by (simp add: int64_def mod_diff_left_eq)

lemma int64_absorb [int_simps]:
  "int64 (int64 x + y) = int64 (x + y)" "int64 (x + int64 y) = int64 (x + y)"
  "int64 (int64 x - y) = int64 (x - y)" "int64 (x - int64 y) = int64 (x - y)"
  "int64 (int64 x * y) = int64 (x * y)" "int64 (x * int64 y) = int64 (x * y)"
  unfolding int64_cong_iff
  by (rule mod_add_cong mod_diff_cong mod_mult_cong; simp)+

section \<open>Decimal printing\<close>

text \<open>\<open>strconv.Itoa\<close> and \<open>%d\<close>.\<close>

fun digits :: "nat \<Rightarrow> string" where
  "digits n = (if n < 10 then [char_of (48 + n)] else digits (n div 10) @ [char_of (48 + n mod 10)])"

declare digits.simps [simp del]

definition Itoa :: "int \<Rightarrow> string" where
  "Itoa n = (if n < 0 then ''-'' @ digits (nat (- n)) else digits (nat n))"

section \<open>Bytes\<close>

type_synonym byte = "8 word"
type_synonym bytes = "byte list"

text \<open>\<open>[]byte(s)\<close> for a string of single-byte characters.\<close>

definition bytes_of :: "string \<Rightarrow> bytes" where
  "bytes_of s = map of_char s"

lemma bytes_of_append [simp, wire_simps]: "bytes_of (s @ t) = bytes_of s @ bytes_of t"
  by (simp add: bytes_of_def)

lemma length_bytes_of [simp, wire_simps]: "length (bytes_of s) = length s"
  by (simp add: bytes_of_def)

lemma unat_of_char: "unat (of_char c :: 8 word) = of_char c"
proof -
  have "unat (of_nat (of_char c) :: 8 word) = of_char c mod 256"
    by (simp only: unat_of_nat) simp
  then show ?thesis by (simp only: of_nat_of_char of_char_mod_256)
qed

lemma of_char_word_inject: "(of_char c :: 8 word) = of_char d \<longleftrightarrow> c = d"
  using unat_of_char [of c] unat_of_char [of d] by (metis of_char_eq_iff)

lemma bytes_of_inject [simp]: "bytes_of s = bytes_of t \<longleftrightarrow> s = t"
  unfolding bytes_of_def
  by (rule inj_map_eq_map) (auto intro!: injI simp: of_char_word_inject)

text \<open>\<open>binary.BigEndian.Uint16\<close> and \<open>PutUint16\<close>.\<close>

definition be16 :: "byte \<Rightarrow> byte \<Rightarrow> 16 word" where
  "be16 hi lo = ucast lo OR push_bit 8 (ucast hi)"

definition put_be16 :: "16 word \<Rightarrow> bytes" where
  "put_be16 v = [ucast (drop_bit 8 v), ucast v]"

lemma length_put_be16 [simp, wire_simps]: "length (put_be16 v) = 2"
  by (simp add: put_be16_def)

lemma be16_put_be16 [wire_simps]:
  "be16 (ucast (drop_bit 8 v :: 16 word)) (ucast v) = v"
  unfolding be16_def
  by (rule bit_word_eqI) (auto simp: bit_simps not_le)

text \<open>The eight bytes of a sequence number, least significant first.\<close>

definition le_bytes64 :: "64 word \<Rightarrow> bytes" where
  "le_bytes64 s = map (\<lambda>i. ucast (drop_bit (i * 8) s)) [0..<8]"

lemma length_le_bytes64 [simp, wire_simps]: "length (le_bytes64 s) = 8"
  by (simp add: le_bytes64_def)

lemma le_bytes64_bit:
  assumes "n < 64"
  shows "bit (le_bytes64 s ! (n div 8)) (n mod 8) = bit s n"
proof -
  have "n div 8 < 8" using assms by simp
  then have "le_bytes64 s ! (n div 8) = ucast (drop_bit (n div 8 * 8) s)"
    by (simp add: le_bytes64_def)
  then show ?thesis
    using assms by (simp add: bit_simps)
qed

lemma le_bytes64_inject [simp]: "le_bytes64 s = le_bytes64 t \<longleftrightarrow> s = t"
proof
  assume eq: "le_bytes64 s = le_bytes64 t"
  show "s = t"
  proof (rule bit_word_eqI)
    fix n assume "n < LENGTH(64)"
    then have "n < 64" by simp
    then show "bit s n = bit t n"
      using le_bytes64_bit [of n s] le_bytes64_bit [of n t] eq by simp
  qed
qed simp

text \<open>\<open>bytes.Compare\<close>: lexicographic, with a proper prefix smaller.\<close>

fun bytes_Compare :: "bytes \<Rightarrow> bytes \<Rightarrow> int" where
  "bytes_Compare [] [] = 0"
| "bytes_Compare [] (y # ys) = -1"
| "bytes_Compare (x # xs) [] = 1"
| "bytes_Compare (x # xs) (y # ys) =
     (if x < y then -1 else if y < x then 1 else bytes_Compare xs ys)"

lemma bytes_Compare_antisym: "bytes_Compare ys xs = - bytes_Compare xs ys"
  by (induction xs ys rule: bytes_Compare.induct) auto

lemma bytes_Compare_eq_0: "bytes_Compare xs ys = 0 \<longleftrightarrow> xs = ys"
  by (induction xs ys rule: bytes_Compare.induct) auto

text \<open>
  \<open>io.ReadFull\<close> on a reader whose remaining bytes are given: \<open>EOF\<close> when nothing is left,
  \<open>ErrUnexpectedEOF\<close> when the reader ends early; the bytes read so far are consumed.
\<close>

definition ReadFull :: "nat \<Rightarrow> bytes \<Rightarrow> bytes res \<times> bytes" where
  "ReadFull n r =
     (if n = 0 then (Inr [], r)
      else if r = [] then (Inl (Errorf ''EOF''), [])
      else if length r < n then (Inl (Errorf ''unexpected EOF''), [])
      else (Inr (take n r), drop n r))"

lemma ReadFull_append: "length xs = n \<Longrightarrow> 0 < n \<Longrightarrow> ReadFull n (xs @ r) = (Inr xs, r)"
  by (auto simp: ReadFull_def)

lemma ReadFull_InrD: "ReadFull n r = (Inr xs, r') \<Longrightarrow> r = xs @ r' \<and> length xs = n"
  by (auto simp: ReadFull_def split: if_splits)

lemma ReadFull_total: "n \<le> length r \<Longrightarrow> ReadFull n r = (Inr (take n r), drop n r)"
  by (auto simp: ReadFull_def)

section \<open>Maps with entries that are swept\<close>

text \<open>The loop \<open>for k, e := range m { if dead(e) { delete(m, k) } }\<close>.\<close>

definition sweep :: "('e \<Rightarrow> bool) \<Rightarrow> ('k \<Rightarrow> 'e option) \<Rightarrow> ('k \<Rightarrow> 'e option)" where
  "sweep dead m = (\<lambda>k. case m k of None \<Rightarrow> None | Some e \<Rightarrow> if dead e then None else Some e)"

lemma sweep_Some_iff: "sweep dead m k = Some e \<longleftrightarrow> m k = Some e \<and> \<not> dead e"
  by (auto simp: sweep_def split: option.splits)

lemma dom_sweep_subset: "dom (sweep dead m) \<subseteq> dom m"
  by (auto simp: sweep_def split: option.splits)

lemma sweep_idem: "sweep dead (sweep dead m) = sweep dead m"
  by (rule ext) (simp add: sweep_def split: option.splits)

end
