(* ===== verification/Dice_Message.thy ===== *)
theory Dice_Message
  imports Ztg_Prelude
begin

text \<open>
  The wire messages of the dice protocol (\<open>dice/message.go\<close>): a one-byte type tag and
  32 bytes of data. \<open>MsgType\<close> is a \<open>uint8\<close>, so all 256 values exist; \<open>IsMsgType\<close>
  separates the three that the protocol uses. The lemmas show that \<open>ReadMessage\<close> accepts
  exactly the encodings that \<open>Bytes\<close> produces, alone and in a stream.
\<close>

section \<open>Message types\<close>

type_synonym msg_type = byte

definition MsgTypeUnkown :: msg_type where "MsgTypeUnkown = 0"
definition MsgTypeCommitment :: msg_type where "MsgTypeCommitment = 1"
definition MsgTypeSecret :: msg_type where "MsgTypeSecret = 2"
definition MsgTypeRollConfirmation :: msg_type where "MsgTypeRollConfirmation = 3"

lemmas msg_type_defs =
  MsgTypeUnkown_def MsgTypeCommitment_def MsgTypeSecret_def MsgTypeRollConfirmation_def

definition MsgType_String :: "msg_type \<Rightarrow> string" where
  "MsgType_String m =
     (if m = MsgTypeCommitment then ''Commitment''
      else if m = MsgTypeRollConfirmation then ''RollConfirmation''
      else if m = MsgTypeSecret then ''Secret''
      else ''Unknown'')"

definition IsMsgType :: "msg_type \<Rightarrow> bool" where
  "IsMsgType m =
     (if m = MsgTypeCommitment \<or> m = MsgTypeRollConfirmation \<or> m = MsgTypeSecret then True
      else False)"

lemma IsMsgType_iff: "IsMsgType m \<longleftrightarrow> m \<in> {1, 2, 3}"
  by (auto simp: IsMsgType_def msg_type_defs)

lemma IsMsgType_constants [simp]:
  "IsMsgType MsgTypeCommitment" "IsMsgType MsgTypeSecret" "IsMsgType MsgTypeRollConfirmation"
  "\<not> IsMsgType MsgTypeUnkown"
  by (simp_all add: IsMsgType_iff msg_type_defs)

lemma msg_type_distinct [simp]:
  "MsgTypeCommitment \<noteq> MsgTypeSecret" "MsgTypeSecret \<noteq> MsgTypeCommitment"
  "MsgTypeCommitment \<noteq> MsgTypeRollConfirmation" "MsgTypeRollConfirmation \<noteq> MsgTypeCommitment"
  "MsgTypeSecret \<noteq> MsgTypeRollConfirmation" "MsgTypeRollConfirmation \<noteq> MsgTypeSecret"
  by (simp_all add: msg_type_defs)

lemma MsgType_String_unknown_iff: "MsgType_String m = ''Unknown'' \<longleftrightarrow> \<not> IsMsgType m"
  by (simp add: MsgType_String_def IsMsgType_def)

section \<open>Messages\<close>

record message =
  msg_Type :: msg_type
  msg_Data :: bytes

text \<open>The Go type \<open>[32]byte\<close> of the data field.\<close>

definition wf_message :: "message \<Rightarrow> bool" where
  "wf_message m \<longleftrightarrow> length (msg_Data m) = 32"

text \<open>What a receiver accepts: a message of the Go type whose tag is in use.\<close>

definition valid_message :: "message \<Rightarrow> bool" where
  "valid_message m \<longleftrightarrow> wf_message m \<and> IsMsgType (msg_Type m)"

definition Message_Bytes :: "message \<Rightarrow> bytes" where
  "Message_Bytes m = msg_Type m # msg_Data m"

lemma length_Message_Bytes [wire_simps]: "wf_message m \<Longrightarrow> length (Message_Bytes m) = 33"
  by (simp add: Message_Bytes_def wf_message_def)

text \<open>
  \<open>ReadMessage\<close> reads the tag with \<open>binary.Read\<close> (one byte), rejects unknown tags before it
  touches the data, then reads the data. The second component is what the reader has left.
\<close>

definition ReadMessage :: "bytes \<Rightarrow> message res \<times> bytes" where
  "ReadMessage r =
     (case ReadFull 1 r of
        (Inl e, r1) \<Rightarrow> (Inl e, r1)
      | (Inr t, r1) \<Rightarrow>
          (if \<not> IsMsgType (hd t) then (Inl (Errorf ''unknown MessageType: %d''), r1)
           else (case ReadFull 32 r1 of
                   (Inl e, r2) \<Rightarrow> (Inl e, r2)
                 | (Inr d, r2) \<Rightarrow> (Inr \<lparr>msg_Type = hd t, msg_Data = d\<rparr>, r2))))"

lemma ReadMessage_Nil: "ReadMessage [] = (Inl (Errorf ''EOF''), [])"
  by (simp add: ReadMessage_def ReadFull_def)

lemma ReadMessage_Cons:
  "ReadMessage (t # r) =
     (if \<not> IsMsgType t then (Inl (Errorf ''unknown MessageType: %d''), r)
      else (case ReadFull 32 r of
              (Inl e, r2) \<Rightarrow> (Inl e, r2)
            | (Inr d, r2) \<Rightarrow> (Inr \<lparr>msg_Type = t, msg_Data = d\<rparr>, r2)))"
  by (simp add: ReadMessage_def ReadFull_def)

lemma ReadMessage_encoded:
  "valid_message m \<Longrightarrow> ReadMessage (Message_Bytes m @ r) = (Inr m, r)"
  by (simp add: Message_Bytes_def ReadMessage_Cons ReadFull_append valid_message_def
      wf_message_def)

lemma ReadMessage_InrD:
  assumes "ReadMessage r = (Inr m, r')"
  shows "valid_message m \<and> r = Message_Bytes m @ r'"
proof (cases r)
  case Nil
  with assms show ?thesis by (simp add: ReadMessage_Nil)
next
  case (Cons t r1)
  with assms have t: "IsMsgType t" by (auto simp: ReadMessage_Cons split: if_splits)
  then obtain d where d: "ReadFull 32 r1 = (Inr d, r')" and m: "m = \<lparr>msg_Type = t, msg_Data = d\<rparr>"
    using assms Cons by (auto simp: ReadMessage_Cons split: prod.splits sum.splits)
  from ReadFull_InrD [OF d] t m Cons show ?thesis
    by (simp add: valid_message_def wf_message_def Message_Bytes_def)
qed

text \<open>C38: reading accepts exactly the encodings of well-formed messages with a known tag.
  A successful \<open>ReadMessage\<close> consumes the 33 bytes of \<open>Bytes\<close> of the message it
  returns and nothing else, and every such encoding is read back, whatever follows it in
  the stream.\<close>

theorem ReadMessage_iff_Bytes:
  "ReadMessage r = (Inr m, r') \<longleftrightarrow> valid_message m \<and> r = Message_Bytes m @ r'"
  using ReadMessage_InrD ReadMessage_encoded by blast

section \<open>Streams of messages\<close>

text \<open>A reader drained message by message, as \<open>PipePeer.Recv\<close> does call by call.\<close>

fun read_messages :: "nat \<Rightarrow> bytes \<Rightarrow> message list res \<times> bytes" where
  "read_messages 0 r = (Inr [], r)"
| "read_messages (Suc n) r =
     (case ReadMessage r of
        (Inl e, r1) \<Rightarrow> (Inl e, r1)
      | (Inr m, r1) \<Rightarrow>
          (case read_messages n r1 of
             (Inl e, r2) \<Rightarrow> (Inl e, r2)
           | (Inr ms, r2) \<Rightarrow> (Inr (m # ms), r2)))"

definition encode_messages :: "message list \<Rightarrow> bytes" where
  "encode_messages ms = concat (map Message_Bytes ms)"

lemma encode_messages_simps [simp]:
  "encode_messages [] = []"
  "encode_messages (m # ms) = Message_Bytes m @ encode_messages ms"
  "encode_messages (ms @ ns) = encode_messages ms @ encode_messages ns"
  by (simp_all add: encode_messages_def)

lemma read_messages_encoded:
  "list_all valid_message ms \<Longrightarrow> read_messages (length ms) (encode_messages ms @ r) = (Inr ms, r)"
  by (induction ms) (simp_all add: ReadMessage_encoded)

lemma valid_message_mk [simp]:
  "length d = 32 \<Longrightarrow> valid_message \<lparr>msg_Type = MsgTypeCommitment, msg_Data = d\<rparr>"
  "length d = 32 \<Longrightarrow> valid_message \<lparr>msg_Type = MsgTypeSecret, msg_Data = d\<rparr>"
  "length d = 32 \<Longrightarrow> valid_message \<lparr>msg_Type = MsgTypeRollConfirmation, msg_Data = d\<rparr>"
  by (simp_all add: valid_message_def wf_message_def)

end
