(* ===== verification/Dice_Roller.thy ===== *)
theory Dice_Roller
  imports Dice_Message
begin

text \<open>
  The dice roller (\<open>dice/roller.go\<close>): the die and its rejection limit, the commitment
  scheme, the extraction of eight rolls from a 32-byte hash, the confirmation round and the
  whole exchange with a peer. SHA-256 is the parameter \<open>sha\<close>; the peer, the random source
  and everything else outside the process are the operations of a \<open>dice_env\<close> over a world
  state. The lemmas show that the extraction is take-eight-of-filter, that every roll is a
  face of the die and every face equally likely, and that both ends of an exchange agree.
\<close>

section \<open>Commitments\<close>

definition commitLabel :: bytes where "commitLabel = bytes_of ''dice-commit-v1|''"
definition rollLabel :: bytes where "rollLabel = bytes_of ''dice-roll-v1|''"

definition calculateCommitment :: "(bytes \<Rightarrow> bytes) \<Rightarrow> bytes \<Rightarrow> bytes" where
  "calculateCommitment sha secret = sha (commitLabel @ secret)"

text \<open>The random bytes that \<open>rand.Read\<close> delivers are an argument.\<close>

definition createSecretAndCommitment :: "(bytes \<Rightarrow> bytes) \<Rightarrow> bytes \<Rightarrow> bytes \<times> bytes" where
  "createSecretAndCommitment sha rnd = (rnd, calculateCommitment sha rnd)"

definition verifyCommitment :: "(bytes \<Rightarrow> bytes) \<Rightarrow> bytes \<Rightarrow> bytes \<Rightarrow> go_error option" where
  "verifyCommitment sha secret expectedCommit =
     (if calculateCommitment sha secret \<noteq> expectedCommit
      then Some (Errorf ''failed to verify roll with peer'') else None)"

lemma verifyCommitment_None [simp]:
  "verifyCommitment sha s c = None \<longleftrightarrow> calculateCommitment sha s = c"
  by (simp add: verifyCommitment_def)

text \<open>What the development assumes of SHA-256 where a length matters.\<close>

definition hash32 :: "(bytes \<Rightarrow> bytes) \<Rightarrow> bool" where
  "hash32 sha \<longleftrightarrow> (\<forall>x. length (sha x) = 32)"

lemma hash32_length [simp]: "hash32 sha \<Longrightarrow> length (sha x) = 32"
  by (simp add: hash32_def)

lemma length_calculateCommitment [simp]: "hash32 sha \<Longrightarrow> length (calculateCommitment sha s) = 32"
  by (simp add: calculateCommitment_def)

text \<open>A concrete 32-byte function, for closed instances: the last bytes of the input, reversed.\<close>

definition example_hash :: "bytes \<Rightarrow> bytes" where
  "example_hash x = take 32 (rev x @ replicate 32 0)"

lemma hash32_example_hash [simp]: "hash32 example_hash"
  by (simp add: hash32_def example_hash_def min_def)

section \<open>The die\<close>

record roller =
  sides :: "8 word"
  rollValueLimit :: "16 word"

definition max_uint16 :: "16 word" where
  "max_uint16 = NOT 0"

text \<open>
  \<open>max % uint16(sides)\<close> panics when \<open>sides\<close> is zero: the constructor has no guard for it.
\<close>

definition NewRoller :: "8 word \<Rightarrow> roller res" where
  "NewRoller s =
     (if s > 20 then Inl (Errorf ''max size of die is 20'')
      else if s = 0 then Inl (Panic ''integer divide by zero'')
      else Inr \<lparr>sides = s, rollValueLimit = max_uint16 - (max_uint16 mod ucast s)\<rparr>)"

lemma max_uint16_eq: "max_uint16 = 65535"
  by (simp add: max_uint16_def)

lemma unat_ucast_8_16 [simp]: "unat (ucast (s :: 8 word) :: 16 word) = unat s"
proof -
  have "unat s < 2 ^ 8" using unsigned_less [of s] by simp
  then show ?thesis by (simp add: unsigned_ucast_eq take_bit_nat_eq_self)
qed

lemma NewRoller_InrD:
  assumes "NewRoller s = Inr d"
  shows "sides d = s" "0 < unat s" "unat s \<le> 20"
    and "unat (rollValueLimit d) = 65535 - 65535 mod unat s"
proof -
  from assms show s: "sides d = s" by (auto simp: NewRoller_def split: if_splits)
  from assms have ne: "s \<noteq> 0" and le: "s \<le> 20" and
    lim: "rollValueLimit d = max_uint16 - (max_uint16 mod ucast s)"
    by (auto simp: NewRoller_def split: if_splits)
  from ne show "0 < unat s" by (simp add: unat_gt_0)
  from le show "unat s \<le> 20" by (simp add: word_le_nat_alt)
  have m: "unat (65535 mod ucast s :: 16 word) = 65535 mod unat s"
    by (simp add: unat_mod)
  have "(65535 mod ucast s :: 16 word) \<le> 65535"
    by (simp add: word_le_nat_alt m)
  then have "unat (65535 - 65535 mod ucast s :: 16 word) = 65535 - 65535 mod unat s"
    by (simp only: unat_sub m) simp
  with lim show "unat (rollValueLimit d) = 65535 - 65535 mod unat s"
    by (simp add: max_uint16_eq)
qed

lemma NewRoller_ex: "0 < unat s \<Longrightarrow> unat s \<le> 20 \<Longrightarrow> \<exists>d. NewRoller s = Inr d"
  by (auto simp: NewRoller_def word_less_nat_alt)

definition die10 :: roller where
  "die10 = \<lparr>sides = 10, rollValueLimit = 65530\<rparr>"

lemma NewRoller_10 [simp]: "NewRoller 10 = Inr die10"
  by (simp add: NewRoller_def die10_def max_uint16_eq)

section \<open>Eight rolls from a hash\<close>

text \<open>
  The loop of \<open>roll\<close>: two bytes at a time, a value below the limit is reduced to a face and
  stored in the next slot, any other value is skipped; it ends after eight rolls or when
  fewer than two bytes are left.
\<close>

fun roll_loop :: "roller \<Rightarrow> bytes \<Rightarrow> 16 word list \<Rightarrow> 16 word list res" where
  "roll_loop d (b0 # b1 # rest) result =
     (if length result < 8 then
        let v = be16 b0 b1 in
        if v < rollValueLimit d then
          (if sides d = 0 then Inl (Panic ''integer divide by zero'')
           else roll_loop d rest (result @ [v mod ucast (sides d) + 1]))
        else roll_loop d rest result
      else Inr result)"
| "roll_loop d _ result = Inr result"

definition roll :: "roller \<Rightarrow> bytes \<Rightarrow> 16 word list res" where
  "roll d h =
     (case roll_loop d h [] of
        Inl e \<Rightarrow> Inl e
      | Inr result \<Rightarrow>
          (if length result \<noteq> 8
           then Inl (Panic ''not enough entropy to produce all dice rolls'')
           else Inr result))"

text \<open>The specification: reject, reduce, keep the first eight.\<close>

fun be_words :: "bytes \<Rightarrow> 16 word list" where
  "be_words (b0 # b1 # rest) = be16 b0 b1 # be_words rest"
| "be_words _ = []"

definition accepted_rolls :: "roller \<Rightarrow> bytes \<Rightarrow> 16 word list" where
  "accepted_rolls d h =
     map (\<lambda>v. v mod ucast (sides d) + 1) (filter (\<lambda>v. v < rollValueLimit d) (be_words h))"

lemma roll_loop_spec:
  assumes "sides d \<noteq> 0" and "length acc \<le> 8"
  shows "roll_loop d h acc = Inr (take 8 (acc @ accepted_rolls d h))"
  using assms
  by (induction d h acc rule: roll_loop.induct) (auto simp: accepted_rolls_def Let_def)

lemma roll_spec:
  assumes "sides d \<noteq> 0"
  shows "roll d h =
    (if length (accepted_rolls d h) < 8
     then Inl (Panic ''not enough entropy to produce all dice rolls'')
     else Inr (take 8 (accepted_rolls d h)))"
  using roll_loop_spec [OF assms, of "[]" h] by (simp add: roll_def)

text \<open>C32: extracting the rolls is rejection sampling. For every die that \<open>NewRoller\<close> makes and
  every hash, \<open>roll\<close> returns the first eight accepted 16-bit words reduced to faces, and it
  panics exactly when fewer than eight of the hash's words are below the limit.\<close>

theorem roll_is_rejection_sampling:
  assumes "NewRoller s = Inr d"
  shows "roll d h =
    (if length (filter (\<lambda>v. v < rollValueLimit d) (be_words h)) < 8
     then Inl (Panic ''not enough entropy to produce all dice rolls'')
     else Inr (take 8 (map (\<lambda>v. v mod ucast s + 1)
                          (filter (\<lambda>v. v < rollValueLimit d) (be_words h)))))"
proof -
  have "sides d \<noteq> 0" using NewRoller_InrD(1,2) [OF assms] by auto
  then show ?thesis
    using NewRoller_InrD(1) [OF assms] by (simp add: roll_spec accepted_rolls_def)
qed

theorem roll_is_rejection_sampling_witness:
  "roll die10 (replicate 16 1 @ replicate 16 255) = Inr (replicate 8 8)"
proof -
  let ?h = "replicate 16 1 @ replicate 16 255 :: bytes"
  have "(if length (filter (\<lambda>v. v < rollValueLimit die10) (be_words ?h)) < 8
     then Inl (Panic ''not enough entropy to produce all dice rolls'')
     else Inr (take 8 (map (\<lambda>v. v mod ucast (10 :: 8 word) + 1)
                (filter (\<lambda>v. v < rollValueLimit die10) (be_words ?h))))) = Inr (replicate 8 8)"
    by code_simp
  with roll_is_rejection_sampling [OF NewRoller_10, of ?h] show ?thesis by (simp only:)
qed

lemma roll_Inr_length: "roll d h = Inr rs \<Longrightarrow> length rs = 8"
  by (auto simp: roll_def split: sum.splits if_splits)

lemma face_unat:
  assumes "NewRoller s = Inr d"
  shows "unat (v mod ucast s + 1 :: 16 word) = unat v mod unat s + 1"
proof -
  have b: "unat v mod unat s < unat s" "unat s \<le> 20"
    using NewRoller_InrD(2,3) [OF assms] by simp_all
  then have "unat (v mod ucast s + 1 :: 16 word) = (unat v mod unat s + 1) mod 2 ^ 16"
    by (simp add: unat_word_ariths unat_mod)
  then show ?thesis using b by simp
qed

lemma roll_faces:
  assumes "NewRoller s = Inr d" and "roll d h = Inr rs"
  shows "\<forall>r \<in> set rs. 1 \<le> unat r \<and> unat r \<le> unat s"
proof -
  have nz: "sides d \<noteq> 0" and s: "sides d = s" and pos: "0 < unat s"
    using NewRoller_InrD(1,2) [OF assms(1)] by auto
  have "rs = take 8 (accepted_rolls d h)"
    using assms(2) roll_spec [OF nz] by (auto split: if_splits)
  then have "set rs \<subseteq> set (accepted_rolls d h)" by (simp add: set_take_subset)
  moreover have "1 \<le> unat r \<and> unat r \<le> unat s" if "r \<in> set (accepted_rolls d h)" for r
  proof -
    from that s obtain v where "r = v mod ucast s + 1" by (auto simp: accepted_rolls_def)
    moreover have "unat v mod unat s < unat s" using pos by simp
    ultimately show ?thesis by (simp only: face_unat [OF assms(1)]) linarith
  qed
  ultimately show ?thesis by blast
qed

text \<open>Every roll is a face of the die. Whatever the hash, each of the eight values that
  \<open>roll\<close> returns lies between one and the number of sides.\<close>

theorem roll_in_range:
  assumes "NewRoller s = Inr d" and "roll d h = Inr rs"
  shows "length rs = 8 \<and> (\<forall>r \<in> set rs. 1 \<le> unat r \<and> unat r \<le> unat s)"
  using roll_faces [OF assms] roll_Inr_length [OF assms(2)] by blast

theorem roll_in_range_witness:
  "roll die10 (replicate 32 1) = Inr (replicate 8 8)
   \<and> length (replicate 8 (8 :: 16 word)) = 8
   \<and> 1 \<le> unat (8 :: 16 word) \<and> unat (8 :: 16 word) \<le> unat (10 :: 8 word)"
proof -
  have "roll die10 (replicate 32 1) = Inr (replicate 8 8)" by code_simp
  with roll_in_range [OF NewRoller_10 this] show ?thesis by simp
qed

section \<open>Uniform faces\<close>

lemma card_residue_class:
  assumes "r < s"
  shows "card {n. n < s * q \<and> n mod s = (r :: nat)} = q"
proof -
  have "{n. n < s * q \<and> n mod s = r} = (\<lambda>i. i * s + r) ` {..<q}"
  proof (intro set_eqI iffI)
    fix n assume "n \<in> {n. n < s * q \<and> n mod s = r}"
    then have n: "n < s * q" "n mod s = r" by auto
    have "n div s < q" using n(1) assms by (simp add: less_mult_imp_div_less mult.commute)
    moreover have "n = n div s * s + r" using n(2) by (metis div_mult_mod_eq)
    ultimately show "n \<in> (\<lambda>i. i * s + r) ` {..<q}" by blast
  next
    fix n assume "n \<in> (\<lambda>i. i * s + r) ` {..<q}"
    then obtain i where i: "i < q" "n = i * s + r" by auto
    have "i * s + r < Suc i * s" using assms by simp
    also have "Suc i * s \<le> q * s" using i(1) by (intro mult_le_mono1) simp
    finally show "n \<in> {n. n < s * q \<and> n mod s = r}"
      using i(2) assms by (simp add: mult.commute)
  qed
  moreover have "inj_on (\<lambda>i. i * s + r) {..<q}" using assms by (auto intro: inj_onI)
  ultimately show ?thesis by (simp add: card_image)
qed

lemma limit_multiple:
  assumes "NewRoller s = Inr d"
  shows "unat (rollValueLimit d) = unat s * (65535 div unat s)"
  using NewRoller_InrD(4) [OF assms] by (simp add: minus_mod_eq_mult_div)

text \<open>The die is fair. Among the 16-bit words that pass the limit, each face of the die is
  hit by exactly the same number of words, \<open>65535 div s\<close>: the limit removes the whole
  modulo bias, for every number of sides that \<open>NewRoller\<close> allows.\<close>

theorem roll_faces_equally_likely:
  assumes "NewRoller s = Inr d" and "1 \<le> k" and "k \<le> unat s"
  shows "card {v :: 16 word. v < rollValueLimit d \<and> unat (v mod ucast s + 1) = k}
    = 65535 div unat s"
proof -
  let ?V = "{v :: 16 word. v < rollValueLimit d \<and> unat (v mod ucast s + 1) = k}"
  let ?N = "{n. n < unat s * (65535 div unat s) \<and> n mod unat s = k - 1}"
  have V: "?V = {v. unat v < unat s * (65535 div unat s) \<and> unat v mod unat s = k - 1}"
    using assms(2) by (auto simp: face_unat [OF assms(1)] word_less_nat_alt
        limit_multiple [OF assms(1)])
  have "unat ` ?V = ?N"
  proof (intro set_eqI iffI)
    fix n assume n: "n \<in> ?N"
    have "n < unat s * (65535 div unat s)" using n by simp
    also have "\<dots> \<le> 65535" by simp
    finally have "n < 2 ^ 16" by simp
    then have "unat (of_nat n :: 16 word) = n" by (simp add: unat_of_nat)
    then show "n \<in> unat ` ?V" using n unfolding V by (metis (mono_tags, lifting) image_eqI mem_Collect_eq)
  qed (auto simp: V)
  moreover have "card (unat ` ?V) = card ?V"
    by (rule card_image, rule inj_onI) (simp add: word_unat_eq_iff)
  ultimately have "card ?V = card ?N" by simp
  also have "\<dots> = 65535 div unat s"
    using assms(2,3) by (intro card_residue_class) simp
  finally show ?thesis .
qed

theorem roll_faces_equally_likely_witness:
  "card {v :: 16 word. v < rollValueLimit die10 \<and> unat (v mod ucast (10 :: 8 word) + 1) = 7} = 6553"
  using roll_faces_equally_likely [OF NewRoller_10, of 7] by simp

section \<open>The world a roller talks to\<close>

text \<open>
  The \<open>Peer\<close> interface value and the random source, as operations on a world state. The
  context argument is left out: an operation that is cancelled returns an error.
\<close>

record 'w dice_env =
  rand_Read :: "'w \<Rightarrow> bytes \<times> 'w"
  peer_Send :: "'w \<Rightarrow> message \<Rightarrow> go_error option \<times> 'w"
  peer_Recv :: "'w \<Rightarrow> message res \<times> 'w"

text \<open>\<open>confirmRoll\<close>: the rolls as big-endian words in a zeroed 32-byte array.\<close>

definition encode_rolls :: "16 word list \<Rightarrow> bytes" where
  "encode_rolls rolls = concat (map put_be16 rolls) @ replicate (32 - 2 * length rolls) 0"

definition confirmRoll ::
    "'w dice_env \<Rightarrow> 'w \<Rightarrow> 16 word list \<Rightarrow> go_error option \<times> 'w" where
  "confirmRoll env w rolls =
     (if 16 < length rolls then (Some (Panic ''slice bounds out of range''), w)
      else let rollValueOut = encode_rolls rolls in
        (case peer_Send env w \<lparr>msg_Type = MsgTypeRollConfirmation, msg_Data = rollValueOut\<rparr> of
           (Some e, w1) \<Rightarrow> (Some (wrapf ''failed to send roll confirmation: %w'' e), w1)
         | (None, w1) \<Rightarrow>
             (case peer_Recv env w1 of
                (Inl e, w2) \<Rightarrow> (Some (wrapf ''failed to receive roll confirmation: %w'' e), w2)
              | (Inr msg, w2) \<Rightarrow>
                  (if msg_Type msg \<noteq> MsgTypeRollConfirmation
                   then (Some (Errorf ''received unexpected MsgType for roll confirmation: %s''), w2)
                   else if rollValueOut \<noteq> msg_Data msg
                   then (Some (Errorf ''error confirming roll: peer (%s) != self (%s)''), w2)
                   else (None, w2)))))"

lemma length_concat_put_be16 [simp]: "length (concat (map put_be16 rs)) = 2 * length rs"
  by (induction rs) simp_all

lemma length_encode_rolls [simp]: "length rs \<le> 16 \<Longrightarrow> length (encode_rolls rs) = 32"
  by (simp add: encode_rolls_def)

lemma be_words_concat_put_be16: "be_words (concat (map put_be16 rs) @ xs) = rs @ be_words xs"
  by (induction rs) (simp_all add: put_be16_def be16_put_be16)

text \<open>The confirmation message determines the rolls. Two roll results of the same length
  have the same confirmation bytes only when they are equal, so a confirmed roll is the
  same roll on both sides.\<close>

theorem encode_rolls_inject:
  assumes "length rs = length ss" and "encode_rolls rs = encode_rolls ss"
  shows "rs = ss"
proof -
  have "take (length rs) (be_words (encode_rolls rs)) = rs"
    and "take (length ss) (be_words (encode_rolls ss)) = ss"
    by (simp_all add: encode_rolls_def be_words_concat_put_be16)
  with assms show ?thesis by metis
qed

theorem encode_rolls_inject_witness:
  "encode_rolls [1, 2] = encode_rolls [1, 2] \<and> [1, 2] = [1, 2 :: 16 word]"
proof -
  have l: "length [1, 2 :: 16 word] = length [1, 2 :: 16 word]" by simp
  have e: "encode_rolls [1, 2] = encode_rolls [1, 2]" by simp
  from encode_rolls_inject [OF l e] show ?thesis by simp
qed

section \<open>The exchange\<close>

text \<open>
  The goroutine of \<open>startExchange\<close>: commitment out, commitment in, secret out, secret in.
  The result is the pair it pushes into its channels, the peer's secret and commitment.
\<close>

definition exchangeMessages ::
    "'w dice_env \<Rightarrow> 'w \<Rightarrow> bytes \<Rightarrow> bytes \<Rightarrow> (bytes \<times> bytes) res \<times> 'w" where
  "exchangeMessages env w secret commitment =
     (case peer_Send env w \<lparr>msg_Type = MsgTypeCommitment, msg_Data = commitment\<rparr> of
        (Some e, w1) \<Rightarrow> (Inl (wrapf ''failed to send secret: %w'' e), w1)
      | (None, w1) \<Rightarrow>
     (case peer_Recv env w1 of
        (Inl e, w2) \<Rightarrow> (Inl (wrapf ''failed to receive commitment: %w'' e), w2)
      | (Inr commitmentMsg, w2) \<Rightarrow>
     (if msg_Type commitmentMsg \<noteq> MsgTypeCommitment
      then (Inl (Errorf ''received unexpected MsgType for commitment: %s''), w2)
      else
     (case peer_Send env w2 \<lparr>msg_Type = MsgTypeSecret, msg_Data = secret\<rparr> of
        (Some e, w3) \<Rightarrow> (Inl (wrapf ''failed to send secret: %w'' e), w3)
      | (None, w3) \<Rightarrow>
     (case peer_Recv env w3 of
        (Inl e, w4) \<Rightarrow> (Inl (wrapf ''failed to receive secret: %w'' e), w4)
      | (Inr secretMsg, w4) \<Rightarrow>
     (if msg_Type secretMsg \<noteq> MsgTypeSecret
      then (Inl (Errorf ''received unexpected MsgType for secret: %s''), w4)
      else (Inr (msg_Data secretMsg, msg_Data commitmentMsg), w4)))))))"

text \<open>The function that \<open>startExchange\<close> returns checks the commitment it received.\<close>

definition startExchange ::
    "(bytes \<Rightarrow> bytes) \<Rightarrow> 'w dice_env \<Rightarrow> 'w \<Rightarrow> bytes \<Rightarrow> bytes \<Rightarrow> bytes res \<times> 'w" where
  "startExchange sha env w secret commitment =
     (case exchangeMessages env w secret commitment of
        (Inl e, w1) \<Rightarrow> (Inl e, w1)
      | (Inr (peerSecret, commit), w1) \<Rightarrow>
          (case verifyCommitment sha peerSecret commit of
             Some e \<Rightarrow> (Inl e, w1)
           | None \<Rightarrow> (Inr peerSecret, w1)))"

text \<open>The two secrets in ascending order under one label: the same on both sides.\<close>

definition rollSeed :: "(bytes \<Rightarrow> bytes) \<Rightarrow> bytes \<Rightarrow> bytes \<Rightarrow> bytes" where
  "rollSeed sha secret peerSecret =
     (let (secretA, secretB) =
            (if bytes_Compare secret peerSecret > 0 then (peerSecret, secret)
             else (secret, peerSecret))
      in sha (rollLabel @ secretA @ secretB))"

lemma rollSeed_commute: "rollSeed sha a b = rollSeed sha b a"
  using bytes_Compare_antisym [of b a] bytes_Compare_eq_0 [of a b]
  by (auto simp: rollSeed_def)

definition Roll :: "(bytes \<Rightarrow> bytes) \<Rightarrow> roller \<Rightarrow> 'w dice_env \<Rightarrow> 'w \<Rightarrow> 16 word list res \<times> 'w" where
  "Roll sha d env w =
     (let (rnd, w0) = rand_Read env w;
          (secret, commitment) = createSecretAndCommitment sha rnd in
      case startExchange sha env w0 secret commitment of
        (Inl e, w1) \<Rightarrow> (Inl (wrapf ''failed to exchange: %w'' e), w1)
      | (Inr peerSecret, w1) \<Rightarrow>
          (case roll d (rollSeed sha secret peerSecret) of
             Inl e \<Rightarrow> (Inl e, w1)
           | Inr rolls \<Rightarrow>
               (case confirmRoll env w1 rolls of
                  (Some e, w2) \<Rightarrow> (Inl e, w2)
                | (None, w2) \<Rightarrow> (Inr rolls, w2))))"

text \<open>\<open>Roll.Get\<close> on the outcome that the goroutine pushes; \<open>GetOne\<close> and \<open>RollSync\<close>.\<close>

definition Roll_Get :: "nat \<Rightarrow> 16 word list res \<Rightarrow> 16 word list res" where
  "Roll_Get n outcome =
     (if n = 0 \<or> n > 8 then Inl (Errorf ''number of rolls must be >0 and <=8'')
      else case outcome of
        Inl e \<Rightarrow> Inl e
      | Inr result \<Rightarrow>
          (if length result < n then Inl (Errorf ''unexpected size of result rolls: %d'')
           else Inr (take n result)))"

definition Roll_GetOne :: "16 word list res \<Rightarrow> 16 word res" where
  "Roll_GetOne outcome =
     (case Roll_Get 1 outcome of
        Inl e \<Rightarrow> Inl e
      | Inr rolls \<Rightarrow> (if rolls = [] then Inr 0 else Inr (hd rolls)))"

text \<open>
  The exchange runs whatever \<open>n\<close> is: \<open>RollSync\<close> starts it before \<open>Get\<close> looks at \<open>n\<close>.
\<close>

definition RollSync ::
    "(bytes \<Rightarrow> bytes) \<Rightarrow> roller \<Rightarrow> 'w dice_env \<Rightarrow> nat \<Rightarrow> 'w \<Rightarrow> 16 word list res \<times> 'w" where
  "RollSync sha d env n w = (case Roll sha d env w of (r, w1) \<Rightarrow> (Roll_Get n r, w1))"

end
