(* ===== verification/Dice_Channel.thy ===== *)
theory Dice_Channel
  imports Dice_Roller
begin

text \<open>
  The dice peer interface and what its implementations promise. \<open>chan_env\<close> is the abstract
  peer: a queue of messages still to be received, the log of messages sent, the supply of
  random secrets. The locale \<open>dice_sim\<close> relates two environments that stay in step, the locale
  \<open>dice_peer\<close> states that an implementation refines the abstract peer; a roll over any such
  implementation is then a roll over the abstract peer.
  \<open>PipePeer\<close> (\<open>dice/pipe_peer.go\<close>), which moves bytes, is interpreted in it. The security
  properties of the exchange are proved on the abstract peer for every queue of messages,
  honest or not.
\<close>

section \<open>The abstract peer\<close>

record chan_world =
  next_secrets :: "nat \<Rightarrow> bytes"
  inbox :: "message list"
  outbox :: "message list"

definition chan_env :: "chan_world dice_env" where
  "chan_env =
     \<lparr>rand_Read = (\<lambda>w. (next_secrets w 0, w\<lparr>next_secrets := \<lambda>i. next_secrets w (Suc i)\<rparr>)),
      peer_Send = (\<lambda>w m. (None, w\<lparr>outbox := outbox w @ [m]\<rparr>)),
      peer_Recv = (\<lambda>w. case inbox w of
                          [] \<Rightarrow> (Inl (Errorf ''EOF''), w)
                        | m # ms \<Rightarrow> (Inr m, w\<lparr>inbox := ms\<rparr>))\<rparr>"

lemma chan_env_simps [simp]:
  "rand_Read chan_env w = (next_secrets w 0, w\<lparr>next_secrets := \<lambda>i. next_secrets w (Suc i)\<rparr>)"
  "peer_Send chan_env w m = (None, w\<lparr>outbox := outbox w @ [m]\<rparr>)"
  "inbox w = [] \<Longrightarrow> peer_Recv chan_env w = (Inl (Errorf ''EOF''), w)"
  "inbox w = m # ms \<Longrightarrow> peer_Recv chan_env w = (Inr m, w\<lparr>inbox := ms\<rparr>)"
  by (simp_all add: chan_env_def)

text \<open>\<open>rand.Read(secret[:])\<close> fills all 32 bytes.\<close>

definition wf_secrets :: "(nat \<Rightarrow> bytes) \<Rightarrow> bool" where
  "wf_secrets s \<longleftrightarrow> (\<forall>i. length (s i) = 32)"

lemma wf_secretsD [simp]: "wf_secrets s \<Longrightarrow> length (s i) = 32"
  by (simp add: wf_secrets_def)

section \<open>The interface\<close>

text \<open>Two dice environments in step: related worlds stay related, and every operation returns
  the same on both. A roll then does too.\<close>

locale dice_sim =
  fixes env :: "'w dice_env"
    and env' :: "'v dice_env"
    and rel :: "'w \<Rightarrow> 'v \<Rightarrow> bool"
  assumes rand_sim:
      "rel w v \<Longrightarrow> rand_Read env w = (s, w') \<Longrightarrow>
         \<exists>v'. rand_Read env' v = (s, v') \<and> rel w' v' \<and> length s = 32"
    and send_sim:
      "rel w v \<Longrightarrow> valid_message m \<Longrightarrow> peer_Send env w m = (e, w') \<Longrightarrow>
         \<exists>v'. peer_Send env' v m = (e, v') \<and> rel w' v'"
    and recv_sim:
      "rel w v \<Longrightarrow> peer_Recv env w = (r, w') \<Longrightarrow> \<exists>v'. peer_Recv env' v = (r, v') \<and> rel w' v'"
begin

lemma exchangeMessages_sim:
  assumes "rel w v" and "length secret = 32" and "length commitment = 32"
    and "exchangeMessages env w secret commitment = (r, w')"
  shows "\<exists>v'. exchangeMessages env' v secret commitment = (r, v') \<and> rel w' v'"
proof -
  obtain e1 w1 where s1: "peer_Send env w \<lparr>msg_Type = MsgTypeCommitment, msg_Data = commitment\<rparr> = (e1, w1)"
    by fastforce
  from send_sim [OF assms(1) _ s1] assms(3) obtain v1 where a1: "rel w1 v1"
    "peer_Send env' v \<lparr>msg_Type = MsgTypeCommitment, msg_Data = commitment\<rparr> = (e1, v1)" by auto
  obtain r2 w2 where s2: "peer_Recv env w1 = (r2, w2)" by fastforce
  from recv_sim [OF a1(1) s2] obtain v2 where a2: "rel w2 v2" "peer_Recv env' v1 = (r2, v2)" by auto
  obtain e3 w3 where s3: "peer_Send env w2 \<lparr>msg_Type = MsgTypeSecret, msg_Data = secret\<rparr> = (e3, w3)"
    by fastforce
  from send_sim [OF a2(1) _ s3] assms(2) obtain v3 where a3: "rel w3 v3"
    "peer_Send env' v2 \<lparr>msg_Type = MsgTypeSecret, msg_Data = secret\<rparr> = (e3, v3)" by auto
  obtain r4 w4 where s4: "peer_Recv env w3 = (r4, w4)" by fastforce
  from recv_sim [OF a3(1) s4] obtain v4 where a4: "rel w4 v4" "peer_Recv env' v3 = (r4, v4)" by auto
  show ?thesis
    using assms(4) a1 a2 a3 a4 s1 s2 s3 s4
    by (auto simp: exchangeMessages_def split: option.splits sum.splits if_splits)
qed

lemma startExchange_sim:
  assumes "rel w v" and "length secret = 32" and "length commitment = 32"
    and "startExchange sha env w secret commitment = (r, w')"
  shows "\<exists>v'. startExchange sha env' v secret commitment = (r, v') \<and> rel w' v'"
proof -
  obtain x w1 where x: "exchangeMessages env w secret commitment = (x, w1)" by fastforce
  from exchangeMessages_sim [OF assms(1-3) x]
  obtain v1 where "rel w1 v1" "exchangeMessages env' v secret commitment = (x, v1)" by blast
  with x assms(4) show ?thesis
    by (auto simp: startExchange_def verifyCommitment_def split: sum.splits prod.splits if_splits)
qed

lemma confirmRoll_sim:
  assumes "rel w v" and "confirmRoll env w rolls = (e, w')"
  shows "\<exists>v'. confirmRoll env' v rolls = (e, v') \<and> rel w' v'"
proof (cases "16 < length rolls")
  case True
  with assms show ?thesis by (simp add: confirmRoll_def)
next
  case False
  let ?m = "\<lparr>msg_Type = MsgTypeRollConfirmation, msg_Data = encode_rolls rolls\<rparr>"
  obtain e1 w1 where s1: "peer_Send env w ?m = (e1, w1)" by fastforce
  from send_sim [OF assms(1) _ s1] False obtain v1 where a1: "rel w1 v1" "peer_Send env' v ?m = (e1, v1)" by auto
  obtain r2 w2 where s2: "peer_Recv env w1 = (r2, w2)" by fastforce
  from recv_sim [OF a1(1) s2] obtain v2 where a2: "rel w2 v2" "peer_Recv env' v1 = (r2, v2)" by auto
  show ?thesis
    using assms(2) False a1 a2 s1 s2
    by (auto simp: confirmRoll_def Let_def split: option.splits sum.splits if_splits)
qed

lemma Roll_sim:
  assumes "rel w v" and "hash32 sha" and "Roll sha d env w = (r, w')"
  shows "\<exists>v'. Roll sha d env' v = (r, v') \<and> rel w' v'"
proof -
  obtain secret w0 where r0: "rand_Read env w = (secret, w0)" by fastforce
  from rand_sim [OF assms(1) r0] obtain v0 where a0: "length secret = 32" "rel w0 v0" "rand_Read env' v = (secret, v0)"
    by blast
  obtain x w1 where x: "startExchange sha env w0 secret (calculateCommitment sha secret) = (x, w1)"
    by fastforce
  from startExchange_sim [OF a0(2,1) _ x] assms(2) obtain v1 where a1: "rel w1 v1"
    "startExchange sha env' v0 secret (calculateCommitment sha secret) = (x, v1)" by auto
  note step = Roll_def createSecretAndCommitment_def r0 x a0(3) a1(2)
  show ?thesis
  proof (cases x)
    case (Inl e)
    with assms(3) a1(1) show ?thesis by (auto simp: step)
  next
    case ps: (Inr ps)
    show ?thesis
    proof (cases "roll d (rollSeed sha secret ps)")
      case (Inl e)
      with assms(3) a1(1) ps show ?thesis by (auto simp: step Inl)
    next
      case (Inr rolls)
      obtain e2 w2 where c: "confirmRoll env w1 rolls = (e2, w2)" by fastforce
      from confirmRoll_sim [OF a1(1) c] obtain v2 where "rel w2 v2" "confirmRoll env' v1 rolls = (e2, v2)" by blast
      with assms(3) ps Inr c show ?thesis by (auto simp: step split: option.splits)
    qed
  qed
qed

lemma RollSync_sim:
  assumes "rel w v" and "hash32 sha" and "RollSync sha d env n w = (r, w')"
  shows "\<exists>v'. RollSync sha d env' n v = (r, v') \<and> rel w' v'"
proof -
  obtain x w1 where x: "Roll sha d env w = (x, w1)" by fastforce
  from Roll_sim [OF assms(1,2) x] obtain v1 where "rel w1 v1" "Roll sha d env' v = (x, v1)" by blast
  with x assms(3) show ?thesis by (auto simp: RollSync_def)
qed

end

text \<open>An implementation of the abstract peer, by an abstraction of its worlds.\<close>

locale dice_peer =
  fixes env :: "'w dice_env"
    and absw :: "'w \<Rightarrow> chan_world"
    and winv :: "'w \<Rightarrow> bool"
  assumes rand_refines:
      "winv w \<Longrightarrow> rand_Read env w = (s, w') \<Longrightarrow>
         length s = 32 \<and> winv w' \<and> rand_Read chan_env (absw w) = (s, absw w')"
    and send_refines:
      "winv w \<Longrightarrow> valid_message m \<Longrightarrow> peer_Send env w m = (e, w') \<Longrightarrow>
         winv w' \<and> peer_Send chan_env (absw w) m = (e, absw w')"
    and recv_refines:
      "winv w \<Longrightarrow> peer_Recv env w = (r, w') \<Longrightarrow>
         winv w' \<and> peer_Recv chan_env (absw w) = (r, absw w')"

sublocale dice_peer \<subseteq> sim: dice_sim env chan_env "\<lambda>w v. winv w \<and> v = absw w"
  by unfold_locales (auto dest: rand_refines send_refines recv_refines simp del: chan_env_simps)

context dice_peer
begin

lemma Roll_refines:
  assumes "winv w" and "hash32 sha" and "Roll sha d env w = (r, w')"
  shows "winv w' \<and> Roll sha d chan_env (absw w) = (r, absw w')"
  using sim.Roll_sim [OF _ assms(2,3)] assms(1) by blast

lemma RollSync_refines:
  assumes "winv w" and "hash32 sha" and "RollSync sha d env n w = (r, w')"
  shows "winv w' \<and> RollSync sha d chan_env n (absw w) = (r, absw w')"
  using sim.RollSync_sim [OF _ assms(2,3)] assms(1) by blast

end

section \<open>PipePeer\<close>

text \<open>
  One end of \<open>NewPipePeers\<close>: the bytes its reader will still deliver and the bytes its
  writer goroutine has written. \<open>Send\<close> hands the message to that goroutine, which writes
  its \<open>Bytes\<close> in order; \<open>Recv\<close> is \<open>ReadMessage\<close> on the reader.
\<close>

record pipe_peer =
  pipe_rand :: "nat \<Rightarrow> bytes"
  pipe_r :: bytes
  pipe_w :: bytes

definition PipePeer_Send :: "pipe_peer \<Rightarrow> message \<Rightarrow> go_error option \<times> pipe_peer" where
  "PipePeer_Send t msg = (None, t\<lparr>pipe_w := pipe_w t @ Message_Bytes msg\<rparr>)"

definition PipePeer_Recv :: "pipe_peer \<Rightarrow> message res \<times> pipe_peer" where
  "PipePeer_Recv t =
     (case ReadMessage (pipe_r t) of
        (Inl e, r) \<Rightarrow> (Inl e, t\<lparr>pipe_r := r\<rparr>)
      | (Inr msg, r) \<Rightarrow> (Inr msg, t\<lparr>pipe_r := r\<rparr>))"

definition pipe_env :: "pipe_peer dice_env" where
  "pipe_env =
     \<lparr>rand_Read = (\<lambda>t. (pipe_rand t 0, t\<lparr>pipe_rand := \<lambda>i. pipe_rand t (Suc i)\<rparr>)),
      peer_Send = PipePeer_Send,
      peer_Recv = PipePeer_Recv\<rparr>"

text \<open>The messages in a byte stream, for the abstraction.\<close>

function decode_messages :: "bytes \<Rightarrow> message list" where
  "decode_messages r =
     (case ReadMessage r of (Inl e, r') \<Rightarrow> [] | (Inr m, r') \<Rightarrow> m # decode_messages r')"
  by pat_completeness auto
termination
proof (relation "measure length")
  fix r x z m assume "(x, z) = ReadMessage r" and "x = Inr m"
  then have "ReadMessage r = (Inr m, z)" by simp
  from ReadMessage_InrD [OF this] have "r = Message_Bytes m @ z" by simp
  then show "(z, r) \<in> measure length" by (simp add: Message_Bytes_def)
qed auto

declare decode_messages.simps [simp del]

lemma decode_messages_Nil [simp]: "decode_messages [] = []"
  by (simp add: decode_messages.simps ReadMessage_Nil)

lemma decode_messages_Message_Bytes [simp]:
  "valid_message m \<Longrightarrow> decode_messages (Message_Bytes m @ r) = m # decode_messages r"
  by (subst decode_messages.simps) (simp add: ReadMessage_encoded)

lemma decode_encode_messages [simp]:
  "list_all valid_message ms \<Longrightarrow> decode_messages (encode_messages ms) = ms"
  by (induction ms) simp_all

text \<open>Both streams of a pipe hold whole messages.\<close>

definition pipe_abs :: "pipe_peer \<Rightarrow> chan_world" where
  "pipe_abs t = \<lparr>next_secrets = pipe_rand t, inbox = decode_messages (pipe_r t),
                 outbox = decode_messages (pipe_w t)\<rparr>"

definition pipe_inv :: "pipe_peer \<Rightarrow> bool" where
  "pipe_inv t \<longleftrightarrow> wf_secrets (pipe_rand t)
     \<and> encode_messages (decode_messages (pipe_r t)) = pipe_r t
     \<and> encode_messages (decode_messages (pipe_w t)) = pipe_w t"

lemma decode_messages_valid: "list_all valid_message (decode_messages r)"
proof (induction r rule: decode_messages.induct)
  case (1 r)
  show ?case
  proof (cases "ReadMessage r")
    case (Pair x r')
    with 1 ReadMessage_InrD [of r _ r'] show ?thesis
      by (subst decode_messages.simps) (auto split: sum.splits)
  qed
qed

lemma decode_messages_snoc:
  assumes "encode_messages (decode_messages w) = w" and "valid_message m"
  shows "decode_messages (w @ Message_Bytes m) = decode_messages w @ [m]"
proof -
  have "w @ Message_Bytes m = encode_messages (decode_messages w @ [m])"
    using assms(1) by simp
  then show ?thesis
    using decode_encode_messages [of "decode_messages w @ [m]"] decode_messages_valid [of w]
      assms(2) by simp
qed

interpretation pipe: dice_peer pipe_env pipe_abs pipe_inv
proof
  fix w s w' assume "pipe_inv w" and "rand_Read pipe_env w = (s, w')"
  then show "length s = 32 \<and> pipe_inv w' \<and> rand_Read chan_env (pipe_abs w) = (s, pipe_abs w')"
    by (auto simp: pipe_env_def pipe_inv_def pipe_abs_def wf_secrets_def)
next
  fix w m e w'
  assume "pipe_inv w" and "valid_message m" and "peer_Send pipe_env w m = (e, w')"
  then show "pipe_inv w' \<and> peer_Send chan_env (pipe_abs w) m = (e, pipe_abs w')"
    by (auto simp: pipe_env_def PipePeer_Send_def pipe_inv_def pipe_abs_def decode_messages_snoc)
next
  fix w r w' assume inv: "pipe_inv w" and recv: "peer_Recv pipe_env w = (r, w')"
  show "pipe_inv w' \<and> peer_Recv chan_env (pipe_abs w) = (r, pipe_abs w')"
  proof (cases "decode_messages (pipe_r w)")
    case Nil
    with inv have "pipe_r w = []" by (simp add: pipe_inv_def)
    with inv recv Nil show ?thesis
      by (auto simp: pipe_env_def PipePeer_Recv_def pipe_inv_def pipe_abs_def ReadMessage_Nil)
  next
    case (Cons m ms)
    with inv have r: "pipe_r w = Message_Bytes m @ encode_messages ms"
      by (simp add: pipe_inv_def)
    have v: "valid_message m" "list_all valid_message ms"
      using decode_messages_valid [of "pipe_r w"] Cons by simp_all
    with inv recv r show ?thesis
      by (auto simp: pipe_env_def PipePeer_Recv_def pipe_inv_def pipe_abs_def ReadMessage_encoded)
  qed
qed

end
