(* ===== verification/Dice_Protocol.thy ===== *)
theory Dice_Protocol
  imports Dice_Channel
begin

text \<open>
  The guarantees of one dice roll, against any peer. On the abstract peer a roll is
  characterised completely: it succeeds exactly when the peer's next three messages are a
  commitment, the secret it commits to and the confirmation of the rolls that both secrets
  determine. From this: the two ends of an exchange agree, a peer cannot choose its secret
  after seeing ours, and our secret leaves only after the peer has committed.
\<close>

section \<open>The messages of one roll\<close>

definition commitmentMessage :: "bytes \<Rightarrow> message" where
  "commitmentMessage c = \<lparr>msg_Type = MsgTypeCommitment, msg_Data = c\<rparr>"

definition secretMessage :: "bytes \<Rightarrow> message" where
  "secretMessage s = \<lparr>msg_Type = MsgTypeSecret, msg_Data = s\<rparr>"

definition confirmationMessage :: "16 word list \<Rightarrow> message" where
  "confirmationMessage rs = \<lparr>msg_Type = MsgTypeRollConfirmation, msg_Data = encode_rolls rs\<rparr>"

text \<open>What an end with a given secret sends in a roll with the given outcome.\<close>

definition roll_messages :: "(bytes \<Rightarrow> bytes) \<Rightarrow> bytes \<Rightarrow> 16 word list \<Rightarrow> message list" where
  "roll_messages sha s rs =
     [commitmentMessage (calculateCommitment sha s), secretMessage s, confirmationMessage rs]"

lemmas message_mk_defs = commitmentMessage_def secretMessage_def confirmationMessage_def

lemma roll_messages_valid:
  "hash32 sha \<Longrightarrow> length s = 32 \<Longrightarrow> length rs \<le> 16 \<Longrightarrow> list_all valid_message (roll_messages sha s rs)"
  by (simp add: roll_messages_def message_mk_defs)

section \<open>One roll on the abstract peer\<close>

lemma exchangeMessages_chan:
  "exchangeMessages chan_env \<lparr>next_secrets = ns, inbox = ib, outbox = ob\<rparr> secret commitment
     = (Inr (s, c), \<lparr>next_secrets = ns', inbox = ib', outbox = ob'\<rparr>) \<longleftrightarrow>
   ib = commitmentMessage c # secretMessage s # ib' \<and> ns' = ns
   \<and> ob' = ob @ [commitmentMessage commitment, secretMessage secret]"
  by (cases ib; cases "tl ib") (auto simp: exchangeMessages_def message_mk_defs)

lemma startExchange_chan:
  "startExchange sha chan_env \<lparr>next_secrets = ns, inbox = ib, outbox = ob\<rparr> secret commitment
     = (Inr s, \<lparr>next_secrets = ns', inbox = ib', outbox = ob'\<rparr>) \<longleftrightarrow>
   ib = commitmentMessage (calculateCommitment sha s) # secretMessage s # ib' \<and> ns' = ns
   \<and> ob' = ob @ [commitmentMessage commitment, secretMessage secret]"
  (is "?L \<longleftrightarrow> ?R")
proof -
  obtain x w where x: "exchangeMessages chan_env \<lparr>next_secrets = ns, inbox = ib, outbox = ob\<rparr>
      secret commitment = (x, w)" by fastforce
  have "?L \<longleftrightarrow> (\<exists>c. x = Inr (s, c) \<and> calculateCommitment sha s = c
      \<and> w = \<lparr>next_secrets = ns', inbox = ib', outbox = ob'\<rparr>)"
    by (auto simp: startExchange_def x verifyCommitment_def split: sum.splits prod.splits if_splits)
  also have "\<dots> \<longleftrightarrow> ?R"
    using exchangeMessages_chan [of ns ib ob secret commitment s "calculateCommitment sha s" ns' ib' ob']
    by (auto simp: x)
  finally show ?thesis .
qed

lemma confirmRoll_chan:
  assumes "length rs \<le> 16"
  shows "confirmRoll chan_env \<lparr>next_secrets = ns, inbox = ib, outbox = ob\<rparr> rs
     = (None, \<lparr>next_secrets = ns', inbox = ib', outbox = ob'\<rparr>) \<longleftrightarrow>
   ib = confirmationMessage rs # ib' \<and> ns' = ns \<and> ob' = ob @ [confirmationMessage rs]"
proof (cases ib)
  case (Cons m ms)
  with assms show ?thesis
    by (cases m) (auto simp: confirmRoll_def message_mk_defs Let_def)
qed (use assms in \<open>simp add: confirmRoll_def Let_def\<close>)

lemma Roll_chan_iff:
  "Roll sha d chan_env \<lparr>next_secrets = ns, inbox = ib, outbox = ob\<rparr>
     = (Inr rs, \<lparr>next_secrets = ns', inbox = ib', outbox = ob'\<rparr>) \<longleftrightarrow>
   (\<exists>s. ib = roll_messages sha s rs @ ib' \<and> roll d (rollSeed sha (ns 0) s) = Inr rs)
   \<and> ob' = ob @ roll_messages sha (ns 0) rs \<and> ns' = (\<lambda>i. ns (Suc i))"
  (is "?L \<longleftrightarrow> ?R")
proof -
  let ?w0 = "\<lparr>next_secrets = \<lambda>i. ns (Suc i), inbox = ib, outbox = ob\<rparr>"
  let ?w' = "\<lparr>next_secrets = ns', inbox = ib', outbox = ob'\<rparr>"
  obtain x w1 where xw: "startExchange sha chan_env ?w0 (ns 0) (calculateCommitment sha (ns 0))
      = (x, w1)" by fastforce
  obtain ns1 ib1 ob1 where w1: "w1 = \<lparr>next_secrets = ns1, inbox = ib1, outbox = ob1\<rparr>"
    by (cases w1) blast
  note x = xw [unfolded w1]
  have k: "(x = Inr s \<and> ns1 = n \<and> ib1 = i \<and> ob1 = out) \<longleftrightarrow>
      (ib = commitmentMessage (calculateCommitment sha s) # secretMessage s # i
       \<and> n = (\<lambda>i. ns (Suc i)) \<and> out = ob @ [commitmentMessage (calculateCommitment sha (ns 0)),
            secretMessage (ns 0)])" for s n i out
    using startExchange_chan [of sha "\<lambda>i. ns (Suc i)" ib ob "ns 0" "calculateCommitment sha (ns 0)" s n i out]
    by (simp add: x)
  have "?L \<longleftrightarrow> (\<exists>s. x = Inr s \<and> roll d (rollSeed sha (ns 0) s) = Inr rs
      \<and> confirmRoll chan_env \<lparr>next_secrets = ns1, inbox = ib1, outbox = ob1\<rparr> rs = (None, ?w'))"
  proof (cases x)
    case (Inl e)
    with x show ?thesis by (simp add: Roll_def createSecretAndCommitment_def)
  next
    case s: (Inr s)
    show ?thesis
    proof (cases "roll d (rollSeed sha (ns 0) s)")
      case (Inl e)
      with x s show ?thesis by (simp add: Roll_def createSecretAndCommitment_def)
    next
      case (Inr rs1)
      obtain e w2 where "confirmRoll chan_env \<lparr>next_secrets = ns1, inbox = ib1, outbox = ob1\<rparr> rs1
          = (e, w2)" by fastforce
      with x s Inr show ?thesis
        by (cases e) (auto simp add: Roll_def createSecretAndCommitment_def)
    qed
  qed
  also have "\<dots> \<longleftrightarrow> (\<exists>s. x = Inr s \<and> roll d (rollSeed sha (ns 0) s) = Inr rs
      \<and> ib1 = confirmationMessage rs # ib' \<and> ns' = ns1 \<and> ob' = ob1 @ [confirmationMessage rs])"
  proof (cases "length rs \<le> 16")
    case True
    then show ?thesis using confirmRoll_chan [of rs ns1 ib1 ob1 ns' ib' ob'] by simp
  qed (auto dest: roll_Inr_length)
  also have "\<dots> \<longleftrightarrow> ?R" (is "?M \<longleftrightarrow> _")
  proof
    assume ?M
    then obtain s where "x = Inr s" "roll d (rollSeed sha (ns 0) s) = Inr rs"
      "ib1 = confirmationMessage rs # ib'" "ns' = ns1" "ob' = ob1 @ [confirmationMessage rs]" by blast
    with k [of s ns1 ib1 ob1] show ?R by (auto simp: roll_messages_def)
  next
    assume ?R
    then obtain s where "ib = roll_messages sha s rs @ ib'"
      "roll d (rollSeed sha (ns 0) s) = Inr rs" by blast
    with \<open>?R\<close> k [of s "\<lambda>i. ns (Suc i)" "confirmationMessage rs # ib'"
        "ob @ [commitmentMessage (calculateCommitment sha (ns 0)), secretMessage (ns 0)]"]
    show ?M by (simp add: roll_messages_def)
  qed
  finally show ?thesis .
qed

text \<open>C30: when a roll succeeds, and with what. Against any peer whatsoever, a roll returns
  \<open>rs\<close> exactly when the next three messages from the peer are a commitment, the secret
  behind that commitment and the confirmation of \<open>rs\<close>, and \<open>rs\<close> are the rolls of the hash
  of both secrets; it has then sent exactly its own three messages and read no more.\<close>

theorem Roll_succeeds_iff:
  "Roll sha d chan_env \<lparr>next_secrets = ns, inbox = ib, outbox = ob\<rparr>
     = (Inr rs, \<lparr>next_secrets = ns', inbox = ib', outbox = ob'\<rparr>) \<longleftrightarrow>
   (\<exists>s. ib = roll_messages sha s rs @ ib' \<and> roll d (rollSeed sha (ns 0) s) = Inr rs)
   \<and> ob' = ob @ roll_messages sha (ns 0) rs \<and> ns' = (\<lambda>i. ns (Suc i))"
  by (rule Roll_chan_iff)

section \<open>Agreement\<close>

lemma Roll_pipe_success:
  assumes "hash32 sha" and "wf_secrets ns" and "length s = 32"
    and "roll d (rollSeed sha (ns 0) s) = Inr rs"
    and "list_all valid_message later"
  shows "\<exists>t. Roll sha d pipe_env
      \<lparr>pipe_rand = ns, pipe_r = encode_messages (roll_messages sha s rs @ later), pipe_w = []\<rparr>
      = (Inr rs, t) \<and> pipe_w t = encode_messages (roll_messages sha (ns 0) rs)
      \<and> pipe_r t = encode_messages later"
proof -
  have len: "length rs \<le> 16" using roll_Inr_length [OF assms(4)] by simp
  let ?in = "roll_messages sha s rs @ later"
  let ?t0 = "\<lparr>pipe_rand = ns, pipe_r = encode_messages ?in, pipe_w = []\<rparr>"
  have v: "list_all valid_message ?in"
    using roll_messages_valid [OF assms(1,3) len] assms(5) by simp
  then have dec: "decode_messages (encode_messages ?in) = ?in" by (rule decode_encode_messages)
  have inv: "pipe_inv ?t0"
    using assms(2) dec by (simp add: pipe_inv_def del: encode_messages_simps(3))
  have ab: "pipe_abs ?t0 = \<lparr>next_secrets = ns, inbox = ?in, outbox = []\<rparr>"
    using dec by (simp add: pipe_abs_def del: encode_messages_simps(3))
  obtain r t where t: "Roll sha d pipe_env ?t0 = (r, t)" by fastforce
  from pipe.Roll_refines [OF inv assms(1) t] have inv': "pipe_inv t"
    and "Roll sha d chan_env \<lparr>next_secrets = ns, inbox = ?in, outbox = []\<rparr> = (r, pipe_abs t)"
    by (simp_all only: ab)
  moreover have "Roll sha d chan_env \<lparr>next_secrets = ns, inbox = ?in, outbox = []\<rparr>
      = (Inr rs, \<lparr>next_secrets = \<lambda>i. ns (Suc i), inbox = later,
           outbox = roll_messages sha (ns 0) rs\<rparr>)"
    using assms(4) by (subst Roll_chan_iff) auto
  ultimately have r: "r = Inr rs" and a: "decode_messages (pipe_w t) = roll_messages sha (ns 0) rs"
    "decode_messages (pipe_r t) = later"
    by (simp_all add: pipe_abs_def)
  with inv' have "pipe_w t = encode_messages (roll_messages sha (ns 0) rs)"
    "pipe_r t = encode_messages later"
    by (metis pipe_inv_def)+
  with t r show ?thesis by blast
qed

text \<open>C6: both ends of a pipe roll the same dice. For any two secrets whose hash has enough
  entropy there is one list of rolls such that each end of a \<open>PipePeer\<close> pair, fed the bytes
  that the other end writes, succeeds with that list and writes exactly the bytes that the
  other end is fed.\<close>

theorem pipe_ends_agree:
  assumes "hash32 sha" and "wf_secrets nsA" and "wf_secrets nsB"
    and "roll d (rollSeed sha (nsA 0) (nsB 0)) = Inr rs"
  shows "\<exists>bytesA bytesB tA tB.
      Roll sha d pipe_env \<lparr>pipe_rand = nsA, pipe_r = bytesB, pipe_w = []\<rparr> = (Inr rs, tA)
      \<and> Roll sha d pipe_env \<lparr>pipe_rand = nsB, pipe_r = bytesA, pipe_w = []\<rparr> = (Inr rs, tB)
      \<and> pipe_w tA = bytesA \<and> pipe_w tB = bytesB \<and> pipe_r tA = [] \<and> pipe_r tB = []"
proof -
  have B: "roll d (rollSeed sha (nsB 0) (nsA 0)) = Inr rs"
    using assms(4) by (simp add: rollSeed_commute)
  have len: "length (nsA 0) = 32" "length (nsB 0) = 32" using assms(2,3) by simp_all
  from Roll_pipe_success [OF assms(1,2) len(2) assms(4), of "[]"]
    Roll_pipe_success [OF assms(1,3) len(1) B, of "[]"]
  show ?thesis by (simp only: append_Nil2 list.pred_inject simp_thms encode_messages_simps) blast
qed

text \<open>Two closed ends for the instances below.\<close>

definition exampleA :: bytes where "exampleA = map of_nat [0..<32]"
definition exampleB :: bytes where "exampleB = map of_nat [7..<39]"

lemma example_lengths [simp]:
  "length exampleA = 32" "length exampleB = 32"
  "wf_secrets (\<lambda>i. exampleA)" "wf_secrets (\<lambda>i. exampleB)"
  by (simp_all add: exampleA_def exampleB_def wf_secrets_def)

lemma example_roll:
  "roll die10 (rollSeed example_hash exampleA exampleB) = Inr [6, 2, 8, 4, 10, 6, 2, 8]"
  by code_simp

theorem pipe_ends_agree_witness:
  "\<exists>bytesA bytesB tA tB.
      Roll example_hash die10 pipe_env \<lparr>pipe_rand = \<lambda>i. exampleA, pipe_r = bytesB, pipe_w = []\<rparr>
        = (Inr [6, 2, 8, 4, 10, 6, 2, 8], tA)
      \<and> Roll example_hash die10 pipe_env \<lparr>pipe_rand = \<lambda>i. exampleB, pipe_r = bytesA, pipe_w = []\<rparr>
        = (Inr [6, 2, 8, 4, 10, 6, 2, 8], tB)
      \<and> pipe_w tA = bytesA \<and> pipe_w tB = bytesB \<and> pipe_r tA = [] \<and> pipe_r tB = []"
  by (rule pipe_ends_agree) (simp_all add: example_roll)

section \<open>A peer is bound to its commitment\<close>

definition commit_binding :: "(bytes \<Rightarrow> bytes) \<Rightarrow> bool" where
  "commit_binding sha \<longleftrightarrow>
     (\<forall>s t. length s = 32 \<longrightarrow> length t = 32 \<longrightarrow>
        calculateCommitment sha s = calculateCommitment sha t \<longrightarrow> s = t)"

text \<open>C8: after its commitment a peer can only abort. Under a hash without collisions on
  committed secrets, two rolls in which we use the same die and secret and receive the same
  first message give the same rolls, whatever the peer sends afterwards: it reveals the same
  secret in both, so nothing it learns from ours can change the outcome.\<close>

theorem commitment_fixes_outcome:
  assumes "commit_binding sha"
    and "ns2 0 = ns1 0"
    and "list_all wf_message ib1" and "list_all wf_message ib2"
    and "Roll sha d chan_env \<lparr>next_secrets = ns1, inbox = c # ib1, outbox = ob1\<rparr> = (Inr rs1, w1)"
    and "Roll sha d chan_env \<lparr>next_secrets = ns2, inbox = c # ib2, outbox = ob2\<rparr> = (Inr rs2, w2)"
  shows "rs1 = rs2 \<and> hd ib1 = hd ib2"
proof -
  obtain n1 i1 o1 where w1: "w1 = \<lparr>next_secrets = n1, inbox = i1, outbox = o1\<rparr>" by (cases w1) blast
  obtain n2 i2 o2 where w2: "w2 = \<lparr>next_secrets = n2, inbox = i2, outbox = o2\<rparr>" by (cases w2) blast
  from assms(5) w1 obtain s where s: "c # ib1 = roll_messages sha s rs1 @ i1"
    "roll d (rollSeed sha (ns1 0) s) = Inr rs1" by (auto simp: Roll_chan_iff)
  from assms(6) w2 obtain t where t: "c # ib2 = roll_messages sha t rs2 @ i2"
    "roll d (rollSeed sha (ns2 0) t) = Inr rs2" by (auto simp: Roll_chan_iff)
  from s t have "calculateCommitment sha s = calculateCommitment sha t"
    by (auto simp: roll_messages_def commitmentMessage_def)
  moreover have "length s = 32" "length t = 32"
    using s(1) t(1) assms(3,4) by (auto simp: roll_messages_def secretMessage_def wf_message_def)
  ultimately have "s = t" using assms(1) by (simp add: commit_binding_def)
  with s t assms(2) show ?thesis by (auto simp: roll_messages_def)
qed

lemma commit_binding_example_hash: "commit_binding example_hash"
  by (auto simp: commit_binding_def calculateCommitment_def example_hash_def)

theorem commitment_fixes_outcome_witness:
  "let rs = [6, 2, 8, 4, 10, 6, 2, 8]; c = commitmentMessage (calculateCommitment example_hash exampleB);
       ms = tl (roll_messages example_hash exampleB rs);
       w1 = \<lparr>next_secrets = \<lambda>i. exampleA, inbox = c # ms, outbox = []\<rparr>;
       w2 = \<lparr>next_secrets = \<lambda>i. exampleA, inbox = c # ms @ ms, outbox = []\<rparr>
   in fst (Roll example_hash die10 chan_env w1) = Inr rs
      \<and> fst (Roll example_hash die10 chan_env w2) = Inr rs \<and> hd ms = hd (ms @ ms)"
proof -
  let ?rs = "[6, 2, 8, 4, 10, 6, 2, 8] :: 16 word list"
  let ?c = "commitmentMessage (calculateCommitment example_hash exampleB)"
  let ?ms = "tl (roll_messages example_hash exampleB ?rs)"
  let ?out = "\<lparr>next_secrets = \<lambda>i. exampleA, inbox = [],
              outbox = roll_messages example_hash exampleA ?rs\<rparr>"
  have ms: "?c # ?ms = roll_messages example_hash exampleB ?rs" by (simp add: roll_messages_def)
  have run: "Roll example_hash die10 chan_env
      \<lparr>next_secrets = \<lambda>i. exampleA, inbox = ?c # ?ms @ l, outbox = []\<rparr> = (Inr ?rs, ?out\<lparr>inbox := l\<rparr>)" for l
    using example_roll by (auto simp: Roll_chan_iff roll_messages_def)
  have wf: "list_all wf_message ?ms"
    by (simp add: roll_messages_def message_mk_defs wf_message_def)
  then have "list_all wf_message (?ms @ ?ms)" by simp
  from commitment_fixes_outcome [OF commit_binding_example_hash _ wf this run [of "[]", simplified] run]
    run [of "[]"] run [of ?ms]
  show ?thesis by (simp add: Let_def)
qed

section \<open>Our secret stays hidden until the peer has committed\<close>

lemma exchangeMessages_outbox:
  assumes "exchangeMessages chan_env w secret commitment = (x, w')"
  shows "outbox w' = outbox w @ [commitmentMessage commitment] \<and> (\<exists>e. x = Inl e)
    \<or> (\<exists>c rest. inbox w = commitmentMessage c # rest
        \<and> outbox w' = outbox w @ [commitmentMessage commitment, secretMessage secret])"
proof (cases "inbox w")
  case Nil
  with assms show ?thesis by (auto simp: exchangeMessages_def message_mk_defs)
next
  case (Cons m ms)
  obtain ty dt where m: "m = \<lparr>msg_Type = ty, msg_Data = dt\<rparr>" by (cases m) blast
  from assms Cons m show ?thesis
    by (cases ms) (auto simp: exchangeMessages_def message_mk_defs split: if_splits)
qed

lemma confirmRoll_outbox:
  assumes "confirmRoll chan_env w rs = (e, w')"
  shows "outbox w' = outbox w \<or> outbox w' = outbox w @ [confirmationMessage rs]"
  using assms by (cases "inbox w") (auto simp: confirmRoll_def confirmationMessage_def Let_def split: if_splits)

text \<open>C17: commit before reveal. In every run of a roll, successful or not and against any peer,
  the first message sent is our commitment, and if our secret has been sent at all then the
  peer's commitment had been received first.\<close>

theorem secret_only_after_commitment:
  assumes "Roll sha d chan_env \<lparr>next_secrets = ns, inbox = ib, outbox = ob\<rparr> = (r, w')"
  shows "\<exists>sent. outbox w' = ob @ commitmentMessage (calculateCommitment sha (ns 0)) # sent
    \<and> (secretMessage (ns 0) \<in> set sent \<longrightarrow> (\<exists>c rest. ib = commitmentMessage c # rest))
    \<and> (\<forall>s. secretMessage s \<in> set sent \<longrightarrow> s = ns 0)"
proof -
  let ?w0 = "\<lparr>next_secrets = \<lambda>i. ns (Suc i), inbox = ib, outbox = ob\<rparr>"
  let ?c = "calculateCommitment sha (ns 0)"
  obtain x w1 where x: "exchangeMessages chan_env ?w0 (ns 0) ?c = (x, w1)" by fastforce
  have out: "outbox w' = outbox w1 \<or> (\<exists>rs. outbox w' = outbox w1 @ [confirmationMessage rs]) \<and> (\<exists>y. x = Inr y)"
    using assms x
    by (auto simp: Roll_def createSecretAndCommitment_def startExchange_def
        split: sum.splits option.splits prod.splits dest!: confirmRoll_outbox)
  have ne: "secretMessage s \<noteq> commitmentMessage c" "secretMessage s \<noteq> confirmationMessage rs" for s c rs
    by (simp_all add: message_mk_defs)
  from exchangeMessages_outbox [OF x] out ne show ?thesis
    by (auto simp: secretMessage_def)
qed

theorem secret_only_after_commitment_witness:
  "let w = \<lparr>next_secrets = \<lambda>i. exampleA, inbox = [], outbox = []\<rparr> in
   Roll example_hash die10 chan_env w
     = (Inl (Wrapf ''failed to exchange: %w'' (Wrapf ''failed to receive commitment: %w'' (Errorf ''EOF''))),
        w\<lparr>outbox := [commitmentMessage (calculateCommitment example_hash exampleA)]\<rparr>)
   \<and> (\<exists>sent. [commitmentMessage (calculateCommitment example_hash exampleA)]
          = [] @ commitmentMessage (calculateCommitment example_hash exampleA) # sent
        \<and> secretMessage exampleA \<notin> set sent)"
proof -
  let ?w = "\<lparr>next_secrets = \<lambda>i. exampleA, inbox = [], outbox = []\<rparr>"
  have run: "Roll example_hash die10 chan_env ?w
     = (Inl (Wrapf ''failed to exchange: %w'' (Wrapf ''failed to receive commitment: %w'' (Errorf ''EOF''))),
        ?w\<lparr>outbox := [commitmentMessage (calculateCommitment example_hash exampleA)]\<rparr>)"
    by (simp add: Roll_def createSecretAndCommitment_def startExchange_def exchangeMessages_def
        commitmentMessage_def)
  from secret_only_after_commitment [OF run] run show ?thesis by (auto simp: Let_def)
qed

end
