(* ===== verification/Go_Channel.thy ===== *)
theory Go_Channel
  imports Ztg_Prelude
begin

text \<open>
  Go's buffered channels as a store of queues, and the two in-memory peers built on them
  (\<open>NewChannelPeers\<close>, \<open>Send\<close> and \<open>Recv\<close> of \<open>dice/channel_peer.go\<close> and
  \<open>factorfight/channel_peer.go\<close>, which differ only in what they carry). An operation
  that would block returns \<open>None\<close>. The lemmas say what the shared store looks like to the
  two peers: what one sends the other receives, in order, and nothing else changes.
\<close>

section \<open>Channels\<close>

record 'm chan =
  chan_cap :: nat
  chan_buf :: "'m list"

type_synonym 'm chan_store = "'m chan list"

definition make_chan :: "nat \<Rightarrow> 'm chan_store \<Rightarrow> nat \<times> 'm chan_store" where
  "make_chan n st = (length st, st @ [\<lparr>chan_cap = n, chan_buf = []\<rparr>])"

definition chan_send :: "nat \<Rightarrow> 'm \<Rightarrow> 'm chan_store \<Rightarrow> 'm chan_store option" where
  "chan_send c m st =
     (if length (chan_buf (st ! c)) < chan_cap (st ! c)
      then Some (st[c := (st ! c)\<lparr>chan_buf := chan_buf (st ! c) @ [m]\<rparr>]) else None)"

definition chan_recv :: "nat \<Rightarrow> 'm chan_store \<Rightarrow> ('m \<times> 'm chan_store) option" where
  "chan_recv c st =
     (case chan_buf (st ! c) of
        [] \<Rightarrow> None
      | m # ms \<Rightarrow> Some (m, st[c := (st ! c)\<lparr>chan_buf := ms\<rparr>]))"

section \<open>Channel peers\<close>

record channel_peer =
  cp_in :: nat
  cp_out :: nat

definition NewChannelPeers :: "'m chan_store \<Rightarrow> (channel_peer \<times> channel_peer) \<times> 'm chan_store" where
  "NewChannelPeers st =
     (let (in1, st1) = make_chan 1 st;
          (in2, st2) = make_chan 1 st1
      in ((\<lparr>cp_in = in1, cp_out = in2\<rparr>, \<lparr>cp_in = in2, cp_out = in1\<rparr>), st2))"

text \<open>Neither operation looks at its context, and neither can fail: it blocks or succeeds.\<close>

definition ChannelPeer_Recv :: "channel_peer \<Rightarrow> 'm chan_store \<Rightarrow> ('m \<times> 'm chan_store) option" where
  "ChannelPeer_Recv c st = chan_recv (cp_in c) st"

definition ChannelPeer_Send :: "channel_peer \<Rightarrow> 'm \<Rightarrow> 'm chan_store \<Rightarrow> 'm chan_store option" where
  "ChannelPeer_Send c m st = chan_send (cp_out c) m st"

section \<open>What the two peers see of the store\<close>

definition paired :: "channel_peer \<Rightarrow> channel_peer \<Rightarrow> 'm chan_store \<Rightarrow> bool" where
  "paired p q st \<longleftrightarrow>
     cp_out p = cp_in q \<and> cp_out q = cp_in p \<and> cp_in p \<noteq> cp_out p
   \<and> cp_in p < length st \<and> cp_out p < length st
   \<and> chan_cap (st ! cp_in p) = 1 \<and> chan_cap (st ! cp_out p) = 1"

definition pending :: "channel_peer \<Rightarrow> 'm chan_store \<Rightarrow> 'm list" where
  "pending q st = chan_buf (st ! cp_in q)"

lemma paired_sym: "paired p q st \<longleftrightarrow> paired q p st"
  by (auto simp: paired_def)

lemma NewChannelPeers_paired:
  assumes "NewChannelPeers st = ((p, q), st')"
  shows "paired p q st'" "pending p st' = []" "pending q st' = []"
  using assms by (auto simp: NewChannelPeers_def make_chan_def paired_def pending_def nth_append)

lemma ChannelPeer_Send_iff:
  assumes "paired p q st"
  shows "ChannelPeer_Send p m st = Some st' \<longleftrightarrow>
    pending q st = [] \<and> st' = st[cp_in q := (st ! cp_in q)\<lparr>chan_buf := [m]\<rparr>]"
  using assms by (auto simp: ChannelPeer_Send_def chan_send_def paired_def pending_def)

lemma ChannelPeer_Recv_iff:
  "ChannelPeer_Recv p st = Some (m, st') \<longleftrightarrow>
    (\<exists>ms. pending p st = m # ms \<and> st' = st[cp_in p := (st ! cp_in p)\<lparr>chan_buf := ms\<rparr>])"
  by (auto simp: ChannelPeer_Recv_def chan_recv_def pending_def split: list.splits)

lemma ChannelPeer_Send_pending:
  assumes "paired p q st" and "ChannelPeer_Send p m st = Some st'"
  shows "paired p q st'" "pending q st = []" "pending q st' = [m]" "pending p st' = pending p st"
  using assms(1) assms(2) [unfolded ChannelPeer_Send_iff [OF assms(1)]]
  by (auto simp: paired_def pending_def)

lemma ChannelPeer_Recv_pending:
  assumes "paired p q st" and "ChannelPeer_Recv p st = Some (m, st')"
  shows "paired p q st'" "pending p st = m # pending p st'" "pending q st' = pending q st"
  using assms by (auto simp: ChannelPeer_Recv_iff paired_def pending_def)

lemma ChannelPeer_Send_enabled:
  "paired p q st \<Longrightarrow> pending q st = [] \<Longrightarrow> \<exists>st'. ChannelPeer_Send p m st = Some st'"
  by (simp add: ChannelPeer_Send_iff)

lemma ChannelPeer_Recv_enabled:
  "pending p st = m # ms \<Longrightarrow> \<exists>st'. ChannelPeer_Recv p st = Some (m, st')"
  by (simp add: ChannelPeer_Recv_iff)

section \<open>FactorFight peers\<close>

text \<open>A FactorFight peer has a channel pair for moves and a dice peer. The constructor hands each
  of its two peers the dice peer of the other argument.\<close>

record 'p ff_channel_peer =
  ffp_moves :: channel_peer
  ffp_dicePeer :: 'p

definition FF_NewChannelPeers ::
    "'p \<Rightarrow> 'p \<Rightarrow> 'm chan_store \<Rightarrow> ('p ff_channel_peer \<times> 'p ff_channel_peer) \<times> 'm chan_store" where
  "FF_NewChannelPeers dicePeer1 dicePeer2 st =
     (let ((p, q), st') = NewChannelPeers st
      in ((\<lparr>ffp_moves = p, ffp_dicePeer = dicePeer2\<rparr>, \<lparr>ffp_moves = q, ffp_dicePeer = dicePeer1\<rparr>), st'))"

definition ChannelPeer_RecvMove :: "'p ff_channel_peer \<Rightarrow> 'm chan_store \<Rightarrow> ('m \<times> 'm chan_store) option" where
  "ChannelPeer_RecvMove c st = chan_recv (cp_in (ffp_moves c)) st"

definition ChannelPeer_SendMove :: "'p ff_channel_peer \<Rightarrow> 'm \<Rightarrow> 'm chan_store \<Rightarrow> 'm chan_store option" where
  "ChannelPeer_SendMove c m st = chan_send (cp_out (ffp_moves c)) m st"

definition ChannelPeer_Dice :: "'p ff_channel_peer \<Rightarrow> 'p" where
  "ChannelPeer_Dice c = ffp_dicePeer c"

text \<open>Two players on a fresh pair are connected for moves and for dice, the dice peers crossed.\<close>

lemma FF_NewChannelPeers_paired:
  assumes "FF_NewChannelPeers d1 d2 st = ((p, q), st')" and "paired d1 d2 dst"
  shows "paired (ffp_moves p) (ffp_moves q) st'" "paired (ChannelPeer_Dice p) (ChannelPeer_Dice q) dst"
  using assms NewChannelPeers_paired [of st _ _ st'] paired_sym [of d1 d2 dst]
  by (auto simp: FF_NewChannelPeers_def ChannelPeer_Dice_def split: prod.splits)

lemma SendMove_then_RecvMove:
  assumes "paired (ffp_moves p) (ffp_moves q) st" and "ChannelPeer_SendMove p m st = Some st'"
  shows "\<exists>st''. ChannelPeer_RecvMove q st' = Some (m, st'') \<and> pending (ffp_moves q) st'' = []"
proof -
  have s: "ChannelPeer_Send (ffp_moves p) m st = Some st'"
    using assms(2) by (simp add: ChannelPeer_SendMove_def ChannelPeer_Send_def)
  note h = ChannelPeer_Send_pending [OF assms(1) s]
  from ChannelPeer_Recv_enabled [OF h(3)]
  obtain st'' where r: "ChannelPeer_Recv (ffp_moves q) st' = Some (m, st'')" by blast
  have "paired (ffp_moves q) (ffp_moves p) st'" using h(1) by (simp add: paired_sym)
  from ChannelPeer_Recv_pending(2) [OF this r] h(3) r show ?thesis
    by (auto simp: ChannelPeer_RecvMove_def ChannelPeer_Recv_def)
qed

end
