(* ===== verification/Dice_Exchange.thy ===== *)
theory Dice_Exchange
  imports Dice_Protocol Go_Channel
begin

text \<open>
  Two players in one program roll over a pair of channel peers, as goroutines. Each side has
  three threads of \<open>dice/roller.go\<close>: the worker that \<open>startExchange\<close> starts, the goroutine
  that \<open>Roll\<close> starts (with the function \<open>startExchange\<close> returned), and the caller of
  \<open>Roll.Get\<close>. A step of one thread, or a rendezvous of two on an unbuffered channel, is a
  rule of \<open>side_step\<close>; \<open>table_step\<close> interleaves the two sides over the store of the peers'
  channels, and \<open>cancel_step\<close> cancels the context of a side at any moment.
\<close>

section \<open>Threads\<close>

text \<open>Each constructor is a point where the thread may wait; its arguments are the locals.\<close>

datatype worker =
    W_SendCommitment
  | W_RecvCommitment
  | W_SendSecret bytes
  | W_RecvSecret bytes
  | W_PutSecret bytes bytes
  | W_PutCommitment bytes
  | W_PutError go_error
  | W_Done

text \<open>\<open>M_Panic\<close> ends the program; \<open>M_Done e\<close> has handed over its result and the error \<open>e\<close>.\<close>

datatype roll_thread =
    M_GetSecret
  | M_GetCommitment bytes
  | M_SendConfirmation "16 word list"
  | M_RecvConfirmation "16 word list"
  | M_PutResult "16 word list" "go_error option"
  | M_PutError "go_error option"
  | M_Done "go_error option"
  | M_Panic go_error

datatype caller =
    C_Get nat
  | C_Select nat
  | C_GetError nat "16 word list"
  | C_GetResult nat "go_error option"
  | C_Returned "16 word list res"

record side =
  sd_peer :: channel_peer
  sd_secret :: bytes
  sd_ctx :: "go_error option"
  sd_worker :: worker
  sd_main :: roll_thread
  sd_caller :: caller

section \<open>What a thread does between two waits\<close>

definition after_commitment :: "message \<Rightarrow> worker" where
  "after_commitment m =
     (if msg_Type m \<noteq> MsgTypeCommitment
      then W_PutError (Errorf ''received unexpected MsgType for commitment: %s'')
      else W_SendSecret (msg_Data m))"

definition after_secret :: "bytes \<Rightarrow> message \<Rightarrow> worker" where
  "after_secret commit m =
     (if msg_Type m \<noteq> MsgTypeSecret
      then W_PutError (Errorf ''received unexpected MsgType for secret: %s'')
      else W_PutSecret (msg_Data m) commit)"

definition exchange_failed :: "go_error \<Rightarrow> roll_thread" where
  "exchange_failed e = M_PutResult [] (Some (wrapf ''failed to exchange: %w'' e))"

definition after_exchange :: "(bytes \<Rightarrow> bytes) \<Rightarrow> roller \<Rightarrow> bytes \<Rightarrow> bytes \<Rightarrow> bytes \<Rightarrow> roll_thread" where
  "after_exchange sha d secret peerSecret commit =
     (case verifyCommitment sha peerSecret commit of
        Some e \<Rightarrow> exchange_failed e
      | None \<Rightarrow>
          (case roll d (rollSeed sha secret peerSecret) of
             Inl e \<Rightarrow> M_Panic e
           | Inr rolls \<Rightarrow> M_SendConfirmation rolls))"

definition after_confirmation :: "16 word list \<Rightarrow> message \<Rightarrow> roll_thread" where
  "after_confirmation rolls m =
     (if msg_Type m \<noteq> MsgTypeRollConfirmation
      then M_PutResult [] (Some (Errorf ''received unexpected MsgType for roll confirmation: %s''))
      else if encode_rolls rolls \<noteq> msg_Data m
      then M_PutResult [] (Some (Errorf ''error confirming roll: peer (%s) != self (%s)''))
      else M_PutResult rolls None)"

text \<open>\<open>Get\<close>: the guard before the select, and what is returned after it.\<close>

definition get_start :: "nat \<Rightarrow> caller" where
  "get_start n =
     (if n = 0 \<or> n > 8 then C_Returned (Inl (Errorf ''number of rolls must be >0 and <=8''))
      else C_Select n)"

definition get_return :: "nat \<Rightarrow> 16 word list \<Rightarrow> go_error option \<Rightarrow> caller" where
  "get_return n result err =
     C_Returned (Roll_Get n (case err of Some e \<Rightarrow> Inl e | None \<Rightarrow> Inr result))"

section \<open>Steps of one side\<close>

inductive side_step ::
    "(bytes \<Rightarrow> bytes) \<Rightarrow> roller \<Rightarrow> side \<Rightarrow> message chan_store \<Rightarrow> side \<Rightarrow> message chan_store \<Rightarrow> bool"
  for sha :: "bytes \<Rightarrow> bytes" and d :: roller where
  send_commitment:
    "sd_worker p = W_SendCommitment \<Longrightarrow>
     ChannelPeer_Send (sd_peer p) (commitmentMessage (calculateCommitment sha (sd_secret p))) cs = Some cs' \<Longrightarrow>
     side_step sha d p cs (p\<lparr>sd_worker := W_RecvCommitment\<rparr>) cs'"
| recv_commitment:
    "sd_worker p = W_RecvCommitment \<Longrightarrow> ChannelPeer_Recv (sd_peer p) cs = Some (m, cs') \<Longrightarrow>
     side_step sha d p cs (p\<lparr>sd_worker := after_commitment m\<rparr>) cs'"
| send_secret:
    "sd_worker p = W_SendSecret c \<Longrightarrow>
     ChannelPeer_Send (sd_peer p) (secretMessage (sd_secret p)) cs = Some cs' \<Longrightarrow>
     side_step sha d p cs (p\<lparr>sd_worker := W_RecvSecret c\<rparr>) cs'"
| recv_secret:
    "sd_worker p = W_RecvSecret c \<Longrightarrow> ChannelPeer_Recv (sd_peer p) cs = Some (m, cs') \<Longrightarrow>
     side_step sha d p cs (p\<lparr>sd_worker := after_secret c m\<rparr>) cs'"
| put_secret:
    "sd_worker p = W_PutSecret s c \<Longrightarrow> sd_main p = M_GetSecret \<Longrightarrow>
     side_step sha d p cs (p\<lparr>sd_worker := W_PutCommitment c, sd_main := M_GetCommitment s\<rparr>) cs"
| put_secret_cancelled:
    "sd_worker p = W_PutSecret s c \<Longrightarrow> sd_ctx p = Some e \<Longrightarrow>
     side_step sha d p cs (p\<lparr>sd_worker := W_PutError e\<rparr>) cs"
| put_commitment:
    "sd_worker p = W_PutCommitment c \<Longrightarrow> sd_main p = M_GetCommitment s \<Longrightarrow>
     side_step sha d p cs
       (p\<lparr>sd_worker := W_Done, sd_main := after_exchange sha d (sd_secret p) s c\<rparr>) cs"
| put_commitment_cancelled:
    "sd_worker p = W_PutCommitment c \<Longrightarrow> sd_ctx p = Some e \<Longrightarrow>
     side_step sha d p cs (p\<lparr>sd_worker := W_PutError e\<rparr>) cs"
| put_error:
    "sd_worker p = W_PutError e \<Longrightarrow> sd_main p = M_GetSecret \<or> sd_main p = M_GetCommitment s \<Longrightarrow>
     side_step sha d p cs (p\<lparr>sd_worker := W_Done, sd_main := exchange_failed e\<rparr>) cs"
| exchange_cancelled:
    "sd_main p = M_GetSecret \<or> sd_main p = M_GetCommitment s \<Longrightarrow> sd_ctx p = Some e \<Longrightarrow>
     side_step sha d p cs (p\<lparr>sd_main := exchange_failed e\<rparr>) cs"
| send_confirmation:
    "sd_main p = M_SendConfirmation rs \<Longrightarrow>
     ChannelPeer_Send (sd_peer p) (confirmationMessage rs) cs = Some cs' \<Longrightarrow>
     side_step sha d p cs (p\<lparr>sd_main := M_RecvConfirmation rs\<rparr>) cs'"
| recv_confirmation:
    "sd_main p = M_RecvConfirmation rs \<Longrightarrow> ChannelPeer_Recv (sd_peer p) cs = Some (m, cs') \<Longrightarrow>
     side_step sha d p cs (p\<lparr>sd_main := after_confirmation rs m\<rparr>) cs'"
| get:
    "sd_caller p = C_Get n \<Longrightarrow> side_step sha d p cs (p\<lparr>sd_caller := get_start n\<rparr>) cs"
| result_first:
    "sd_main p = M_PutResult v e \<Longrightarrow> sd_caller p = C_Select n \<Longrightarrow>
     side_step sha d p cs (p\<lparr>sd_main := M_PutError e, sd_caller := C_GetError n v\<rparr>) cs"
| error_second:
    "sd_main p = M_PutError e \<Longrightarrow> sd_caller p = C_GetError n v \<Longrightarrow>
     side_step sha d p cs (p\<lparr>sd_main := M_Done e, sd_caller := get_return n v e\<rparr>) cs"
| error_first:
    "sd_main p = M_PutError e \<Longrightarrow> sd_caller p = C_Select n \<Longrightarrow>
     side_step sha d p cs (p\<lparr>sd_main := M_Done e, sd_caller := C_GetResult n e\<rparr>) cs"

section \<open>Two sides over one pair of peers\<close>

record table =
  left :: side
  right :: side
  chans :: "message chan_store"

definition panicked :: "side \<Rightarrow> bool" where
  "panicked p \<longleftrightarrow> (case sd_main p of M_Panic e \<Rightarrow> True | _ \<Rightarrow> False)"

inductive table_step :: "(bytes \<Rightarrow> bytes) \<Rightarrow> roller \<Rightarrow> table \<Rightarrow> table \<Rightarrow> bool"
  for sha :: "bytes \<Rightarrow> bytes" and d :: roller where
  step_left:
    "\<not> panicked (left t) \<Longrightarrow> \<not> panicked (right t) \<Longrightarrow>
     side_step sha d (left t) (chans t) p cs \<Longrightarrow> table_step sha d t (t\<lparr>left := p, chans := cs\<rparr>)"
| step_right:
    "\<not> panicked (left t) \<Longrightarrow> \<not> panicked (right t) \<Longrightarrow>
     side_step sha d (right t) (chans t) p cs \<Longrightarrow> table_step sha d t (t\<lparr>right := p, chans := cs\<rparr>)"

inductive cancel_step :: "table \<Rightarrow> table \<Rightarrow> bool" where
  cancel_left: "sd_ctx (left t) = None \<Longrightarrow> cancel_step t (t\<lparr>left := (left t)\<lparr>sd_ctx := Some e\<rparr>\<rparr>)"
| cancel_right: "sd_ctx (right t) = None \<Longrightarrow> cancel_step t (t\<lparr>right := (right t)\<lparr>sd_ctx := Some e\<rparr>\<rparr>)"

text \<open>\<open>Roll\<close> on both peers of a fresh pair, then \<open>Get\<close>, all threads at their first wait.\<close>

definition new_side :: "channel_peer \<Rightarrow> bytes \<Rightarrow> nat \<Rightarrow> side" where
  "new_side peer secret n =
     \<lparr>sd_peer = peer, sd_secret = secret, sd_ctx = None,
      sd_worker = W_SendCommitment, sd_main = M_GetSecret, sd_caller = C_Get n\<rparr>"

definition new_table :: "bytes \<Rightarrow> nat \<Rightarrow> bytes \<Rightarrow> nat \<Rightarrow> table" where
  "new_table secretL nL secretR nR =
     (let ((p, q), cs) = NewChannelPeers []
      in \<lparr>left = new_side p secretL nL, right = new_side q secretR nR, chans = cs\<rparr>)"

text \<open>The tables that \<open>k\<close> steps lead to.\<close>

inductive table_run :: "(bytes \<Rightarrow> bytes) \<Rightarrow> roller \<Rightarrow> table \<Rightarrow> nat \<Rightarrow> table \<Rightarrow> bool"
  for sha :: "bytes \<Rightarrow> bytes" and d :: roller and t :: table where
  run_start: "table_run sha d t 0 t"
| run_step: "table_run sha d t k u \<Longrightarrow> table_step sha d u v \<Longrightarrow> table_run sha d t (Suc k) v"
| run_cancel: "table_run sha d t k u \<Longrightarrow> cancel_step u v \<Longrightarrow> table_run sha d t (Suc k) v"

lemmas step_defs =
  after_commitment_def after_secret_def exchange_failed_def after_exchange_def
  after_confirmation_def get_start_def get_return_def Roll_Get_def

section \<open>Every run ends\<close>

fun worker_work :: "worker \<Rightarrow> nat" where
  "worker_work W_SendCommitment = 7"
| "worker_work W_RecvCommitment = 6"
| "worker_work (W_SendSecret c) = 5"
| "worker_work (W_RecvSecret c) = 4"
| "worker_work (W_PutSecret s c) = 3"
| "worker_work (W_PutCommitment c) = 2"
| "worker_work (W_PutError e) = 1"
| "worker_work W_Done = 0"

fun main_work :: "roll_thread \<Rightarrow> nat" where
  "main_work M_GetSecret = 6"
| "main_work (M_GetCommitment s) = 5"
| "main_work (M_SendConfirmation rs) = 4"
| "main_work (M_RecvConfirmation rs) = 3"
| "main_work (M_PutResult v e) = 2"
| "main_work (M_PutError e) = 1"
| "main_work (M_Done e) = 0"
| "main_work (M_Panic e) = 0"

fun caller_work :: "caller \<Rightarrow> nat" where
  "caller_work (C_Get n) = 1"
| "caller_work _ = 0"

definition side_work :: "side \<Rightarrow> nat" where
  "side_work p = worker_work (sd_worker p) + main_work (sd_main p) + caller_work (sd_caller p)
     + (if sd_ctx p = None then 1 else 0)"

lemma side_step_work: "side_step sha d p cs p' cs' \<Longrightarrow> side_work p' < side_work p"
  by (induction rule: side_step.induct)
    (auto simp: side_work_def step_defs split: sum.splits option.splits)

lemma table_run_work:
  "table_run sha d t k u \<Longrightarrow> k + side_work (left u) + side_work (right u) \<le> side_work (left t) + side_work (right t)"
proof (induction rule: table_run.induct)
  case (run_step k u v)
  then show ?case by (auto elim!: table_step.cases dest!: side_step_work)
next
  case (run_cancel k u v)
  then show ?case by (auto elim!: cancel_step.cases simp: side_work_def)
qed simp

section \<open>What every reachable table looks like\<close>

text \<open>How many messages a side has sent and received, read off its threads.\<close>

fun worker_sent :: "worker \<Rightarrow> nat" where
  "worker_sent W_SendCommitment = 0"
| "worker_sent W_RecvCommitment = 1"
| "worker_sent (W_SendSecret c) = 1"
| "worker_sent _ = 2"

fun worker_recvd :: "worker \<Rightarrow> nat" where
  "worker_recvd W_SendCommitment = 0"
| "worker_recvd W_RecvCommitment = 0"
| "worker_recvd (W_SendSecret c) = 1"
| "worker_recvd (W_RecvSecret c) = 1"
| "worker_recvd _ = 2"

fun confirmed :: "roll_thread \<Rightarrow> bool" where
  "confirmed (M_PutResult v None) = True"
| "confirmed (M_PutError None) = True"
| "confirmed (M_Done None) = True"
| "confirmed _ = False"

fun main_sent :: "roll_thread \<Rightarrow> nat" where
  "main_sent (M_RecvConfirmation rs) = 1"
| "main_sent m = (if confirmed m then 1 else 0)"

definition sent :: "side \<Rightarrow> nat" where
  "sent p = worker_sent (sd_worker p) + main_sent (sd_main p)"

definition recvd :: "side \<Rightarrow> nat" where
  "recvd p = worker_recvd (sd_worker p) + (if confirmed (sd_main p) then 1 else 0)"

text \<open>The messages a side sends when the hash of both secrets rolls as \<open>R\<close>.\<close>

definition script :: "(bytes \<Rightarrow> bytes) \<Rightarrow> 16 word list res \<Rightarrow> bytes \<Rightarrow> message list" where
  "script sha R s =
     [commitmentMessage (calculateCommitment sha s), secretMessage s]
     @ (case R of Inl e \<Rightarrow> [] | Inr rs \<Rightarrow> [confirmationMessage rs])"

text \<open>A channel holds what was sent and not yet received.\<close>

definition flow :: "message list \<Rightarrow> side \<Rightarrow> side \<Rightarrow> message chan_store \<Rightarrow> bool" where
  "flow ms p q cs \<longleftrightarrow> recvd q \<le> sent p \<and> pending (sd_peer q) cs = drop (recvd q) (take (sent p) ms)"

fun worker_ok :: "bytes \<Rightarrow> bytes \<Rightarrow> worker \<Rightarrow> bool" where
  "worker_ok s c (W_SendSecret c') \<longleftrightarrow> c' = c"
| "worker_ok s c (W_RecvSecret c') \<longleftrightarrow> c' = c"
| "worker_ok s c (W_PutSecret s' c') \<longleftrightarrow> s' = s \<and> c' = c"
| "worker_ok s c (W_PutCommitment c') \<longleftrightarrow> c' = c"
| "worker_ok s c _ \<longleftrightarrow> True"

fun main_ok :: "bytes \<Rightarrow> 16 word list res \<Rightarrow> worker \<Rightarrow> bool \<Rightarrow> roll_thread \<Rightarrow> bool" where
  "main_ok s R w live M_GetSecret \<longleftrightarrow> w \<noteq> W_Done \<and> (\<forall>c. w \<noteq> W_PutCommitment c)"
| "main_ok s R w live (M_GetCommitment s') \<longleftrightarrow> s' = s \<and> ((\<exists>c. w = W_PutCommitment c) \<or> (\<exists>e. w = W_PutError e))"
| "main_ok s R w live (M_SendConfirmation rs) \<longleftrightarrow> R = Inr rs \<and> w = W_Done"
| "main_ok s R w live (M_RecvConfirmation rs) \<longleftrightarrow> R = Inr rs \<and> w = W_Done"
| "main_ok s R w live (M_PutResult v e) \<longleftrightarrow> (case e of None \<Rightarrow> R = Inr v \<and> w = W_Done | Some x \<Rightarrow> \<not> live)"
| "main_ok s R w live (M_PutError e) \<longleftrightarrow> (case e of None \<Rightarrow> (\<exists>v. R = Inr v) \<and> w = W_Done | Some x \<Rightarrow> \<not> live)"
| "main_ok s R w live (M_Done e) \<longleftrightarrow> (case e of None \<Rightarrow> (\<exists>v. R = Inr v) \<and> w = W_Done | Some x \<Rightarrow> \<not> live)"
| "main_ok s R w live (M_Panic e) \<longleftrightarrow> R = Inl e \<and> w = W_Done"

definition good_count :: "nat \<Rightarrow> bool" where
  "good_count n \<longleftrightarrow> 1 \<le> n \<and> n \<le> 8"

fun gave_result :: "roll_thread \<Rightarrow> bool" where
  "gave_result (M_PutError e) = True"
| "gave_result (M_Done e) = True"
| "gave_result _ = False"

fun caller_ok :: "nat \<Rightarrow> 16 word list res \<Rightarrow> roll_thread \<Rightarrow> caller \<Rightarrow> bool" where
  "caller_ok n R m (C_Get k) \<longleftrightarrow> k = n \<and> \<not> gave_result m"
| "caller_ok n R m (C_Select k) \<longleftrightarrow> k = n \<and> good_count n \<and> \<not> gave_result m"
| "caller_ok n R m (C_GetError k v) \<longleftrightarrow> k = n \<and> good_count n \<and> (\<exists>e. m = M_PutError e \<and> (e = None \<longrightarrow> R = Inr v))"
| "caller_ok n R m (C_GetResult k e) \<longleftrightarrow> False"
| "caller_ok n R m (C_Returned r) \<longleftrightarrow>
     (if good_count n then \<exists>e. m = M_Done e \<and> (case e of None \<Rightarrow> \<exists>rs. R = Inr rs \<and> r = Inr (take n rs) | Some x \<Rightarrow> r = Inl x)
      else \<not> gave_result m \<and> r = Inl (Errorf ''number of rolls must be >0 and <=8''))"

definition side_ok ::
    "(bytes \<Rightarrow> bytes) \<Rightarrow> 16 word list res \<Rightarrow> bytes \<Rightarrow> bytes \<Rightarrow> nat \<Rightarrow> side \<Rightarrow> bool" where
  "side_ok sha R own other n p \<longleftrightarrow>
     sd_secret p = own
   \<and> worker_ok other (calculateCommitment sha other) (sd_worker p)
   \<and> (\<forall>e. sd_worker p = W_PutError e \<longrightarrow> sd_ctx p \<noteq> None)
   \<and> main_ok other R (sd_worker p) (sd_ctx p = None) (sd_main p)
   \<and> caller_ok n R (sd_main p) (sd_caller p)"

lemma flow_empty:
  "flow ms p q cs \<Longrightarrow> sent p < length ms \<Longrightarrow> pending (sd_peer q) cs = [] \<Longrightarrow> recvd q = sent p"
  by (auto simp: flow_def)

lemma flow_head:
  assumes "flow ms p q cs" and "pending (sd_peer q) cs = m # rest"
  shows "m = ms ! recvd q" "rest = drop (Suc (recvd q)) (take (sent p) ms)" "recvd q < sent p" "recvd q < length ms"
proof -
  have d: "drop (recvd q) (take (sent p) ms) = m # rest" using assms by (simp add: flow_def)
  then have l: "recvd q < length (take (sent p) ms)" by (metis drop_all leI list.distinct(1))
  with d show "m = ms ! recvd q" "rest = drop (Suc (recvd q)) (take (sent p) ms)"
    by (metis Cons_nth_drop_Suc list.inject nth_take length_take min_less_iff_conj)+
  from l show "recvd q < sent p" "recvd q < length ms" by simp_all
qed

lemma flow_sent:
  assumes "sent p < length ms" "flow ms p q cs" "pending (sd_peer q) cs = []"
    "pending (sd_peer q) cs' = [ms ! sent p]" "sent p' = Suc (sent p)"
  shows "flow ms p' q cs'"
  using assms flow_empty [OF assms(2,1,3)]
  by (simp add: flow_def take_Suc_conv_app_nth)

lemma flow_recvd:
  assumes "flow ms p q cs" "pending (sd_peer q) cs = m # pending (sd_peer q) cs'"
    "recvd q' = Suc (recvd q)" "sd_peer q' = sd_peer q"
  shows "flow ms p q' cs'"
  using assms flow_head [OF assms(1,2)] by (simp add: flow_def)

lemma flow_same:
  "flow ms p q cs \<Longrightarrow> sent p' = sent p \<Longrightarrow> recvd q' = recvd q \<Longrightarrow> sd_peer q' = sd_peer q
   \<Longrightarrow> pending (sd_peer q) cs' = pending (sd_peer q) cs \<Longrightarrow> flow ms p' q' cs'"
  by (simp add: flow_def)

lemma script_nth [simp]:
  "script sha R s ! 0 = commitmentMessage (calculateCommitment sha s)"
  "script sha R s ! Suc 0 = secretMessage s"
  "R = Inr rs \<Longrightarrow> script sha R s ! 2 = confirmationMessage rs"
  "length (script sha R s) = (case R of Inl e \<Rightarrow> 2 | Inr rs \<Rightarrow> 3)"
  by (auto simp: script_def split: sum.splits)

definition half_ok ::
    "(bytes \<Rightarrow> bytes) \<Rightarrow> 16 word list res \<Rightarrow> bytes \<Rightarrow> bytes \<Rightarrow> nat \<Rightarrow> side \<Rightarrow> side \<Rightarrow> message chan_store \<Rightarrow> bool" where
  "half_ok sha R own other n p q cs \<longleftrightarrow>
     side_ok sha R own other n p \<and> paired (sd_peer p) (sd_peer q) cs
   \<and> flow (script sha R own) p q cs \<and> flow (script sha R other) q p cs"

lemmas count_defs = sent_def recvd_def

lemma half_ok_send:
  assumes "half_ok sha R own other n p q cs"
    and "ChannelPeer_Send (sd_peer p) (script sha R own ! sent p) cs = Some cs'"
    and "sent p < length (script sha R own)"
    and "side_ok sha R own other n p'" "sd_peer p' = sd_peer p" "sent p' = Suc (sent p)" "recvd p' = recvd p"
  shows "half_ok sha R own other n p' q cs'"
  using assms ChannelPeer_Send_pending [OF _ assms(2), of "sd_peer q"]
  by (auto simp: half_ok_def intro: flow_sent flow_same)

lemma half_ok_recv:
  assumes "half_ok sha R own other n p q cs"
    and "ChannelPeer_Recv (sd_peer p) cs = Some (m, cs')"
    and "m = script sha R other ! recvd p \<Longrightarrow> recvd p < length (script sha R other) \<Longrightarrow>
       side_ok sha R own other n p' \<and> sd_peer p' = sd_peer p \<and> sent p' = sent p \<and> recvd p' = Suc (recvd p)"
  shows "half_ok sha R own other n p' q cs'"
proof -
  note p = ChannelPeer_Recv_pending [OF _ assms(2), of "sd_peer q"]
  have h: "flow (script sha R other) q p cs" "paired (sd_peer p) (sd_peer q) cs"
    using assms(1) by (simp_all add: half_ok_def)
  from assms(3) flow_head [OF h(1) p(2) [OF h(2)]]
  have "side_ok sha R own other n p' \<and> sd_peer p' = sd_peer p \<and> sent p' = sent p \<and> recvd p' = Suc (recvd p)"
    by blast
  with assms(1) p [OF h(2)] show ?thesis
    by (auto simp: half_ok_def intro: flow_recvd flow_same)
qed

lemma half_ok_local:
  assumes "half_ok sha R own other n p q cs" and "cs' = cs"
    and "side_ok sha R own other n p'" "sd_peer p' = sd_peer p" "sent p' = sent p" "recvd p' = recvd p"
  shows "half_ok sha R own other n p' q cs'"
  using assms by (auto simp: half_ok_def intro: flow_same)

fun exchanging :: "worker \<Rightarrow> bool" where
  "exchanging (W_PutCommitment c) = False"
| "exchanging (W_PutError e) = False"
| "exchanging W_Done = False"
| "exchanging _ = True"

lemma main_early:
  "main_ok s R w live m \<Longrightarrow> w \<noteq> W_Done \<Longrightarrow> \<not> confirmed m"
  "main_ok s R w live m \<Longrightarrow> w \<noteq> W_Done \<Longrightarrow> main_sent m = 0"
  by (cases m; auto split: option.splits)+

lemma main_ok_exchanging:
  "main_ok s R w live m \<Longrightarrow> exchanging w \<Longrightarrow> exchanging w' \<Longrightarrow> main_ok s R w' live m"
  by (cases m; auto split: option.splits)

lemma main_ok_failed:
  "main_ok s R w False m \<Longrightarrow> w \<noteq> W_Done \<Longrightarrow> main_ok s R (W_PutError e) False m"
  by (cases m; auto split: option.splits)

lemma after_exchange_honest [simp]:
  "after_exchange sha d own other (calculateCommitment sha other) =
     (case roll d (rollSeed sha own other) of Inl e \<Rightarrow> M_Panic e | Inr rs \<Rightarrow> M_SendConfirmation rs)"
  by (simp add: after_exchange_def verifyCommitment_def)

lemmas half_simps =
  half_ok_def side_ok_def count_defs after_commitment_def after_secret_def exchange_failed_def
  after_confirmation_def get_start_def get_return_def Roll_Get_def

lemma side_step_half_ok:
  assumes "side_step sha d p cs p' cs'" and "half_ok sha R own other n p q cs"
    and R: "roll d (rollSeed sha own other) = R"
  shows "half_ok sha R own other n p' q cs'"
  using assms(1)
proof (cases rule: side_step.cases)
  case send_commitment
  with assms(2) show ?thesis
    by (intro half_ok_send [OF assms(2)])
      (auto simp: half_simps main_early main_ok_exchanging split: sum.splits)
next
  case (recv_commitment m)
  with assms(2) show ?thesis
    by (intro half_ok_recv [OF assms(2) recv_commitment(3)])
      (auto simp: half_simps main_early main_ok_exchanging commitmentMessage_def split: sum.splits)
next
  case (send_secret c)
  with assms(2) show ?thesis
    by (intro half_ok_send [OF assms(2)])
      (auto simp: half_simps main_early main_ok_exchanging split: sum.splits)
next
  case (recv_secret c m)
  with assms(2) show ?thesis
    by (intro half_ok_recv [OF assms(2) recv_secret(3)])
      (auto simp: half_simps main_early main_ok_exchanging secretMessage_def split: sum.splits)
next
  case (put_secret s c)
  with assms(2) show ?thesis
    by (cases "sd_caller p"; intro half_ok_local [OF assms(2)]; auto simp: half_simps split: if_splits)
next
  case (put_secret_cancelled s c e)
  with assms(2) show ?thesis
    by (intro half_ok_local [OF assms(2)]) (auto simp: half_simps main_early main_ok_failed)
next
  case (put_commitment c s)
  with assms(2) R show ?thesis
    by (cases "sd_caller p"; cases R; intro half_ok_local [OF assms(2)]; auto simp: half_simps split: if_splits)
next
  case (put_commitment_cancelled c e)
  with assms(2) show ?thesis
    by (intro half_ok_local [OF assms(2)]) (auto simp: half_simps main_early main_ok_failed)
next
  case (put_error e s)
  with assms(2) show ?thesis
    by (cases "sd_caller p"; intro half_ok_local [OF assms(2)]; auto simp: half_simps split: if_splits)
next
  case (exchange_cancelled s e)
  with assms(2) show ?thesis
    by (cases "sd_caller p"; intro half_ok_local [OF assms(2)]; auto simp: half_simps split: if_splits)
next
  case (send_confirmation rs)
  with assms(2) show ?thesis
    by (cases "sd_caller p"; intro half_ok_send [OF assms(2)]; auto simp: half_simps split: if_splits)
next
  case (recv_confirmation rs m)
  with assms(2) show ?thesis
    by (cases "sd_caller p"; intro half_ok_recv [OF assms(2) recv_confirmation(3)];
        auto simp: half_simps confirmationMessage_def split: if_splits)
next
  case (get n)
  with assms(2) show ?thesis
    by (intro half_ok_local [OF assms(2)]; auto simp: half_simps good_count_def)
next
  case (result_first v e n)
  with assms(2) show ?thesis
    by (cases e; intro half_ok_local [OF assms(2)]; auto simp: half_simps)
next
  case (error_second e n v)
  with assms(2) R show ?thesis
    by (cases e; intro half_ok_local [OF assms(2)]; auto simp: half_simps good_count_def dest: roll_Inr_length)
next
  case (error_first e n)
  with assms(2) show ?thesis by (auto simp: half_simps)
qed

end
