(* ===== verification/Dice_Concurrent.thy ===== *)
theory Dice_Concurrent
  imports Dice_Exchange
begin

text \<open>
  Every run of two rolls over channel peers: the invariant of \<open>Dice_Exchange\<close> holds in every
  reachable table, so there is no deadlock, every run is short, nobody is told wrong rolls, and
  what a cancelled or refused call leaves behind is known. A scheduler plays closed runs.
\<close>

section \<open>Reachable tables\<close>

definition table_ok ::
    "(bytes \<Rightarrow> bytes) \<Rightarrow> 16 word list res \<Rightarrow> bytes \<Rightarrow> nat \<Rightarrow> bytes \<Rightarrow> nat \<Rightarrow> table \<Rightarrow> bool" where
  "table_ok sha R secretL nL secretR nR t \<longleftrightarrow>
     half_ok sha R secretL secretR nL (left t) (right t) (chans t)
   \<and> half_ok sha R secretR secretL nR (right t) (left t) (chans t)"

text \<open>One side may step as long as the other side's half of the invariant holds.\<close>

lemma half_ok_swap:
  assumes "half_ok sha R own other n p q cs" and "side_ok sha R other own n' q"
  shows "half_ok sha R other own n' q p cs"
  using assms paired_sym [of "sd_peer p" "sd_peer q" cs] by (simp add: half_ok_def)

lemma half_ok_side: "half_ok sha R own other n p q cs \<Longrightarrow> side_ok sha R own other n p"
  by (simp add: half_ok_def)

lemma main_ok_cancelled: "main_ok s R w live m \<Longrightarrow> main_ok s R w False m"
  by (cases m) (auto split: option.splits)

lemma cancel_half_ok:
  assumes "half_ok sha R own other n p q cs"
  shows "half_ok sha R own other n (p\<lparr>sd_ctx := Some e\<rparr>) q cs"
    "half_ok sha R own other n p (q\<lparr>sd_ctx := x\<rparr>) cs"
  using assms main_ok_cancelled [of other R "sd_worker p" "sd_ctx p = None" "sd_main p"]
  by (simp_all add: half_ok_def side_ok_def flow_def count_defs)

lemma table_step_ok:
  assumes "table_step sha d t u" and "table_ok sha R secretL nL secretR nR t"
    and "roll d (rollSeed sha secretL secretR) = R"
  shows "table_ok sha R secretL nL secretR nR u"
  using assms(1)
proof (cases rule: table_step.cases)
  case (step_left p cs)
  with assms(2,3) have "half_ok sha R secretL secretR nL p (right t) cs"
    by (auto simp: table_ok_def intro: side_step_half_ok)
  moreover have "side_ok sha R secretR secretL nR (right t)"
    using assms(2) by (simp add: table_ok_def half_ok_def)
  ultimately show ?thesis using step_left(1) by (simp add: table_ok_def half_ok_swap)
next
  case (step_right p cs)
  with assms(2,3) have "half_ok sha R secretR secretL nR p (left t) cs"
    by (auto simp: table_ok_def rollSeed_commute [of sha secretR] intro: side_step_half_ok)
  moreover have "side_ok sha R secretL secretR nL (left t)"
    using assms(2) by (simp add: table_ok_def half_ok_def)
  ultimately show ?thesis using step_right(1) by (simp add: table_ok_def half_ok_swap)
qed

lemma cancel_step_ok:
  assumes "cancel_step t u" and "table_ok sha R secretL nL secretR nR t"
  shows "table_ok sha R secretL nL secretR nR u"
  using assms by (auto elim!: cancel_step.cases simp: table_ok_def cancel_half_ok)

lemma new_table_eq:
  "new_table secretL nL secretR nR =
     \<lparr>left = new_side \<lparr>cp_in = 0, cp_out = 1\<rparr> secretL nL,
      right = new_side \<lparr>cp_in = 1, cp_out = 0\<rparr> secretR nR,
      chans = [\<lparr>chan_cap = 1, chan_buf = []\<rparr>, \<lparr>chan_cap = 1, chan_buf = []\<rparr>]\<rparr>"
  by (simp add: new_table_def NewChannelPeers_def make_chan_def)

lemma new_table_ok: "table_ok sha R secretL nL secretR nR (new_table secretL nL secretR nR)"
  by (simp add: new_table_eq table_ok_def half_ok_def side_ok_def new_side_def flow_def count_defs
      paired_def pending_def)

lemma table_run_ok:
  assumes "table_run sha d (new_table secretL nL secretR nR) k t"
  shows "table_ok sha (roll d (rollSeed sha secretL secretR)) secretL nL secretR nR t"
  using assms by (induction rule: table_run.induct)
    (blast intro: new_table_ok table_step_ok cancel_step_ok)+

section \<open>No side waits for ever\<close>

lemma side_step_send:
  assumes "paired (sd_peer p) q cs" and "pending q cs = []"
    and "sd_worker p = W_SendCommitment \<or> sd_worker p = W_SendSecret c \<or> sd_main p = M_SendConfirmation rs"
  shows "\<exists>p' cs'. side_step sha d p cs p' cs'"
  using assms(3) ChannelPeer_Send_enabled [OF assms(1,2)]
  by (blast intro: side_step.intros)

lemma side_step_recv:
  assumes "pending (sd_peer p) cs = m # ms"
    and "sd_worker p = W_RecvCommitment \<or> sd_worker p = W_RecvSecret c \<or> sd_main p = M_RecvConfirmation rs"
  shows "\<exists>p' cs'. side_step sha d p cs p' cs'"
  using assms(2) ChannelPeer_Recv_enabled [OF assms(1)]
  by (blast intro: side_step.intros)

lemma flow_pending:
  assumes "flow ms p q cs" and "sent p \<le> length ms"
  shows "pending (sd_peer q) cs = [] \<longleftrightarrow> sent p = recvd q"
  using assms by (auto simp: flow_def)

text \<open>A side that cannot step waits for its peer, or has finished, or has panicked.\<close>

definition at_send :: "side \<Rightarrow> bool" where
  "at_send p \<longleftrightarrow> sd_worker p = W_SendCommitment \<or> (\<exists>c. sd_worker p = W_SendSecret c) \<or> (\<exists>rs. sd_main p = M_SendConfirmation rs)"

definition at_recv :: "side \<Rightarrow> bool" where
  "at_recv p \<longleftrightarrow> sd_worker p = W_RecvCommitment \<or> (\<exists>c. sd_worker p = W_RecvSecret c) \<or> (\<exists>rs. sd_main p = M_RecvConfirmation rs)"

definition finished :: "side \<Rightarrow> bool" where
  "finished p \<longleftrightarrow> (\<exists>rs. sd_caller p = C_Returned (Inr rs)) \<and> sd_worker p = W_Done \<and> sd_main p = M_Done None"

lemma live_main:
  "main_ok s R w True m \<Longrightarrow> e \<noteq> None \<Longrightarrow> m \<noteq> M_PutResult v e \<and> m \<noteq> M_PutError e \<and> m \<noteq> M_Done e"
  by (auto split: option.splits)

lemma side_progress:
  assumes ok: "side_ok sha R own other n p" and n: "good_count n" and live: "sd_ctx p = None"
  shows "(\<exists>p' cs'. side_step sha d p cs p' cs') \<or> at_send p \<or> at_recv p \<or> finished p \<or> panicked p"
proof (cases "sd_caller p")
  case (C_Get k)
  then show ?thesis by (blast intro: side_step.get)
next
  case sel: (C_Select k)
  show ?thesis
  proof (cases "sd_main p")
    case M_GetSecret
    with ok live show ?thesis
      by (cases "sd_worker p") (auto simp: side_ok_def at_send_def at_recv_def intro: side_step.put_secret)
  next
    case (M_GetCommitment s)
    with ok live show ?thesis by (auto simp: side_ok_def intro: side_step.put_commitment)
  next
    case (M_PutResult v e)
    with sel show ?thesis by (blast intro: side_step.result_first)
  qed (use ok sel in \<open>auto simp: side_ok_def at_send_def at_recv_def panicked_def\<close>)
next
  case (C_GetError k v)
  with ok show ?thesis by (auto simp: side_ok_def intro: side_step.error_second)
next
  case (C_GetResult k e)
  with ok show ?thesis by (simp add: side_ok_def)
next
  case (C_Returned r)
  with ok n live show ?thesis by (auto simp: side_ok_def finished_def split: option.splits)
qed

lemma at_counts:
  assumes "side_ok sha R own other n p" and "sd_ctx p = None"
  shows "at_send p \<Longrightarrow> sent p = recvd p \<and> sent p < length (script sha R own)"
    and "at_recv p \<Longrightarrow> sent p = Suc (recvd p) \<and> recvd p < length (script sha R other) \<and> sent p \<le> length (script sha R own)"
    and "finished p \<Longrightarrow> sent p = 3 \<and> recvd p = 3"
proof -
  note m = assms [unfolded side_ok_def]
  show "at_send p \<Longrightarrow> sent p = recvd p \<and> sent p < length (script sha R own)"
    using m by (auto simp: at_send_def count_defs main_early split: sum.splits)
  show "at_recv p \<Longrightarrow> sent p = Suc (recvd p) \<and> recvd p < length (script sha R other) \<and> sent p \<le> length (script sha R own)"
    using m by (auto simp: at_recv_def count_defs main_early split: sum.splits)
  show "finished p \<Longrightarrow> sent p = 3 \<and> recvd p = 3"
    by (simp add: finished_def count_defs)
qed

text \<open>Every step of a waiting side.\<close>

lemma at_send_stuck:
  assumes "half_ok sha R own other n p q cs" "sd_ctx p = None" "at_send p"
    and "\<nexists>p' cs'. side_step sha d p cs p' cs'"
  shows "recvd q < sent p"
proof -
  have h: "paired (sd_peer p) (sd_peer q) cs" "flow (script sha R own) p q cs" "side_ok sha R own other n p"
    using assms(1) by (simp_all add: half_ok_def)
  have "pending (sd_peer q) cs \<noteq> []"
    using side_step_send [OF h(1), of _ _ sha d] assms(3,4) unfolding at_send_def by blast
  with h(2) show ?thesis by (auto simp: flow_def)
qed

lemma at_recv_stuck:
  assumes "half_ok sha R own other n p q cs" "sd_ctx p = None" "at_recv p"
    and "\<nexists>p' cs'. side_step sha d p cs p' cs'"
  shows "sent q \<le> recvd p"
proof -
  have h: "flow (script sha R other) q p cs" "side_ok sha R own other n p"
    using assms(1) by (simp_all add: half_ok_def)
  have "pending (sd_peer p) cs = []"
    using side_step_recv [of p cs _ _ _ _ sha d] assms(3,4) unfolding at_recv_def
    by (meson list.exhaust)
  then have "drop (recvd p) (take (sent q) (script sha R other)) = []" using h(1) by (simp add: flow_def)
  then show ?thesis using at_counts(2) [OF h(2) assms(2,3)] by (auto simp: min_le_iff_disj)
qed

text \<open>The two halves together: somebody can step unless both have finished.\<close>

lemma table_progress:
  assumes ok: "table_ok sha R secretL nL secretR nR t"
    and n: "good_count nL" "good_count nR"
    and live: "sd_ctx (left t) = None" "sd_ctx (right t) = None"
    and stuck: "\<nexists>u. table_step sha d t u"
    and np: "\<not> panicked (left t)" "\<not> panicked (right t)"
  shows "finished (left t) \<and> finished (right t)"
proof -
  let ?l = "left t" and ?r = "right t"
  have hl: "half_ok sha R secretL secretR nL ?l ?r (chans t)" and hr: "half_ok sha R secretR secretL nR ?r ?l (chans t)"
    using ok by (simp_all add: table_ok_def)
  have sl: "\<nexists>p' cs'. side_step sha d ?l (chans t) p' cs'" and sr: "\<nexists>p' cs'. side_step sha d ?r (chans t) p' cs'"
    using stuck np by (blast intro: table_step.intros)+
  note ol = half_ok_side [OF hl] and or' = half_ok_side [OF hr]
  note cl = at_counts [OF ol live(1)] and cr = at_counts [OF or' live(2)]
  have fl: "recvd ?r \<le> sent ?l" "recvd ?l \<le> sent ?r" using hl by (simp_all add: half_ok_def flow_def)
  have len: "length (script sha R s) \<le> 3" for s by (simp split: sum.splits)
  have "at_send ?l \<or> at_recv ?l \<or> finished ?l" "at_send ?r \<or> at_recv ?r \<or> finished ?r"
    using side_progress [OF ol n(1) live(1)] side_progress [OF or' n(2) live(2)] sl sr np by blast+
  moreover have "\<not> at_send ?l" "\<not> at_send ?r" "\<not> at_recv ?l" "\<not> at_recv ?r"
    using calculation at_send_stuck [OF hl live(1) _ sl] at_recv_stuck [OF hl live(1) _ sl]
      at_send_stuck [OF hr live(2) _ sr] at_recv_stuck [OF hr live(2) _ sr] cl cr fl
      len [of secretL] len [of secretR] by linarith+
  ultimately show ?thesis by blast
qed

lemma table_run_bound: "table_run sha d (new_table secretL nL secretR nR) k t \<Longrightarrow> k \<le> 30"
  using table_run_work by (fastforce simp: new_table_eq new_side_def side_work_def)

lemma finished_returned:
  assumes "side_ok sha R own other n p" and "good_count n" and "finished p" and "R = Inr rs"
  shows "sd_caller p = C_Returned (Inr (take n rs))"
  using assms by (auto simp: side_ok_def finished_def)

text \<open>C9: two goroutines over channel peers always finish, with the same rolls. Take two rollers
  in one program on a fresh pair of channel peers, each asked for between one and eight rolls,
  with secrets whose hash has enough entropy, and let their threads run in any order. No run is longer than 30 steps; and whenever no thread
  can move and no context was cancelled, both calls of \<open>Get\<close> have returned their count of the
  same rolls, those of the hash of both secrets, and all four goroutines have ended. So there is
  no deadlock although every channel is unbuffered or holds one message.\<close>

theorem channel_rolls_complete:
  assumes "table_run sha d (new_table secretL nL secretR nR) k t"
    and "roll d (rollSeed sha secretL secretR) = Inr rs"
    and "good_count nL" and "good_count nR"
    and "sd_ctx (left t) = None" and "sd_ctx (right t) = None"
  shows "k \<le> 30 \<and>
    ((\<exists>u. table_step sha d t u)
     \<or> sd_caller (left t) = C_Returned (Inr (take nL rs)) \<and> sd_caller (right t) = C_Returned (Inr (take nR rs))
       \<and> finished (left t) \<and> finished (right t))"
proof -
  from table_run_ok [OF assms(1)] have ok: "table_ok sha (Inr rs) secretL nL secretR nR t"
    by (simp add: assms(2))
  then have s: "side_ok sha (Inr rs) secretL secretR nL (left t)" "side_ok sha (Inr rs) secretR secretL nR (right t)"
    by (simp_all add: table_ok_def half_ok_def)
  then have "\<not> panicked (left t)" "\<not> panicked (right t)"
    by (auto simp: panicked_def side_ok_def split: roll_thread.splits)
  with table_progress [OF ok assms(3-6)] finished_returned [OF s(1) assms(3)]
    finished_returned [OF s(2) assms(4)] table_run_bound [OF assms(1)]
  show ?thesis by blast
qed

text \<open>C19: whatever is cancelled, nobody is told wrong rolls. At any moment of any run, contexts
  cancelled or not, a call of \<open>Get\<close> that has returned rolls has returned the first ones of the
  hash of both secrets, whatever has become of the other call; so two calls that both return
  rolls never disagree.\<close>

theorem channel_rolls_agree:
  assumes "table_run sha d (new_table secretL nL secretR nR) k t"
  shows "(\<forall>xs. sd_caller (left t) = C_Returned (Inr xs) \<longrightarrow>
        (\<exists>rs. roll d (rollSeed sha secretL secretR) = Inr rs \<and> xs = take nL rs))
    \<and> (\<forall>ys. sd_caller (right t) = C_Returned (Inr ys) \<longrightarrow>
        (\<exists>rs. roll d (rollSeed sha secretL secretR) = Inr rs \<and> ys = take nR rs))"
proof -
  from table_run_ok [OF assms]
  have "side_ok sha (roll d (rollSeed sha secretL secretR)) secretL secretR nL (left t)"
    "side_ok sha (roll d (rollSeed sha secretL secretR)) secretR secretL nR (right t)"
    by (simp_all add: table_ok_def half_ok_def)
  then show ?thesis
    by (auto simp: side_ok_def split: if_splits option.splits)
qed

section \<open>What cancelling leaves behind\<close>

fun in_exchange :: "roll_thread \<Rightarrow> bool" where
  "in_exchange M_GetSecret = True"
| "in_exchange (M_GetCommitment s) = True"
| "in_exchange _ = False"

lemma side_step_abandoned:
  assumes "side_step sha d p cs p' cs'" and "\<not> in_exchange (sd_main p)" and "sd_worker p \<noteq> W_Done"
  shows "\<not> in_exchange (sd_main p') \<and> sd_worker p' \<noteq> W_Done"
  using assms by (induction rule: side_step.induct) (auto simp: step_defs)

lemma table_run_abandoned:
  assumes "table_run sha d t k u" and "\<not> in_exchange (sd_main (left t))" and "sd_worker (left t) \<noteq> W_Done"
  shows "\<not> in_exchange (sd_main (left u)) \<and> sd_worker (left u) \<noteq> W_Done"
  using assms
proof (induction rule: table_run.induct)
  case (run_step k u v)
  then show ?case by (auto elim!: table_step.cases dest: side_step_abandoned)
next
  case (run_cancel k u v)
  then show ?case by (auto elim!: cancel_step.cases)
qed simp

text \<open>C20: cancelling a roll strands its worker. Once the function that \<open>startExchange\<close> returned has
  given up on the exchange (because the context was cancelled) while the worker goroutine is
  still running, that goroutine never ends, in no continuation of the run: the channels it
  reports on are unbuffered and nobody receives from them any more.\<close>

theorem cancelled_worker_never_ends:
  assumes "table_run sha d t k u"
    and "sd_main (left t) = exchange_failed e" and "sd_worker (left t) \<noteq> W_Done"
  shows "sd_worker (left u) \<noteq> W_Done"
  using table_run_abandoned [OF assms(1)] assms(2,3) by (simp add: exchange_failed_def)

section \<open>Closed runs\<close>

text \<open>A scheduler: the first enabled step of a side, worker before roll before caller.\<close>

definition worker_next ::
    "(bytes \<Rightarrow> bytes) \<Rightarrow> roller \<Rightarrow> side \<Rightarrow> message chan_store \<Rightarrow> (side \<times> message chan_store) option" where
  "worker_next sha d p cs =
     (case sd_worker p of
        W_SendCommitment \<Rightarrow>
          map_option (\<lambda>cs'. (p\<lparr>sd_worker := W_RecvCommitment\<rparr>, cs'))
            (ChannelPeer_Send (sd_peer p) (commitmentMessage (calculateCommitment sha (sd_secret p))) cs)
      | W_RecvCommitment \<Rightarrow>
          map_option (\<lambda>(m, cs'). (p\<lparr>sd_worker := after_commitment m\<rparr>, cs')) (ChannelPeer_Recv (sd_peer p) cs)
      | W_SendSecret c \<Rightarrow>
          map_option (\<lambda>cs'. (p\<lparr>sd_worker := W_RecvSecret c\<rparr>, cs'))
            (ChannelPeer_Send (sd_peer p) (secretMessage (sd_secret p)) cs)
      | W_RecvSecret c \<Rightarrow>
          map_option (\<lambda>(m, cs'). (p\<lparr>sd_worker := after_secret c m\<rparr>, cs')) (ChannelPeer_Recv (sd_peer p) cs)
      | W_PutSecret s c \<Rightarrow>
          (case (sd_ctx p, sd_main p) of
             (Some e, _) \<Rightarrow> Some (p\<lparr>sd_worker := W_PutError e\<rparr>, cs)
           | (None, M_GetSecret) \<Rightarrow> Some (p\<lparr>sd_worker := W_PutCommitment c, sd_main := M_GetCommitment s\<rparr>, cs)
           | _ \<Rightarrow> None)
      | W_PutCommitment c \<Rightarrow>
          (case (sd_ctx p, sd_main p) of
             (Some e, _) \<Rightarrow> Some (p\<lparr>sd_worker := W_PutError e\<rparr>, cs)
           | (None, M_GetCommitment s) \<Rightarrow>
               Some (p\<lparr>sd_worker := W_Done, sd_main := after_exchange sha d (sd_secret p) s c\<rparr>, cs)
           | _ \<Rightarrow> None)
      | _ \<Rightarrow> None)"

definition main_next :: "side \<Rightarrow> message chan_store \<Rightarrow> (side \<times> message chan_store) option" where
  "main_next p cs =
     (case sd_main p of
        M_SendConfirmation rs \<Rightarrow>
          map_option (\<lambda>cs'. (p\<lparr>sd_main := M_RecvConfirmation rs\<rparr>, cs'))
            (ChannelPeer_Send (sd_peer p) (confirmationMessage rs) cs)
      | M_RecvConfirmation rs \<Rightarrow>
          map_option (\<lambda>(m, cs'). (p\<lparr>sd_main := after_confirmation rs m\<rparr>, cs')) (ChannelPeer_Recv (sd_peer p) cs)
      | m \<Rightarrow>
          (case sd_ctx p of
             None \<Rightarrow> None
           | Some e \<Rightarrow> (if in_exchange m then Some (p\<lparr>sd_main := exchange_failed e\<rparr>, cs) else None)))"

definition caller_next :: "side \<Rightarrow> message chan_store \<Rightarrow> (side \<times> message chan_store) option" where
  "caller_next p cs =
     (case (sd_caller p, sd_main p) of
        (C_Get n, _) \<Rightarrow> Some (p\<lparr>sd_caller := get_start n\<rparr>, cs)
      | (C_Select n, M_PutResult v e) \<Rightarrow> Some (p\<lparr>sd_main := M_PutError e, sd_caller := C_GetError n v\<rparr>, cs)
      | (C_GetError n v, M_PutError e) \<Rightarrow> Some (p\<lparr>sd_main := M_Done e, sd_caller := get_return n v e\<rparr>, cs)
      | _ \<Rightarrow> None)"

definition side_next ::
    "(bytes \<Rightarrow> bytes) \<Rightarrow> roller \<Rightarrow> side \<Rightarrow> message chan_store \<Rightarrow> (side \<times> message chan_store) option" where
  "side_next sha d p cs =
     (case worker_next sha d p cs of Some r \<Rightarrow> Some r
      | None \<Rightarrow> (case main_next p cs of Some r \<Rightarrow> Some r | None \<Rightarrow> caller_next p cs))"

lemma side_next_sound:
  assumes "side_next sha d p cs = Some (p', cs')"
  shows "side_step sha d p cs p' cs'"
proof -
  have "worker_next sha d p cs = Some (p', cs') \<Longrightarrow> side_step sha d p cs p' cs'"
    by (auto simp: worker_next_def intro: side_step.intros
        split: worker.splits option.splits roll_thread.splits)
  moreover have "main_next p cs = Some (p', cs') \<Longrightarrow> side_step sha d p cs p' cs'"
    by (auto simp: main_next_def intro: side_step.intros
        split: option.splits roll_thread.splits if_splits)
  moreover have "caller_next p cs = Some (p', cs') \<Longrightarrow> side_step sha d p cs p' cs'"
    by (auto simp: caller_next_def intro: side_step.intros split: caller.splits roll_thread.splits)
  ultimately show ?thesis using assms by (auto simp: side_next_def split: option.splits)
qed

datatype turn = Left | Right | Cancel_Left go_error

fun play :: "(bytes \<Rightarrow> bytes) \<Rightarrow> roller \<Rightarrow> turn list \<Rightarrow> table \<Rightarrow> table option" where
  "play sha d [] t = Some t"
| "play sha d (Left # ts) t =
     (if panicked (left t) \<or> panicked (right t) then None
      else case side_next sha d (left t) (chans t) of
        None \<Rightarrow> None | Some (p, cs) \<Rightarrow> play sha d ts (t\<lparr>left := p, chans := cs\<rparr>))"
| "play sha d (Right # ts) t =
     (if panicked (left t) \<or> panicked (right t) then None
      else case side_next sha d (right t) (chans t) of
        None \<Rightarrow> None | Some (p, cs) \<Rightarrow> play sha d ts (t\<lparr>right := p, chans := cs\<rparr>))"
| "play sha d (Cancel_Left e # ts) t =
     (if sd_ctx (left t) = None then play sha d ts (t\<lparr>left := (left t)\<lparr>sd_ctx := Some e\<rparr>\<rparr>) else None)"

lemma play_run_from:
  "play sha d ts u = Some v \<Longrightarrow> table_run sha d t k u \<Longrightarrow> table_run sha d t (k + length ts) v"
proof (induction ts arbitrary: u k)
  case (Cons x ts)
  note go = Cons.IH [of _ "Suc k"] and run = Cons.prems(2)
  show ?case
  proof (cases x)
    case Left
    with Cons.prems(1) obtain p cs where s: "side_next sha d (left u) (chans u) = Some (p, cs)"
      "\<not> panicked (left u)" "\<not> panicked (right u)" "play sha d ts (u\<lparr>left := p, chans := cs\<rparr>) = Some v"
      by (auto split: if_splits option.splits)
    from table_step.step_left [OF s(2,3) side_next_sound [OF s(1)]] go [OF s(4) run_step [OF run]]
    show ?thesis by simp
  next
    case Right
    with Cons.prems(1) obtain p cs where s: "side_next sha d (right u) (chans u) = Some (p, cs)"
      "\<not> panicked (left u)" "\<not> panicked (right u)" "play sha d ts (u\<lparr>right := p, chans := cs\<rparr>) = Some v"
      by (auto split: if_splits option.splits)
    from table_step.step_right [OF s(2,3) side_next_sound [OF s(1)]] go [OF s(4) run_step [OF run]]
    show ?thesis by simp
  next
    case (Cancel_Left e)
    with Cons.prems(1) have s: "sd_ctx (left u) = None"
      "play sha d ts (u\<lparr>left := (left u)\<lparr>sd_ctx := Some e\<rparr>\<rparr>) = Some v"
      by (auto split: if_splits)
    from cancel_step.cancel_left [OF s(1)] go [OF s(2) run_cancel [OF run]]
    show ?thesis by simp
  qed
qed simp

lemma play_run: "play sha d ts t = Some u \<Longrightarrow> table_run sha d t (length ts) u"
  using play_run_from [of sha d ts t u t 0] by (simp add: run_start)

text \<open>One roll against two: the sides take turns, then each finishes.\<close>

definition example_schedule :: "turn list" where
  "example_schedule =
     concat (replicate 4 [Left, Right]) @ replicate 3 Left @ replicate 7 Right @ replicate 4 Left"

definition example_table :: table where
  "example_table = new_table exampleA 1 exampleB 2"

definition example_final :: table where
  "example_final = the (play example_hash die10 example_schedule example_table)"

lemma example_play:
  "play example_hash die10 example_schedule example_table = Some example_final"
proof -
  have "play example_hash die10 example_schedule example_table \<noteq> None" by code_simp
  then show ?thesis by (simp add: example_final_def)
qed

lemma example_final_sides:
  "(sd_caller (left example_final), sd_caller (right example_final),
    sd_ctx (left example_final), sd_ctx (right example_final))
   = (C_Returned (Inr [6]), C_Returned (Inr [6, 2]), None, None)"
  by code_simp

lemma example_table_run: "table_run example_hash die10 (new_table exampleA 1 exampleB 2) 22 example_final"
  using play_run [OF example_play] by (simp add: example_table_def example_schedule_def eval_nat_numeral)

theorem channel_rolls_complete_witness:
  "table_run example_hash die10 (new_table exampleA 1 exampleB 2) 22 example_final
   \<and> (22 :: nat) \<le> 30
   \<and> ((\<exists>u. table_step example_hash die10 example_final u)
      \<or> sd_caller (left example_final) = C_Returned (Inr [6]) \<and> sd_caller (right example_final) = C_Returned (Inr [6, 2])
        \<and> finished (left example_final) \<and> finished (right example_final))"
  using channel_rolls_complete [OF example_table_run example_roll] example_final_sides example_table_run
  by (simp add: good_count_def)

theorem channel_rolls_agree_witness:
  "table_run example_hash die10 (new_table exampleA 1 exampleB 2) 22 example_final
   \<and> (\<exists>rs. roll die10 (rollSeed example_hash exampleA exampleB) = Inr rs \<and> [6] = take 1 rs)
   \<and> (\<exists>rs. roll die10 (rollSeed example_hash exampleA exampleB) = Inr rs \<and> [6, 2] = take 2 rs)"
  using channel_rolls_agree [OF example_table_run] example_final_sides example_table_run by blast

text \<open>The left context is cancelled while its worker waits for the commitment; the right side
  goes on, so that the worker gets as far as reporting the cancellation to nobody.\<close>

definition cancelled_table :: table where
  "cancelled_table =
     the (play example_hash die10 [Left, Cancel_Left (Errorf ''context canceled''), Left] example_table)"

definition stranding_schedule :: "turn list" where
  "stranding_schedule = replicate 3 Left @ replicate 3 Right @ replicate 2 Left @ [Right, Left, Left]"

definition stranded_table :: table where
  "stranded_table = the (play example_hash die10 stranding_schedule cancelled_table)"

lemma stranding_play:
  "play example_hash die10 [Left, Cancel_Left (Errorf ''context canceled''), Left] example_table = Some cancelled_table"
  "play example_hash die10 stranding_schedule cancelled_table = Some stranded_table"
proof -
  have "play example_hash die10 [Left, Cancel_Left (Errorf ''context canceled''), Left] example_table \<noteq> None"
    "play example_hash die10 stranding_schedule cancelled_table \<noteq> None"
    by code_simp+
  then show "play example_hash die10 [Left, Cancel_Left (Errorf ''context canceled''), Left] example_table = Some cancelled_table"
    "play example_hash die10 stranding_schedule cancelled_table = Some stranded_table"
    by (simp_all add: cancelled_table_def stranded_table_def)
qed

lemma stranding_sides:
  "(sd_main (left cancelled_table), sd_worker (left cancelled_table))
   = (exchange_failed (Errorf ''context canceled''), W_RecvCommitment)"
  "(sd_caller (left stranded_table), sd_worker (left stranded_table))
   = (C_Returned (Inl (Wrapf ''failed to exchange: %w'' (Errorf ''context canceled''))),
      W_PutError (Errorf ''context canceled''))"
  by code_simp+

theorem cancelled_worker_never_ends_witness:
  "table_run example_hash die10 example_table 3 cancelled_table
   \<and> table_run example_hash die10 cancelled_table 11 stranded_table
   \<and> sd_caller (left stranded_table)
       = C_Returned (Inl (Wrapf ''failed to exchange: %w'' (Errorf ''context canceled'')))
   \<and> sd_worker (left stranded_table) \<noteq> W_Done"
proof -
  have r: "table_run example_hash die10 example_table 3 cancelled_table"
    "table_run example_hash die10 cancelled_table 11 stranded_table"
    using play_run [OF stranding_play(1)] play_run [OF stranding_play(2)]
    by (simp_all add: stranding_schedule_def eval_nat_numeral)
  with cancelled_worker_never_ends [OF r(2)] stranding_sides show ?thesis by simp
qed

section \<open>A refused count strands the roll\<close>

text \<open>\<open>Get\<close> with a bad count returns before it receives anything, and \<open>Roll\<close> has already
  started: its goroutine never ends.\<close>

lemma side_step_refused:
  assumes "side_step sha d p cs p' cs'" and "sd_caller p = C_Returned r" and "\<not> gave_result (sd_main p)"
  shows "sd_caller p' = C_Returned r \<and> \<not> gave_result (sd_main p')"
  using assms by (induction rule: side_step.induct) (auto simp: step_defs split: option.splits sum.splits)

lemma refused_get_strands_roll:
  assumes "table_run sha d t k u" and "sd_caller (left t) = C_Returned r" and "\<not> gave_result (sd_main (left t))"
  shows "sd_caller (left u) = C_Returned r \<and> \<not> gave_result (sd_main (left u))"
  using assms
proof (induction rule: table_run.induct)
  case (run_step k u v)
  then show ?case by (auto elim!: table_step.cases dest: side_step_refused)
next
  case (run_cancel k u v)
  then show ?case by (auto elim!: cancel_step.cases)
qed simp

end
