(* ===== verification/Id_Chain.thy ===== *)
theory Id_Chain
  imports Dice_Roller
begin

text \<open>
  The hash chain and the signer of a server's identity (\<open>identity/chain.go\<close>,
  \<open>identity/signer.go\<close>, \<open>server/signer.go\<close>). SHA-256 is the parameter \<open>sha\<close>; Ed25519 is
  the record \<open>ed25519\<close> of its two operations, with the panics that the package documents
  written out around them. The lemmas show that the head of a chain determines its whole
  history and what a signature of each kind covers.
\<close>

section \<open>The hash chain\<close>

record hash_chain =
  hc_previousHash :: bytes
  hc_sequence :: "64 word"

definition NewHashChain :: hash_chain where
  "NewHashChain = \<lparr>hc_previousHash = [], hc_sequence = 0\<rparr>"

definition chain_input :: "bytes \<Rightarrow> bytes \<Rightarrow> 64 word \<Rightarrow> bytes" where
  "chain_input previousHash data seqno = previousHash @ data @ le_bytes64 seqno"

definition NextHash :: "(bytes \<Rightarrow> bytes) \<Rightarrow> hash_chain \<Rightarrow> bytes \<Rightarrow> bytes \<times> hash_chain" where
  "NextHash sha hc data =
     (let hash = sha (chain_input (hc_previousHash hc) data (hc_sequence hc))
      in (hash, \<lparr>hc_previousHash = hash, hc_sequence = hc_sequence hc + 1\<rparr>))"

definition CurrentHash :: "hash_chain \<Rightarrow> bytes" where
  "CurrentHash hc = hc_previousHash hc"

definition HashChain_Sequence :: "hash_chain \<Rightarrow> 64 word" where
  "HashChain_Sequence hc = hc_sequence hc"

text \<open>\<open>fmt.Sprintf("%x", b)\<close>.\<close>

definition hex_digit :: "nat \<Rightarrow> char" where
  "hex_digit n = (if n < 10 then char_of (48 + n) else char_of (87 + n))"

definition hex :: "bytes \<Rightarrow> string" where
  "hex bs = concat (map (\<lambda>b. [hex_digit (unat b div 16), hex_digit (unat b mod 16)]) bs)"

definition VerifyHash :: "(bytes \<Rightarrow> bytes) \<Rightarrow> hash_chain \<Rightarrow> bytes \<Rightarrow> bytes \<Rightarrow> 64 word \<Rightarrow> bool" where
  "VerifyHash sha hc expectedHash data seqno =
     (if seqno \<noteq> hc_sequence hc then False
      else hex (sha (chain_input (hc_previousHash hc) data seqno)) = hex expectedHash)"

lemma hex_digits_distinct: "distinct (map hex_digit [0..<16])"
  by code_simp

lemma hex_digit_inject: "m < 16 \<Longrightarrow> n < 16 \<Longrightarrow> hex_digit m = hex_digit n \<longleftrightarrow> m = n"
  using nth_eq_iff_index_eq [OF hex_digits_distinct, of m n] by simp

lemma hex_inject [simp]: "hex xs = hex ys \<longleftrightarrow> xs = ys"
proof (induction xs arbitrary: ys)
  case Nil
  then show ?case by (cases ys) (simp_all add: hex_def)
next
  case (Cons x xs)
  show ?case
  proof (cases ys)
    case Nil
    then show ?thesis by (simp add: hex_def)
  next
    case (Cons y zs)
    have eq: "x = y" if d: "unat x div 16 = unat y div 16" and m: "unat x mod 16 = unat y mod 16"
    proof -
      have "unat x = unat y div 16 * 16 + unat y mod 16" unfolding d [symmetric] m [symmetric] by simp
      then show ?thesis by (simp add: word_unat_eq_iff)
    qed
    have lt: "unat z div 16 < 16" for z :: byte
    proof -
      have "unat z < 2 ^ 8" using unsigned_less [of z] by simp
      then show ?thesis by simp
    qed
    have "hex (x # xs) = hex (y # zs) \<longleftrightarrow> x = y \<and> hex xs = hex zs"
      using eq by (auto simp: hex_def hex_digit_inject lt)
    then show ?thesis using Cons Cons.IH [of zs] by simp
  qed
qed

lemma VerifyHash_iff:
  "VerifyHash sha hc h data n \<longleftrightarrow> n = hc_sequence hc \<and> h = fst (NextHash sha hc data)"
  by (auto simp: VerifyHash_def NextHash_def Let_def)


section \<open>A chain over a list of messages\<close>

definition chain_run :: "(bytes \<Rightarrow> bytes) \<Rightarrow> hash_chain \<Rightarrow> bytes list \<Rightarrow> hash_chain" where
  "chain_run sha hc ds = foldl (\<lambda>h d. snd (NextHash sha h d)) hc ds"

text \<open>The byte strings that are hashed on the way.\<close>

fun chain_inputs :: "(bytes \<Rightarrow> bytes) \<Rightarrow> hash_chain \<Rightarrow> bytes list \<Rightarrow> bytes list" where
  "chain_inputs sha hc [] = []"
| "chain_inputs sha hc (d # ds) =
     chain_input (hc_previousHash hc) d (hc_sequence hc) # chain_inputs sha (snd (NextHash sha hc d)) ds"

lemma chain_run_simps [simp]:
  "chain_run sha hc [] = hc"
  "chain_run sha hc (d # ds) = chain_run sha (snd (NextHash sha hc d)) ds"
  "chain_run sha hc (ds @ es) = chain_run sha (chain_run sha hc ds) es"
  by (simp_all add: chain_run_def)

lemma chain_inputs_append:
  "chain_inputs sha hc (ds @ es) = chain_inputs sha hc ds @ chain_inputs sha (chain_run sha hc ds) es"
  by (induction ds arbitrary: hc) simp_all

lemma chain_run_sequence: "hc_sequence (chain_run sha hc ds) = hc_sequence hc + of_nat (length ds)"
  by (induction ds arbitrary: hc) (simp_all add: NextHash_def Let_def)

lemma length_chain_run:
  "hash32 sha \<Longrightarrow> length (hc_previousHash (chain_run sha NewHashChain ds)) = (if ds = [] then 0 else 32)"
  by (cases ds rule: rev_cases) (simp_all add: NextHash_def Let_def NewHashChain_def)

lemma chain_input_inject:
  "length p = length p' \<Longrightarrow> chain_input p d n = chain_input p' d' n' \<longleftrightarrow> p = p' \<and> d = d' \<and> n = n'"
proof -
  assume l: "length p = length p'"
  have "d @ le_bytes64 n = d' @ le_bytes64 n' \<longleftrightarrow> d = d' \<and> n = n'"
    by (subst append_eq_append_conv) (auto dest: arg_cong [where f = length])
  with l show ?thesis by (simp add: chain_input_def)
qed

lemma chain_input_sequence:
  assumes "chain_input p d n = chain_input p' d' n'"
  shows "n = n'"
proof -
  from assms have "(p @ d) @ le_bytes64 n = (p' @ d') @ le_bytes64 n'" by (simp add: chain_input_def)
  then have "le_bytes64 n = le_bytes64 n'" by (rule append_eq_append_conv [THEN iffD1, THEN conjunct2, rotated]) simp
  then show ?thesis by simp
qed

lemma of_nat64_inject: "m < 2 ^ 64 \<Longrightarrow> n < 2 ^ 64 \<Longrightarrow> (of_nat m :: 64 word) = of_nat n \<longleftrightarrow> m = n"
proof -
  assume "m < 2 ^ 64" "n < 2 ^ 64"
  then have "unat (of_nat m :: 64 word) = m" "unat (of_nat n :: 64 word) = n"
    by (simp_all add: unat_of_nat)
  then show ?thesis by metis
qed

text \<open>C33: the head of a hash chain determines the whole history. Two chains that started empty
  and now have the same current hash were fed the same messages in the same order, unless
  two different inputs among those hashed for them collide; changing, dropping, adding or
  reordering messages changes the head.\<close>

theorem hash_chain_binds_history:
  assumes "hash32 sha" and "length ds < 2 ^ 64" "length es < 2 ^ 64"
    and "inj_on sha (set (chain_inputs sha NewHashChain ds) \<union> set (chain_inputs sha NewHashChain es))"
    and "CurrentHash (chain_run sha NewHashChain ds) = CurrentHash (chain_run sha NewHashChain es)"
  shows "ds = es"
  using assms(2-5)
proof (induction ds arbitrary: es rule: rev_induct)
  case Nil
  with length_chain_run [OF assms(1), of es] show ?case
    by (auto simp: CurrentHash_def NewHashChain_def split: if_splits)
next
  case (snoc d ds)
  have "es \<noteq> []"
    using snoc.prems(4) length_chain_run [OF assms(1), of "ds @ [d]"] length_chain_run [OF assms(1), of es]
    by (auto simp: CurrentHash_def)
  then obtain fs e where es: "es = fs @ [e]" by (cases es rule: rev_cases) auto
  let ?h = "chain_run sha NewHashChain ds" and ?k = "chain_run sha NewHashChain fs"
  let ?x = "chain_input (hc_previousHash ?h) d (hc_sequence ?h)"
  let ?y = "chain_input (hc_previousHash ?k) e (hc_sequence ?k)"
  have "sha ?x = sha ?y" using snoc.prems(4) es by (simp add: CurrentHash_def NextHash_def Let_def)
  moreover have "?x \<in> set (chain_inputs sha NewHashChain (ds @ [d]))"
    "?y \<in> set (chain_inputs sha NewHashChain es)"
    by (simp_all add: chain_inputs_append es)
  ultimately have xy: "?x = ?y" using snoc.prems(3) by (auto dest: inj_onD)
  then have "hc_sequence ?h = hc_sequence ?k" by (rule chain_input_sequence)
  then have len: "length ds = length fs"
    using snoc.prems(1,2) es by (simp add: chain_run_sequence of_nat64_inject)
  then have "length (hc_previousHash ?h) = length (hc_previousHash ?k)"
    using length_chain_run [OF assms(1)] by (metis length_0_conv)
  with xy have eq: "hc_previousHash ?h = hc_previousHash ?k" "d = e" by (simp_all add: chain_input_inject)
  have "inj_on sha (set (chain_inputs sha NewHashChain ds) \<union> set (chain_inputs sha NewHashChain fs))"
    by (rule inj_on_subset [OF snoc.prems(3)]) (auto simp: chain_inputs_append es)
  with snoc.IH [of fs] snoc.prems(1,2) eq(1) es have "ds = fs" by (simp add: CurrentHash_def)
  with eq(2) es show ?case by simp
qed


theorem hash_chain_binds_history_witness:
  "CurrentHash (chain_run example_hash NewHashChain [[1], [2, 3]])
     = CurrentHash (chain_run example_hash NewHashChain [[1], [2, 3]])
   \<and> [[1], [2, 3]] = [[1], [2, 3 :: byte]]"
proof -
  let ?ds = "[[1], [2, 3 :: byte]]"
  have "distinct (map example_hash (chain_inputs example_hash NewHashChain ?ds))" by code_simp
  then have "inj_on example_hash (set (chain_inputs example_hash NewHashChain ?ds))"
    unfolding distinct_map ..
  then have "inj_on example_hash (set (chain_inputs example_hash NewHashChain ?ds)
      \<union> set (chain_inputs example_hash NewHashChain ?ds))" by (simp only: Un_absorb)
  from hash_chain_binds_history [OF hash32_example_hash _ _ this refl] show ?thesis by simp
qed

text \<open>Verification accepts exactly the next hash. A chain in the sender's state accepts the
  hash that \<open>NextHash\<close> made for a message, at that position, and with the same hash no other
  message or position, unless the two inputs collide.\<close>

theorem VerifyHash_accepts_only_next:
  assumes "inj_on sha {chain_input (hc_previousHash hc) data (hc_sequence hc),
                       chain_input (hc_previousHash hc) data' (hc_sequence hc)}"
  shows "VerifyHash sha hc (fst (NextHash sha hc data)) data' n \<longleftrightarrow> data' = data \<and> n = HashChain_Sequence hc"
proof -
  have "fst (NextHash sha hc data) = fst (NextHash sha hc data') \<longleftrightarrow> data' = data"
    using assms by (auto simp: NextHash_def Let_def inj_on_def chain_input_inject)
  then show ?thesis by (auto simp: VerifyHash_iff HashChain_Sequence_def)
qed

theorem VerifyHash_accepts_only_next_witness:
  "VerifyHash example_hash NewHashChain (fst (NextHash example_hash NewHashChain [7])) [7] 0
   \<and> \<not> VerifyHash example_hash NewHashChain (fst (NextHash example_hash NewHashChain [7])) [8] 0"
proof -
  have "example_hash (chain_input [] [7] 0) \<noteq> example_hash (chain_input [] [8] 0)" by code_simp
  then have "inj_on example_hash {chain_input [] [7] 0, chain_input [] d 0}" if "d \<in> {[7], [8]}" for d
    using that by (auto simp: inj_on_def)
  with VerifyHash_accepts_only_next [of example_hash NewHashChain "[7]" "[7]" 0]
    VerifyHash_accepts_only_next [of example_hash NewHashChain "[7]" "[8]" 0]
  show ?thesis by (simp add: NewHashChain_def HashChain_Sequence_def)
qed

section \<open>Ed25519\<close>

text \<open>
  The package's two operations. \<open>Sign\<close> panics unless the private key has 64 bytes, \<open>Verify\<close>
  unless the public key has 32, and \<open>PrivateKey.Public\<close> returns the last 32 bytes of the
  private key, slicing it at 32.
\<close>

record ed25519 =
  ed_Sign :: "bytes \<Rightarrow> bytes \<Rightarrow> bytes"
  ed_Verify :: "bytes \<Rightarrow> bytes \<Rightarrow> bytes \<Rightarrow> bool"

definition ed25519_Sign :: "ed25519 \<Rightarrow> bytes \<Rightarrow> bytes \<Rightarrow> bytes res" where
  "ed25519_Sign ed priv m =
     (if length priv \<noteq> 64 then Inl (Panic ''ed25519: bad private key length'') else Inr (ed_Sign ed priv m))"

definition ed25519_Verify :: "ed25519 \<Rightarrow> bytes \<Rightarrow> bytes \<Rightarrow> bytes \<Rightarrow> bool res" where
  "ed25519_Verify ed pub m sig =
     (if length pub \<noteq> 32 then Inl (Panic ''ed25519: bad public key length'') else Inr (ed_Verify ed pub m sig))"

definition PrivateKey_Public :: "bytes \<Rightarrow> bytes res" where
  "PrivateKey_Public priv =
     (if length priv < 32 then Inl (Panic ''slice bounds out of range'') else Inr (take 32 (drop 32 priv @ replicate 32 0)))"

text \<open>What the package documents: a signature verifies under the signer's public key.\<close>

definition ed_correct :: "ed25519 \<Rightarrow> bytes \<Rightarrow> bool" where
  "ed_correct ed priv \<longleftrightarrow> length priv = 64 \<and> (\<forall>m. ed_Verify ed (drop 32 priv) m (ed_Sign ed priv m))"

text \<open>A concrete scheme for instances: the signature is the public key and the message.\<close>

definition example_ed :: ed25519 where
  "example_ed = \<lparr>ed_Sign = (\<lambda>priv m. drop 32 priv @ m), ed_Verify = (\<lambda>pub m s. s = pub @ m)\<rparr>"

definition example_priv :: "byte \<Rightarrow> bytes" where
  "example_priv b = replicate 64 b"

lemma ed_correct_example [simp]: "ed_correct example_ed (example_priv b)"
  by (simp add: ed_correct_def example_ed_def example_priv_def)

section \<open>Signers\<close>

record id_signer =
  privateKey :: bytes
  publicKey :: bytes
  signer_address :: string

definition identity_NewSigner :: "bytes \<Rightarrow> string \<Rightarrow> id_signer res" where
  "identity_NewSigner priv addr =
     (case PrivateKey_Public priv of
        Inl e \<Rightarrow> Inl e
      | Inr pub \<Rightarrow> Inr \<lparr>privateKey = priv, publicKey = pub, signer_address = addr\<rparr>)"

definition identity_Sign :: "(bytes \<Rightarrow> bytes) \<Rightarrow> ed25519 \<Rightarrow> id_signer \<Rightarrow> bytes \<Rightarrow> bytes res" where
  "identity_Sign sha ed s msg = ed25519_Sign ed (privateKey s) (sha msg)"

text \<open>The protobuf messages \<open>Signature\<close> and \<open>OrderedSignature\<close>.\<close>

record signature =
  sig_Signature :: bytes
  SignerAddress :: string

record ordered_signature = signature +
  PreviousHash :: bytes
  os_Sequence :: "64 word"

definition SignMessage :: "(bytes \<Rightarrow> bytes) \<Rightarrow> ed25519 \<Rightarrow> id_signer \<Rightarrow> bytes \<Rightarrow> signature res" where
  "SignMessage sha ed s msg =
     (case identity_Sign sha ed s msg of
        Inl e \<Rightarrow> Inl e
      | Inr sg \<Rightarrow> Inr \<lparr>sig_Signature = sg, SignerAddress = signer_address s\<rparr>)"

definition SignProto ::
    "(bytes \<Rightarrow> bytes) \<Rightarrow> ed25519 \<Rightarrow> ('m \<Rightarrow> bytes res) \<Rightarrow> id_signer \<Rightarrow> 'm \<Rightarrow> signature res" where
  "SignProto sha ed marshal s msg =
     (case marshal msg of
        Inl e \<Rightarrow> Inl (wrapf ''failed to serialize message: %w'' e)
      | Inr b \<Rightarrow> SignMessage sha ed s b)"

definition SignOrderedMessage ::
    "(bytes \<Rightarrow> bytes) \<Rightarrow> ed25519 \<Rightarrow> id_signer \<Rightarrow> bytes \<Rightarrow> bytes \<Rightarrow> 64 word \<Rightarrow> ordered_signature res" where
  "SignOrderedMessage sha ed s msg previousHash seqno =
     (case identity_Sign sha ed s msg of
        Inl e \<Rightarrow> Inl e
      | Inr sg \<Rightarrow> Inr \<lparr>sig_Signature = sg, SignerAddress = signer_address s,
                        PreviousHash = previousHash, os_Sequence = seqno\<rparr>)"

definition SignOrderedMessageProto ::
    "(bytes \<Rightarrow> bytes) \<Rightarrow> ed25519 \<Rightarrow> ('m \<Rightarrow> bytes res) \<Rightarrow> id_signer \<Rightarrow> 'm \<Rightarrow> bytes \<Rightarrow> 64 word
     \<Rightarrow> ordered_signature res" where
  "SignOrderedMessageProto sha ed marshal s msg previousHash seqno =
     (case marshal msg of
        Inl e \<Rightarrow> Inl (wrapf ''failed to serialize message: %w'' e)
      | Inr b \<Rightarrow> SignOrderedMessage sha ed s b previousHash seqno)"

text \<open>
  \<open>CreateSignedMessage\<close> and \<open>CreateSignedOrderedMessage\<close> fill the two fields of the message
  that the caller allocated: the result is the pair of them.
\<close>

definition CreateSignedMessage ::
    "(bytes \<Rightarrow> bytes) \<Rightarrow> ed25519 \<Rightarrow> ('m \<Rightarrow> bytes res) \<Rightarrow> id_signer \<Rightarrow> 'm \<Rightarrow> ('m \<times> signature) res" where
  "CreateSignedMessage sha ed marshal s msg =
     (case SignProto sha ed marshal s msg of
        Inl e \<Rightarrow> Inl (wrapf ''failed to sign message: %w'' e)
      | Inr sg \<Rightarrow> Inr (msg, sg))"

definition CreateSignedOrderedMessage ::
    "(bytes \<Rightarrow> bytes) \<Rightarrow> ed25519 \<Rightarrow> ('m \<Rightarrow> bytes res) \<Rightarrow> id_signer \<Rightarrow> 'm \<Rightarrow> bytes \<Rightarrow> 64 word
     \<Rightarrow> ('m \<times> ordered_signature) res" where
  "CreateSignedOrderedMessage sha ed marshal s msg previousHash seqno =
     (case marshal msg of
        Inl e \<Rightarrow> Inl (wrapf ''failed to serialize message: %w'' e)
      | Inr b \<Rightarrow>
     (case SignOrderedMessage sha ed s b previousHash seqno of
        Inl e \<Rightarrow> Inl (wrapf ''failed to sign ordered message: %w'' e)
      | Inr sg \<Rightarrow> Inr (msg, sg)))"

lemma identity_NewSigner_InrD:
  "identity_NewSigner priv addr = Inr s \<Longrightarrow> privateKey s = priv \<and> signer_address s = addr"
  by (auto simp: identity_NewSigner_def split: sum.splits)

lemma SignMessage_verifies:
  assumes "ed_correct ed priv" "identity_NewSigner priv addr = Inr s"
  shows "\<exists>sg. SignMessage sha ed s msg = Inr \<lparr>sig_Signature = sg, SignerAddress = addr\<rparr>
    \<and> ed25519_Verify ed (publicKey s) (sha msg) sg = Inr True"
  using assms
  by (auto simp: SignMessage_def identity_Sign_def ed25519_Sign_def ed25519_Verify_def ed_correct_def
      identity_NewSigner_def PrivateKey_Public_def split: sum.splits if_splits)

end
