(* ===== verification/Id_Store.thy ===== *)
theory Id_Store
  imports Id_Chain "HOL-Library.Char_ord" "HOL-Library.List_Lexorder" "HOL-Library.Multiset"
begin

text \<open>
  The identity store (\<open>identity/store/store.go\<close>, \<open>sqlstore.go\<close>) over the statements of
  \<open>identity/store/queries/query.sql\<close> as \<open>gen/go/sqlc/query.sql.go\<close> sends them, on a table with
  the constraints of \<open>migrations\<close>. Times are nanoseconds; the clock that \<open>NOW()\<close> reads is
  part of the database. A statement without a matching row changes nothing and reports no
  error. Several rows can have one address, and a lookup by address has no \<open>ORDER BY\<close>: which of
  them it returns is up to the database, an arbitrary function \<open>db_pick\<close> of the table. JSON is the
  pair of functions \<open>json_codec\<close>. The locale \<open>identity_store\<close> states what the verifier and the services
  rely on: what is stored for each address as a set, and that a lookup returns a member of it.
\<close>

section \<open>Identities\<close>

text \<open>The protobuf message \<open>Identity\<close>; a time that is not set is \<open>None\<close>.\<close>

record identity =
  PublicKey :: bytes
  ServerAddress :: string
  ServerName :: string
  OwnerName :: string
  Capabilities :: "string list"
  CreatedAt :: "int option"
  IsTrusted :: bool
  TrustUpdatedAt :: "int option"

section \<open>The table and its statements\<close>

record ztg_identity =
  row_ID :: "32 word"
  row_PublicKey :: bytes
  row_ServerAddress :: string
  row_ServerName :: string
  row_OwnerName :: string
  row_Capabilities :: string
  row_CreatedAt :: int
  row_LastSeen :: int
  row_IsTrusted :: bool
  row_TrustUpdatedAt :: int

record database =
  db_rows :: "ztg_identity list"
  db_pick :: "ztg_identity list \<Rightarrow> string \<Rightarrow> nat"
  db_next_id :: "32 word"
  db_now :: int
  db_up :: bool

record insert_params =
  par_PublicKey :: bytes
  par_ServerAddress :: string
  par_ServerName :: string
  par_OwnerName :: string
  par_Capabilities :: string
  par_IsTrusted :: bool

text \<open>
  A nil slice is sent as \<open>NULL\<close>, and protobuf decodes an empty key to nil. A refused row has
  consumed its serial number.
\<close>

definition sqlc_InsertIdentity :: "database \<Rightarrow> insert_params \<Rightarrow> ztg_identity res \<times> database" where
  "sqlc_InsertIdentity db arg =
     (if \<not> db_up db then (Inl (Errorf ''connection lost''), db)
      else if par_PublicKey arg = []
      then (Inl (Errorf ''null value violates not-null constraint''), db\<lparr>db_next_id := db_next_id db + 1\<rparr>)
      else if list_ex (\<lambda>r. row_PublicKey r = par_PublicKey arg) (db_rows db)
      then (Inl (Errorf ''duplicate key value violates unique constraint''), db\<lparr>db_next_id := db_next_id db + 1\<rparr>)
      else if list_ex (\<lambda>r. row_ServerName r = par_ServerName arg) (db_rows db)
      then (Inl (Errorf ''duplicate key value violates unique constraint''), db\<lparr>db_next_id := db_next_id db + 1\<rparr>)
      else
        let row = \<lparr>row_ID = db_next_id db, row_PublicKey = par_PublicKey arg,
                   row_ServerAddress = par_ServerAddress arg, row_ServerName = par_ServerName arg,
                   row_OwnerName = par_OwnerName arg, row_Capabilities = par_Capabilities arg,
                   row_CreatedAt = db_now db, row_LastSeen = db_now db,
                   row_IsTrusted = par_IsTrusted arg, row_TrustUpdatedAt = db_now db\<rparr>
        in (Inr row, db\<lparr>db_rows := db_rows db @ [row], db_next_id := db_next_id db + 1\<rparr>))"

text \<open>\<open>WHERE server_address = $1 LIMIT 1\<close>: some row with that address, if there is one.\<close>

definition rows_at :: "database \<Rightarrow> string \<Rightarrow> ztg_identity list" where
  "rows_at db addr = filter (\<lambda>r. row_ServerAddress r = addr) (db_rows db)"

definition limit_1 :: "database \<Rightarrow> string \<Rightarrow> ztg_identity option" where
  "limit_1 db addr =
     (let rs = rows_at db addr in
      if rs = [] then None else Some (rs ! (db_pick db (db_rows db) addr mod length rs)))"

text \<open>\<open>Inl None\<close> stands for \<open>sql.ErrNoRows\<close>.\<close>

definition sqlc_GetIdentityByAddress :: "database \<Rightarrow> string \<Rightarrow> go_error option + ztg_identity" where
  "sqlc_GetIdentityByAddress db addr =
     (if \<not> db_up db then Inl (Some (Errorf ''connection lost''))
      else case limit_1 db addr of
             None \<Rightarrow> Inl None
           | Some r \<Rightarrow> Inr r)"

definition sqlc_UpdateLastSeen :: "database \<Rightarrow> string \<Rightarrow> go_error option \<times> database" where
  "sqlc_UpdateLastSeen db addr =
     (if \<not> db_up db then (Some (Errorf ''connection lost''), db)
      else (None, db\<lparr>db_rows := map (\<lambda>r. if row_ServerAddress r = addr
                                         then r\<lparr>row_LastSeen := db_now db\<rparr> else r) (db_rows db)\<rparr>))"

definition sqlc_SetTrustStatus :: "database \<Rightarrow> string \<Rightarrow> bool \<Rightarrow> go_error option \<times> database" where
  "sqlc_SetTrustStatus db addr trusted =
     (if \<not> db_up db then (Some (Errorf ''connection lost''), db)
      else (None, db\<lparr>db_rows := map (\<lambda>r. if row_ServerAddress r = addr
                                         then r\<lparr>row_IsTrusted := trusted, row_TrustUpdatedAt := db_now db\<rparr>
                                         else r) (db_rows db)\<rparr>))"

text \<open>\<open>ORDER BY created_at DESC\<close>, rows of one time in any order; here in the order of the list.\<close>

definition sqlc_ListIdentities :: "database \<Rightarrow> ztg_identity list res" where
  "sqlc_ListIdentities db =
     (if \<not> db_up db then Inl (Errorf ''connection lost'')
      else Inr (sort_key (\<lambda>r. - row_CreatedAt r) (db_rows db)))"

text \<open>Three statements that the store does not use; the first cannot be prepared, since \<open>EXCLUDED\<close>
  only exists in an \<open>ON CONFLICT\<close> clause.\<close>

definition sqlc_CountIdentities :: "database \<Rightarrow> bool \<Rightarrow> int res" where
  "sqlc_CountIdentities db trusted =
     (if \<not> db_up db then Inl (Errorf ''connection lost'')
      else Inl (Errorf ''missing FROM-clause entry for table excluded''))"

definition sqlc_DeleteIdentity :: "database \<Rightarrow> bytes \<Rightarrow> go_error option \<times> database" where
  "sqlc_DeleteIdentity db key =
     (if \<not> db_up db then (Some (Errorf ''connection lost''), db)
      else (None, db\<lparr>db_rows := filter (\<lambda>r. row_PublicKey r \<noteq> key) (db_rows db)\<rparr>))"

definition sqlc_GetIdentityByKey :: "database \<Rightarrow> bytes \<Rightarrow> go_error option + ztg_identity" where
  "sqlc_GetIdentityByKey db key =
     (if \<not> db_up db then Inl (Some (Errorf ''connection lost''))
      else case find (\<lambda>r. row_PublicKey r = key) (db_rows db) of
             None \<Rightarrow> Inl None
           | Some r \<Rightarrow> Inr r)"

section \<open>SQLStore\<close>

record json_codec =
  json_Marshal :: "string list \<Rightarrow> string res"
  json_Unmarshal :: "string \<Rightarrow> string list res"

text \<open>\<open>encoding/json\<close> on string slices: no failure, and decoding undoes encoding.\<close>

definition json_ok :: "json_codec \<Rightarrow> bool" where
  "json_ok j \<longleftrightarrow> (\<forall>cs. \<exists>t. json_Marshal j cs = Inr t \<and> t \<noteq> '''' \<and> json_Unmarshal j t = Inr cs)"

definition SQLStore_InsertIdentity :: "json_codec \<Rightarrow> database \<Rightarrow> identity \<Rightarrow> go_error option \<times> database" where
  "SQLStore_InsertIdentity j db i =
     (case json_Marshal j (Capabilities i) of
        Inl e \<Rightarrow> (Some (wrapf ''failed to marshal capabilities: %w'' e), db)
      | Inr capJSON \<Rightarrow>
     (case sqlc_InsertIdentity db
             \<lparr>par_PublicKey = PublicKey i, par_ServerAddress = ServerAddress i, par_ServerName = ServerName i,
              par_OwnerName = OwnerName i, par_Capabilities = capJSON, par_IsTrusted = IsTrusted i\<rparr> of
        (Inl e, db') \<Rightarrow> (Some (wrapf ''failed to insert identity: %w'' e), db')
      | (Inr row, db') \<Rightarrow> (None, db')))"

definition rowToIdentity :: "json_codec \<Rightarrow> ztg_identity \<Rightarrow> identity res" where
  "rowToIdentity j row =
     (let i = \<lparr>PublicKey = row_PublicKey row, ServerAddress = row_ServerAddress row,
               ServerName = row_ServerName row, OwnerName = row_OwnerName row, Capabilities = [],
               CreatedAt = Some (row_CreatedAt row), IsTrusted = row_IsTrusted row,
               TrustUpdatedAt = Some (row_TrustUpdatedAt row)\<rparr>
      in if row_Capabilities row \<noteq> '''' then
           (case json_Unmarshal j (row_Capabilities row) of
              Inl e \<Rightarrow> Inl (wrapf ''failed to unmarshal capabilities: %w'' e)
            | Inr capabilities \<Rightarrow> Inr (i\<lparr>Capabilities := capabilities\<rparr>))
         else Inr i)"

definition SQLStore_GetIdentityByAddress :: "json_codec \<Rightarrow> database \<Rightarrow> string \<Rightarrow> identity res" where
  "SQLStore_GetIdentityByAddress j db addr =
     (case sqlc_GetIdentityByAddress db addr of
        Inl None \<Rightarrow> Inl (Errorf ''identity not found'')
      | Inl (Some e) \<Rightarrow> Inl (wrapf ''failed to get identity by address: %w'' e)
      | Inr row \<Rightarrow> rowToIdentity j row)"

text \<open>The time argument of \<open>UpdateLastSeen\<close> and \<open>SetTrustStatus\<close> is not used by the code.\<close>

definition SQLStore_UpdateLastSeen :: "database \<Rightarrow> string \<Rightarrow> int \<Rightarrow> go_error option \<times> database" where
  "SQLStore_UpdateLastSeen db addr lastSeen =
     (case sqlc_UpdateLastSeen db addr of
        (Some e, db') \<Rightarrow> (Some (wrapf ''failed to update last seen: %w'' e), db')
      | (None, db') \<Rightarrow> (None, db'))"

definition SQLStore_SetTrustStatus :: "database \<Rightarrow> string \<Rightarrow> bool \<Rightarrow> int \<Rightarrow> go_error option \<times> database" where
  "SQLStore_SetTrustStatus db addr trusted updatedAt =
     (case sqlc_SetTrustStatus db addr trusted of
        (Some e, db') \<Rightarrow> (Some (wrapf ''failed to set trust status: %w'' e), db')
      | (None, db') \<Rightarrow> (None, db'))"

fun convert_rows :: "json_codec \<Rightarrow> ztg_identity list \<Rightarrow> identity list res" where
  "convert_rows j [] = Inr []"
| "convert_rows j (r # rs) =
     (case rowToIdentity j r of
        Inl e \<Rightarrow> Inl (wrapf ''failed to convert row to identity: %w'' e)
      | Inr i \<Rightarrow> (case convert_rows j rs of Inl e \<Rightarrow> Inl e | Inr is \<Rightarrow> Inr (i # is)))"

definition SQLStore_ListIdentities :: "json_codec \<Rightarrow> database \<Rightarrow> identity list res" where
  "SQLStore_ListIdentities j db =
     (case sqlc_ListIdentities db of
        Inl e \<Rightarrow> Inl (wrapf ''failed to list identities: %w'' e)
      | Inr rows \<Rightarrow> convert_rows j rows)"

section \<open>The interface\<close>

record 'd store_ops =
  InsertIdentity :: "'d \<Rightarrow> identity \<Rightarrow> go_error option \<times> 'd"
  GetIdentityByAddress :: "'d \<Rightarrow> string \<Rightarrow> identity res"
  UpdateLastSeen :: "'d \<Rightarrow> string \<Rightarrow> int \<Rightarrow> go_error option \<times> 'd"
  ListIdentities :: "'d \<Rightarrow> identity list res"
  SetTrustStatus :: "'d \<Rightarrow> string \<Rightarrow> bool \<Rightarrow> int \<Rightarrow> go_error option \<times> 'd"

definition SQLStore :: "json_codec \<Rightarrow> database store_ops" where
  "SQLStore j =
     \<lparr>InsertIdentity = SQLStore_InsertIdentity j, GetIdentityByAddress = SQLStore_GetIdentityByAddress j,
      UpdateLastSeen = SQLStore_UpdateLastSeen, ListIdentities = SQLStore_ListIdentities j,
      SetTrustStatus = SQLStore_SetTrustStatus\<rparr>"

text \<open>What a store says about an address: a key and whether it is trusted.\<close>

definition known :: "'d store_ops \<Rightarrow> 'd \<Rightarrow> string \<Rightarrow> (bytes \<times> bool) option" where
  "known S d a =
     (case GetIdentityByAddress S d a of Inl e \<Rightarrow> None | Inr i \<Rightarrow> Some (PublicKey i, IsTrusted i))"

datatype store_op =
    Op_Insert identity
  | Op_Seen string int
  | Op_Trust string bool int

definition run_op :: "'d store_ops \<Rightarrow> 'd \<Rightarrow> store_op \<Rightarrow> go_error option \<times> 'd" where
  "run_op S d op =
     (case op of
        Op_Insert i \<Rightarrow> InsertIdentity S d i
      | Op_Seen a t \<Rightarrow> UpdateLastSeen S d a t
      | Op_Trust a b t \<Rightarrow> SetTrustStatus S d a b t)"

definition run_ops :: "'d store_ops \<Rightarrow> 'd \<Rightarrow> store_op list \<Rightarrow> 'd" where
  "run_ops S d ops = foldl (\<lambda>d op. snd (run_op S d op)) d ops"

text \<open>The trust that a list of calls leaves an address with.\<close>

fun last_trust :: "string \<Rightarrow> bool \<Rightarrow> store_op list \<Rightarrow> bool" where
  "last_trust a b [] = b"
| "last_trust a b (Op_Trust a' b' t # ops) = last_trust a (if a' = a then b' else b) ops"
| "last_trust a b (_ # ops) = last_trust a b ops"

fun inserts_at :: "string \<Rightarrow> store_op list \<Rightarrow> bool" where
  "inserts_at a [] = False"
| "inserts_at a (Op_Insert i # ops) = (ServerAddress i = a \<or> inserts_at a ops)"
| "inserts_at a (_ # ops) = inserts_at a ops"

text \<open>\<open>stored d a\<close> is the set of what is stored for the address \<open>a\<close>, with the trust of each key.\<close>

locale identity_store =
  fixes S :: "'d store_ops" and sinv :: "'d \<Rightarrow> bool" and up :: "'d \<Rightarrow> bool"
    and stored :: "'d \<Rightarrow> string \<Rightarrow> (bytes \<times> bool) set"
  assumes run_op_inv: "sinv d \<Longrightarrow> sinv (snd (run_op S d op)) \<and> up (snd (run_op S d op)) = up d"
    and get_address: "sinv d \<Longrightarrow> GetIdentityByAddress S d a = Inr i \<Longrightarrow> ServerAddress i = a"
    and known_stored: "sinv d \<Longrightarrow> up d \<Longrightarrow> known S d a = Some x \<Longrightarrow> x \<in> stored d a"
    and unknown_iff: "sinv d \<Longrightarrow> up d \<Longrightarrow> known S d a = None \<longleftrightarrow> stored d a = {}"
    and insert_stored: "sinv d \<Longrightarrow> up d \<Longrightarrow> InsertIdentity S d i = (e, d') \<Longrightarrow>
      stored d' a = (if e = None \<and> a = ServerAddress i then insert (PublicKey i, IsTrusted i) (stored d a) else stored d a)"
    and seen_stored: "sinv d \<Longrightarrow> up d \<Longrightarrow> stored (snd (UpdateLastSeen S d a' t)) a = stored d a"
    and trust_stored: "sinv d \<Longrightarrow> up d \<Longrightarrow> stored (snd (SetTrustStatus S d a' b t)) a =
      (if a = a' then (\<lambda>(k, _). (k, b)) ` stored d a else stored d a)"
    and trust_ok: "up d \<Longrightarrow> fst (SetTrustStatus S d a' b t) = None"
begin

text \<open>The only entry of an address is the one that is served.\<close>

lemma sole_known: "sinv d \<Longrightarrow> up d \<Longrightarrow> stored d a = {x} \<Longrightarrow> known S d a = Some x"
  using known_stored [of d a] unknown_iff [of d a] by (cases "known S d a") auto

lemma insert_known:
  assumes "sinv d" "up d" "InsertIdentity S d i = (None, d')" "known S d (ServerAddress i) = None"
  shows "stored d' (ServerAddress i) = {(PublicKey i, IsTrusted i)}"
    and "known S d' (ServerAddress i) = Some (PublicKey i, IsTrusted i)"
proof -
  show s: "stored d' (ServerAddress i) = {(PublicKey i, IsTrusted i)}"
    using insert_stored [OF assms(1-3)] unknown_iff [OF assms(1,2)] assms(4) by simp
  from run_op_inv [OF assms(1), of "Op_Insert i"] assms(2,3) have "sinv d'" "up d'" by (simp_all add: run_op_def)
  with s show "known S d' (ServerAddress i) = Some (PublicKey i, IsTrusted i)" by (simp add: sole_known)
qed

lemma run_op_stored:
  assumes "sinv d" "up d"
  shows "fst ` stored d a \<subseteq> fst ` stored (snd (run_op S d op)) a"
    and "\<not> inserts_at a [op] \<Longrightarrow> stored d a = {(k, b)} \<Longrightarrow> stored (snd (run_op S d op)) a = {(k, last_trust a b [op])}"
proof -
  have "fst ` stored d a \<subseteq> fst ` stored (snd (run_op S d op)) a
    \<and> (\<not> inserts_at a [op] \<longrightarrow> stored d a = {(k, b)} \<longrightarrow> stored (snd (run_op S d op)) a = {(k, last_trust a b [op])})"
  proof (cases op)
    case (Op_Insert i)
    with insert_stored [OF assms, of i _ _ a] show ?thesis
      by (cases "InsertIdentity S d i") (auto simp: run_op_def)
  next
    case (Op_Seen a' t)
    with seen_stored [OF assms] show ?thesis by (simp add: run_op_def)
  next
    case (Op_Trust a' b' t)
    with trust_stored [OF assms] show ?thesis by (force simp: run_op_def)
  qed
  then show "fst ` stored d a \<subseteq> fst ` stored (snd (run_op S d op)) a"
    and "\<not> inserts_at a [op] \<Longrightarrow> stored d a = {(k, b)} \<Longrightarrow> stored (snd (run_op S d op)) a = {(k, last_trust a b [op])}"
    by simp_all
qed

lemma last_trust_Cons: "last_trust a b (op # ops) = last_trust a (last_trust a b [op]) ops"
  by (cases op) simp_all

lemma inserts_at_Cons: "inserts_at a (op # ops) \<longleftrightarrow> inserts_at a [op] \<or> inserts_at a ops"
  by (cases op) simp_all

lemma run_ops_Cons: "run_ops S d (op # ops) = run_ops S (snd (run_op S d op)) ops"
  by (simp add: run_ops_def)

text \<open>A stored key stays, and the trust of an only key changes only by \<open>SetTrustStatus\<close>.\<close>

lemma run_ops_stored:
  "sinv d \<Longrightarrow> up d \<Longrightarrow> sinv (run_ops S d ops) \<and> up (run_ops S d ops) \<and> fst ` stored d a \<subseteq> fst ` stored (run_ops S d ops) a"
proof (induction ops arbitrary: d)
  case (Cons op ops)
  with run_op_inv [of d op] run_op_stored(1) [of d a op] show ?case
    by (simp add: run_ops_Cons) (meson order_trans)
qed (simp add: run_ops_def)

lemma sole_key_kept:
  "sinv d \<Longrightarrow> up d \<Longrightarrow> \<not> inserts_at a ops \<Longrightarrow> stored d a = {(k, b)}
    \<Longrightarrow> stored (run_ops S d ops) a = {(k, last_trust a b ops)}"
proof (induction ops arbitrary: d b)
  case (Cons op ops)
  then show ?case
    using run_op_inv [of d op] run_op_stored(2) [of d a op k b]
    by (simp add: run_ops_Cons last_trust_Cons [of a b op ops] inserts_at_Cons [of a op ops])
qed (simp add: run_ops_def)

end

section \<open>The SQL store provides it\<close>

definition sql_inv :: "json_codec \<Rightarrow> database \<Rightarrow> bool" where
  "sql_inv j db \<longleftrightarrow>
     distinct (map row_PublicKey (db_rows db)) \<and> distinct (map row_ServerName (db_rows db))
     \<and> list_all (\<lambda>r. row_PublicKey r \<noteq> [] \<and> row_Capabilities r \<noteq> ''''
         \<and> (\<exists>cs. json_Unmarshal j (row_Capabilities r) = Inr cs)) (db_rows db)"

lemma rowToIdentity_InrD:
  "rowToIdentity j row = Inr i \<Longrightarrow> PublicKey i = row_PublicKey row \<and> ServerAddress i = row_ServerAddress row
     \<and> IsTrusted i = row_IsTrusted row \<and> ServerName i = row_ServerName row \<and> OwnerName i = row_OwnerName row"
  by (auto simp: rowToIdentity_def Let_def split: sum.splits if_splits)

lemma rowToIdentity_ok:
  "json_Unmarshal j (row_Capabilities row) = Inr cs \<Longrightarrow> row_Capabilities row \<noteq> '''' \<Longrightarrow>
     rowToIdentity j row = Inr \<lparr>PublicKey = row_PublicKey row, ServerAddress = row_ServerAddress row,
               ServerName = row_ServerName row, OwnerName = row_OwnerName row, Capabilities = cs,
               CreatedAt = Some (row_CreatedAt row), IsTrusted = row_IsTrusted row,
               TrustUpdatedAt = Some (row_TrustUpdatedAt row)\<rparr>"
  by (simp add: rowToIdentity_def Let_def)

definition db_stored :: "database \<Rightarrow> string \<Rightarrow> (bytes \<times> bool) set" where
  "db_stored db a = (\<lambda>r. (row_PublicKey r, row_IsTrusted r)) ` set (rows_at db a)"

lemma limit_1_None_iff: "limit_1 db a = None \<longleftrightarrow> rows_at db a = []"
  by (simp add: limit_1_def Let_def)

lemma limit_1_SomeD:
  assumes "limit_1 db a = Some r"
  shows "r \<in> set (rows_at db a)" "r \<in> set (db_rows db)" "row_ServerAddress r = a"
proof -
  from assms show "r \<in> set (rows_at db a)" by (auto simp: limit_1_def Let_def split: if_splits)
  then show "r \<in> set (db_rows db)" "row_ServerAddress r = a" by (simp_all add: rows_at_def)
qed

lemma limit_1_sole: "rows_at db a = [r] \<Longrightarrow> limit_1 db a = Some r"
  by (simp add: limit_1_def)

lemma known_SQLStore:
  assumes "sql_inv j db" "db_up db"
  shows "known (SQLStore j) db a = map_option (\<lambda>r. (row_PublicKey r, row_IsTrusted r)) (limit_1 db a)"
proof (cases "limit_1 db a")
  case None
  with assms show ?thesis
    by (simp add: known_def SQLStore_def SQLStore_GetIdentityByAddress_def sqlc_GetIdentityByAddress_def)
next
  case (Some r)
  then have "r \<in> set (db_rows db)" by (rule limit_1_SomeD)
  with assms(1) obtain cs where "json_Unmarshal j (row_Capabilities r) = Inr cs" "row_Capabilities r \<noteq> ''''"
    by (auto simp: sql_inv_def list_all_iff)
  with Some assms(2) show ?thesis
    by (simp add: known_def SQLStore_def SQLStore_GetIdentityByAddress_def sqlc_GetIdentityByAddress_def
        rowToIdentity_ok)
qed

text \<open>Every row of an address may be the one that is returned.\<close>

lemma picked_keys:
  assumes "sql_inv j db" "db_up db"
  shows "{x. \<exists>p. known (SQLStore j) (db\<lparr>db_pick := p\<rparr>) a = Some x} = db_stored db a"
proof -
  have inv: "sql_inv j (db\<lparr>db_pick := p\<rparr>)" "db_up (db\<lparr>db_pick := p\<rparr>)" for p
    using assms by (simp_all add: sql_inv_def)
  have rows: "rows_at (db\<lparr>db_pick := p\<rparr>) a = rows_at db a" for p by (simp add: rows_at_def)
  have "\<exists>p. limit_1 (db\<lparr>db_pick := p\<rparr>) a = Some r" if "r \<in> set (rows_at db a)" for r
  proof -
    from that obtain n where "n < length (rows_at db a)" "rows_at db a ! n = r" by (auto simp: in_set_conv_nth)
    then show ?thesis by (intro exI [of _ "\<lambda>_ _. n"]) (auto simp: limit_1_def rows Let_def)
  qed
  moreover have "r \<in> set (rows_at db a)" if "limit_1 (db\<lparr>db_pick := p\<rparr>) a = Some r" for r p
    using limit_1_SomeD(1) [OF that] by (simp add: rows)
  ultimately show ?thesis unfolding known_SQLStore [OF inv] db_stored_def by fastforce
qed

lemma sqlc_insert_cases:
  assumes "sqlc_InsertIdentity db arg = (r, db')"
  shows "(\<exists>e. r = Inl e) \<and> db_rows db' = db_rows db \<and> db_up db' = db_up db
    \<or> (\<exists>row. r = Inr row \<and> db_rows db' = db_rows db @ [row] \<and> db_up db' = db_up db
        \<and> row_PublicKey row = par_PublicKey arg \<and> row_ServerAddress row = par_ServerAddress arg
        \<and> row_ServerName row = par_ServerName arg \<and> row_OwnerName row = par_OwnerName arg
        \<and> row_Capabilities row = par_Capabilities arg \<and> row_IsTrusted row = par_IsTrusted arg
        \<and> row_CreatedAt row = db_now db \<and> row_TrustUpdatedAt row = db_now db
        \<and> par_PublicKey arg \<noteq> [] \<and> par_PublicKey arg \<notin> row_PublicKey ` set (db_rows db)
        \<and> par_ServerName arg \<notin> row_ServerName ` set (db_rows db))"
  using assms by (auto simp: sqlc_InsertIdentity_def Let_def list_ex_iff split: if_splits) blast+

lemma SQLStore_insert_cases:
  assumes "json_ok j" "SQLStore_InsertIdentity j db i = (e, db')"
  shows "(e \<noteq> None \<and> db_rows db' = db_rows db \<and> db_up db' = db_up db)
    \<or> (\<exists>row t. e = None \<and> db_rows db' = db_rows db @ [row] \<and> db_up db' = db_up db
        \<and> row_PublicKey row = PublicKey i \<and> row_ServerAddress row = ServerAddress i
        \<and> row_ServerName row = ServerName i \<and> row_OwnerName row = OwnerName i \<and> row_IsTrusted row = IsTrusted i
        \<and> row_CreatedAt row = db_now db \<and> row_TrustUpdatedAt row = db_now db
        \<and> row_Capabilities row = t \<and> t \<noteq> '''' \<and> json_Unmarshal j t = Inr (Capabilities i)
        \<and> PublicKey i \<noteq> [] \<and> PublicKey i \<notin> row_PublicKey ` set (db_rows db)
        \<and> ServerName i \<notin> row_ServerName ` set (db_rows db))"
proof -
  from assms(1) obtain t where t: "json_Marshal j (Capabilities i) = Inr t" "t \<noteq> ''''"
    "json_Unmarshal j t = Inr (Capabilities i)" unfolding json_ok_def by blast
  let ?arg = "\<lparr>par_PublicKey = PublicKey i, par_ServerAddress = ServerAddress i, par_ServerName = ServerName i,
              par_OwnerName = OwnerName i, par_Capabilities = t, par_IsTrusted = IsTrusted i\<rparr>"
  obtain r d where r: "sqlc_InsertIdentity db ?arg = (r, d)" by fastforce
  show ?thesis
  proof (cases r)
    case (Inl x)
    with sqlc_insert_cases [OF r] r t(1) assms(2) show ?thesis
      by (auto simp: SQLStore_InsertIdentity_def)
  next
    case (Inr row)
    with sqlc_insert_cases [OF r] r t assms(2) show ?thesis
      by (simp add: SQLStore_InsertIdentity_def)
  qed
qed

lemma SQLStore_sel [simp]:
  "InsertIdentity (SQLStore j) = SQLStore_InsertIdentity j"
  "GetIdentityByAddress (SQLStore j) = SQLStore_GetIdentityByAddress j"
  "UpdateLastSeen (SQLStore j) = SQLStore_UpdateLastSeen"
  "ListIdentities (SQLStore j) = SQLStore_ListIdentities j"
  "SetTrustStatus (SQLStore j) = SQLStore_SetTrustStatus"
  by (simp_all add: SQLStore_def)

lemma SQLStore_updates:
  "db_up db \<Longrightarrow> SQLStore_UpdateLastSeen db a t = (None, db\<lparr>db_rows := map (\<lambda>r. if row_ServerAddress r = a
                                         then r\<lparr>row_LastSeen := db_now db\<rparr> else r) (db_rows db)\<rparr>)"
  "db_up db \<Longrightarrow> SQLStore_SetTrustStatus db a b t = (None, db\<lparr>db_rows := map (\<lambda>r. if row_ServerAddress r = a
                                         then r\<lparr>row_IsTrusted := b, row_TrustUpdatedAt := db_now db\<rparr>
                                         else r) (db_rows db)\<rparr>)"
  "\<not> db_up db \<Longrightarrow> snd (SQLStore_UpdateLastSeen db a t) = db"
  "\<not> db_up db \<Longrightarrow> snd (SQLStore_SetTrustStatus db a b t) = db"
  by (simp_all add: SQLStore_UpdateLastSeen_def SQLStore_SetTrustStatus_def
      sqlc_UpdateLastSeen_def sqlc_SetTrustStatus_def)

lemma SQLStore_insert_inv:
  assumes "json_ok j" "sql_inv j db" "SQLStore_InsertIdentity j db i = (e, db')"
  shows "sql_inv j db' \<and> db_up db' = db_up db"
  using SQLStore_insert_cases [OF assms(1,3)] assms(2)
  by (elim disjE exE conjE) (auto simp: sql_inv_def)

lemma SQLStore_insert_stored:
  assumes "json_ok j" "SQLStore_InsertIdentity j db i = (e, db')"
  shows "db_stored db' a = (if e = None \<and> a = ServerAddress i then insert (PublicKey i, IsTrusted i) (db_stored db a)
    else db_stored db a)"
proof (cases e)
  case None
  with SQLStore_insert_cases [OF assms] show ?thesis
    by (elim disjE exE conjE) (simp_all add: db_stored_def rows_at_def)
next
  case (Some x)
  with SQLStore_insert_cases [OF assms] show ?thesis by (auto simp: db_stored_def rows_at_def)
qed

lemma db_stored_map:
  assumes "\<And>r. row_ServerAddress (f r) = row_ServerAddress r"
  shows "db_stored (db\<lparr>db_rows := map f (db_rows db)\<rparr>) a
    = (\<lambda>r. (row_PublicKey (f r), row_IsTrusted (f r))) ` set (rows_at db a)"
  using assms by (force simp: db_stored_def rows_at_def)

lemma SQLStore_get_address: "SQLStore_GetIdentityByAddress j db a = Inr i \<Longrightarrow> ServerAddress i = a"
  by (auto simp: SQLStore_GetIdentityByAddress_def sqlc_GetIdentityByAddress_def
      split: sum.splits option.splits if_splits dest: rowToIdentity_InrD limit_1_SomeD(3))

lemma SQLStore_trust_inv: "sql_inv j db \<Longrightarrow> sql_inv j (snd (SQLStore_SetTrustStatus db a b t))"
  by (cases "db_up db")
    (auto simp: SQLStore_updates sql_inv_def list_all_iff comp_def if_distrib cong: if_cong)

lemma SQLStore_seen_inv: "sql_inv j db \<Longrightarrow> sql_inv j (snd (SQLStore_UpdateLastSeen db a t))"
  by (cases "db_up db")
    (auto simp: SQLStore_updates sql_inv_def list_all_iff comp_def if_distrib cong: if_cong)

lemma SQLStore_identity_store:
  assumes "json_ok j"
  shows "identity_store (SQLStore j) (sql_inv j) db_up db_stored"
proof unfold_locales
  fix d op
  assume d: "sql_inv j d"
  show "sql_inv j (snd (run_op (SQLStore j) d op)) \<and> db_up (snd (run_op (SQLStore j) d op)) = db_up d"
  proof (cases op)
    case (Op_Insert i)
    with SQLStore_insert_inv [OF assms d] show ?thesis
      by (cases "SQLStore_InsertIdentity j d i") (simp add: run_op_def)
  next
    case (Op_Seen a t)
    with SQLStore_seen_inv [OF d] show ?thesis
      by (cases "db_up d") (simp_all add: run_op_def SQLStore_updates)
  next
    case (Op_Trust a b t)
    with SQLStore_trust_inv [OF d] show ?thesis
      by (cases "db_up d") (simp_all add: run_op_def SQLStore_updates)
  qed
next
  fix d a i
  assume "GetIdentityByAddress (SQLStore j) d a = Inr i"
  then show "ServerAddress i = a" by (simp add: SQLStore_get_address)
next
  fix d a x
  assume "sql_inv j d" "db_up d" "known (SQLStore j) d a = Some x"
  then show "x \<in> db_stored d a" by (auto simp: known_SQLStore db_stored_def dest: limit_1_SomeD)
next
  fix d a
  assume "sql_inv j d" "db_up d"
  then show "known (SQLStore j) d a = None \<longleftrightarrow> db_stored d a = {}"
    by (simp add: known_SQLStore limit_1_None_iff db_stored_def)
next
  fix d i e d' a
  assume "InsertIdentity (SQLStore j) d i = (e, d')"
  with SQLStore_insert_stored [OF assms] show "db_stored d' a =
    (if e = None \<and> a = ServerAddress i then insert (PublicKey i, IsTrusted i) (db_stored d a) else db_stored d a)" by simp
next
  fix d a a' t
  assume d: "sql_inv j d" "db_up d"
  let ?f = "\<lambda>r. if row_ServerAddress r = a' then r\<lparr>row_LastSeen := db_now d\<rparr> else r"
  have "(\<lambda>r. (row_PublicKey (?f r), row_IsTrusted (?f r))) ` set (rows_at d a) = db_stored d a"
    unfolding db_stored_def by (rule image_cong) simp_all
  moreover have "row_ServerAddress (?f r) = row_ServerAddress r" for r by simp
  note db_stored_map [of ?f, OF this, of d a]
  ultimately have "db_stored (d\<lparr>db_rows := map ?f (db_rows d)\<rparr>) a = db_stored d a" by (rule trans [rotated])
  with d show "db_stored (snd (UpdateLastSeen (SQLStore j) d a' t)) a = db_stored d a" by (simp add: SQLStore_updates)
next
  fix d a a' b t
  assume d: "sql_inv j d" "db_up d"
  let ?f = "\<lambda>r. if row_ServerAddress r = a' then r\<lparr>row_IsTrusted := b, row_TrustUpdatedAt := db_now d\<rparr> else r"
  have "(\<lambda>r. (row_PublicKey (?f r), row_IsTrusted (?f r))) ` set (rows_at d a)
      = (\<lambda>r. (row_PublicKey r, if a = a' then b else row_IsTrusted r)) ` set (rows_at d a)"
    by (rule image_cong) (auto simp: rows_at_def)
  moreover have "row_ServerAddress (?f r) = row_ServerAddress r" for r by simp
  note db_stored_map [of ?f, OF this, of d a]
  ultimately have "db_stored (d\<lparr>db_rows := map ?f (db_rows d)\<rparr>) a
      = (\<lambda>r. (row_PublicKey r, if a = a' then b else row_IsTrusted r)) ` set (rows_at d a)" by (rule trans [rotated])
  with d show "db_stored (snd (SetTrustStatus (SQLStore j) d a' b t)) a =
      (if a = a' then (\<lambda>(k, _). (k, b)) ` db_stored d a else db_stored d a)"
    by (simp add: SQLStore_updates) (simp add: db_stored_def image_image)
next
  fix d :: database and a' b t
  assume "db_up d"
  then show "fst (SetTrustStatus (SQLStore j) d a' b t) = None" by (simp add: SQLStore_updates)
qed

text \<open>A codec for instances: every character is marked, a dash ends a string.\<close>

definition example_enc :: "string list \<Rightarrow> string" where
  "example_enc cs = CHR ''['' # concat (map (\<lambda>s. concat (map (\<lambda>c. [CHR ''+'', c]) s) @ ''-'') cs)"

fun example_dec :: "string \<Rightarrow> string \<Rightarrow> string list res" where
  "example_dec cur [] = (if cur = [] then Inr [] else Inl (Errorf ''unexpected end''))"
| "example_dec cur (c # t) =
     (if c = CHR ''-'' then (case example_dec [] t of Inl e \<Rightarrow> Inl e | Inr cs \<Rightarrow> Inr (cur # cs))
      else (case t of [] \<Rightarrow> Inl (Errorf ''unexpected end'') | d # t' \<Rightarrow> example_dec (cur @ [d]) t'))"

definition example_json :: json_codec where
  "example_json = \<lparr>json_Marshal = (\<lambda>cs. Inr (example_enc cs)), json_Unmarshal = (\<lambda>t. example_dec [] (tl t))\<rparr>"

lemma example_dec_string:
  "example_dec cur (concat (map (\<lambda>c. [CHR ''+'', c]) s) @ CHR ''-'' # t) =
     (case example_dec [] t of Inl e \<Rightarrow> Inl e | Inr cs \<Rightarrow> Inr ((cur @ s) # cs))"
  by (induction s arbitrary: cur) (simp_all split: sum.split)

lemma example_dec_enc: "example_dec [] (tl (example_enc cs)) = Inr cs"
  by (induction cs) (simp_all add: example_enc_def example_dec_string)

lemma json_ok_example [simp]: "json_ok example_json"
  by (simp add: json_ok_def example_json_def example_dec_enc) (simp add: example_enc_def)

interpretation sql: identity_store "SQLStore example_json" "sql_inv example_json" db_up db_stored
  by (rule SQLStore_identity_store) simp

section \<open>Properties of the store\<close>

text \<open>C28: a stored key stays, but need not be the one that is served. When one key is stored for an
  address, then whatever insertions, last-seen updates and trust updates follow, that key remains
  in the table. As long as no insertion names the address, it is the key that every lookup
  returns, with the trust that the last \<open>SetTrustStatus\<close> for the address said. Once insertions do,
  each of the keys stored for the address may be returned, depending on nothing but the
  database's choice: the column is not unique, and the lookup has no order.\<close>

theorem stored_key_stays:
  assumes "json_ok j" "sql_inv j db" "db_up db" "db_stored db a = {(k, b)}"
  shows "let db' = run_ops (SQLStore j) db ops in
      k \<in> fst ` db_stored db' a
    \<and> (\<not> inserts_at a ops \<longrightarrow> known (SQLStore j) db' a = Some (k, last_trust a b ops))
    \<and> {x. \<exists>p. known (SQLStore j) (db'\<lparr>db_pick := p\<rparr>) a = Some x} = db_stored db' a"
proof -
  note store = SQLStore_identity_store [OF assms(1)]
  let ?db' = "run_ops (SQLStore j) db ops"
  from identity_store.run_ops_stored [OF store assms(2,3), of ops a]
  have inv: "sql_inv j ?db'" "db_up ?db'" and k: "k \<in> fst ` db_stored ?db' a" unfolding assms(4) by auto
  have "known (SQLStore j) ?db' a = Some (k, last_trust a b ops)" if "\<not> inserts_at a ops"
    using identity_store.sole_known [OF store inv] identity_store.sole_key_kept [OF store assms(2,3) that assms(4)] .
  with k picked_keys [OF inv] show ?thesis by (simp add: Let_def)
qed

definition example_identity :: "byte \<Rightarrow> string \<Rightarrow> string \<Rightarrow> identity" where
  "example_identity b addr name =
     \<lparr>PublicKey = replicate 32 b, ServerAddress = addr, ServerName = name, OwnerName = ''owner'',
      Capabilities = [''game''], CreatedAt = None, IsTrusted = False, TrustUpdatedAt = None\<rparr>"

definition empty_db :: database where
  "empty_db = \<lparr>db_rows = [], db_pick = (\<lambda>_ _. 0), db_next_id = 1, db_now = 100, db_up = True\<rparr>"

lemma sql_inv_empty [simp]: "sql_inv j empty_db" "db_up empty_db"
  by (simp_all add: sql_inv_def empty_db_def)

text \<open>Mallory inserts a key for Alice's address: either key may now be returned.\<close>

theorem stored_key_stays_witness:
  "let S = SQLStore example_json;
       db = snd (InsertIdentity S empty_db (example_identity 1 ''alice:1'' ''alice''));
       db' = run_ops S db [Op_Insert (example_identity 2 ''alice:1'' ''mallory'')]
   in known S (run_ops S db [Op_Insert (example_identity 2 ''bob:1'' ''bob''), Op_Trust ''alice:1'' True 7]) ''alice:1''
        = Some (replicate 32 1, True)
    \<and> {x. \<exists>p. known S (db'\<lparr>db_pick := p\<rparr>) ''alice:1'' = Some x} = {(replicate 32 1, False), (replicate 32 2, False)}"
proof -
  let ?S = "SQLStore example_json"
  let ?db = "snd (InsertIdentity ?S empty_db (example_identity 1 ''alice:1'' ''alice''))"
  let ?calm = "[Op_Insert (example_identity 2 ''bob:1'' ''bob''), Op_Trust ''alice:1'' True 7]"
  let ?attack = "[Op_Insert (example_identity 2 ''alice:1'' ''mallory'')]"
  have inv: "sql_inv example_json ?db" "db_up ?db"
    using sql.run_op_inv [of empty_db "Op_Insert (example_identity 1 ''alice:1'' ''alice'')"]
    by (simp_all add: run_op_def)
  have "map (\<lambda>r. (row_PublicKey r, row_IsTrusted r)) (rows_at ?db ''alice:1'') = [(replicate 32 1, False)]" by code_simp
  from arg_cong [OF this, of set] have s: "db_stored ?db ''alice:1'' = {(replicate 32 1, False)}"
    unfolding db_stored_def set_map by (simp only: list.set)
  have "map (\<lambda>r. (row_PublicKey r, row_IsTrusted r)) (rows_at (run_ops ?S ?db ?attack) ''alice:1'')
      = [(replicate 32 1, False), (replicate 32 2, False)]" by code_simp
  from arg_cong [OF this, of set]
  have "db_stored (run_ops ?S ?db ?attack) ''alice:1'' = {(replicate 32 1, False), (replicate 32 2, False)}"
    unfolding db_stored_def set_map by (simp only: list.set)
  with stored_key_stays [OF json_ok_example inv s, of ?attack]
  have 2: "{x. \<exists>p. known ?S ((run_ops ?S ?db ?attack)\<lparr>db_pick := p\<rparr>) ''alice:1'' = Some x}
      = {(replicate 32 1, False), (replicate 32 2, False)}" unfolding Let_def by (elim conjE) (rule trans)
  have c: "\<not> inserts_at ''alice:1'' ?calm" "last_trust ''alice:1'' False ?calm = True" by code_simp+
  from stored_key_stays [OF json_ok_example inv s, of ?calm]
  have "\<not> inserts_at ''alice:1'' ?calm \<longrightarrow>
      known ?S (run_ops ?S ?db ?calm) ''alice:1'' = Some (replicate 32 1, last_trust ''alice:1'' False ?calm)"
    unfolding Let_def by (elim conjE)
  from mp [OF this c(1)] have "known ?S (run_ops ?S ?db ?calm) ''alice:1'' = Some (replicate 32 1, True)" unfolding c(2) .
  with 2 show ?thesis unfolding Let_def by (rule conjI [rotated])
qed

text \<open>What is inserted is what is found. After a successful insertion for an address that
  was unknown, looking it up returns the same key, names, capabilities and trust, with the
  database's clock for its times.\<close>

theorem store_insert_get:
  assumes "json_ok j" "sql_inv j db" "db_up db" "known (SQLStore j) db (ServerAddress i) = None"
    and "SQLStore_InsertIdentity j db i = (None, db')"
  shows "SQLStore_GetIdentityByAddress j db' (ServerAddress i) =
    Inr (i\<lparr>CreatedAt := Some (db_now db), TrustUpdatedAt := Some (db_now db)\<rparr>)"
proof -
  from SQLStore_insert_cases [OF assms(1,5)] obtain row where
    db': "db_rows db' = db_rows db @ [row]" "db_up db'"
    and row: "row_PublicKey row = PublicKey i" "row_ServerAddress row = ServerAddress i"
      "row_ServerName row = ServerName i" "row_OwnerName row = OwnerName i" "row_IsTrusted row = IsTrusted i"
      "row_CreatedAt row = db_now db" "row_TrustUpdatedAt row = db_now db"
      "row_Capabilities row \<noteq> ''''" "json_Unmarshal j (row_Capabilities row) = Inr (Capabilities i)"
    using assms(3) by auto
  have "rows_at db (ServerAddress i) = []"
    using assms(4) by (simp add: known_SQLStore [OF assms(2,3)] limit_1_None_iff)
  then have "rows_at db' (ServerAddress i) = [row]" using db'(1) row(2) by (simp add: rows_at_def)
  then have "sqlc_GetIdentityByAddress db' (ServerAddress i) = Inr row"
    using db'(2) by (simp add: sqlc_GetIdentityByAddress_def limit_1_sole)
  with row show ?thesis
    by (simp add: SQLStore_GetIdentityByAddress_def rowToIdentity_ok)
qed

theorem store_insert_get_witness:
  "let i = example_identity 1 ''alice:1'' ''alice''; db' = snd (SQLStore_InsertIdentity example_json empty_db i)
   in SQLStore_GetIdentityByAddress example_json db' ''alice:1''
        = Inr (i\<lparr>CreatedAt := Some 100, TrustUpdatedAt := Some 100\<rparr>)"
proof -
  let ?i = "example_identity 1 ''alice:1'' ''alice''"
  have "fst (SQLStore_InsertIdentity example_json empty_db ?i) = None" by code_simp
  then have ins: "SQLStore_InsertIdentity example_json empty_db ?i =
    (None, snd (SQLStore_InsertIdentity example_json empty_db ?i))" by (metis prod.collapse)
  have "known (SQLStore example_json) empty_db (ServerAddress ?i) = None" by code_simp
  from store_insert_get [OF json_ok_example _ _ this ins] show ?thesis
    by (simp add: example_identity_def) (simp add: empty_db_def)
qed

lemma SQLStore_insert_ok:
  assumes "json_ok j" "db_up db" "PublicKey i \<noteq> []" "PublicKey i \<notin> row_PublicKey ` set (db_rows db)"
    "ServerName i \<notin> row_ServerName ` set (db_rows db)"
  shows "fst (SQLStore_InsertIdentity j db i) = None"
proof -
  from assms(1) obtain t where t: "json_Marshal j (Capabilities i) = Inr t" unfolding json_ok_def by blast
  have "\<not> list_ex (\<lambda>r. row_PublicKey r = PublicKey i \<or> row_ServerName r = ServerName i) (db_rows db)"
    using assms(4,5) by (auto simp: list_ex_iff) (metis imageI)+
  then show ?thesis
    using assms(2,3) t by (auto simp: SQLStore_InsertIdentity_def sqlc_InsertIdentity_def Let_def list_ex_iff)
qed

text \<open>An insertion is refused exactly when the key is empty or the key or the server's name
  is already in the table; the table is then unchanged.\<close>

theorem store_insert_refused_iff:
  assumes "json_ok j" "db_up db" "SQLStore_InsertIdentity j db i = (e, db')"
  shows "(e \<noteq> None \<longleftrightarrow> PublicKey i = [] \<or> PublicKey i \<in> row_PublicKey ` set (db_rows db)
            \<or> ServerName i \<in> row_ServerName ` set (db_rows db))
    \<and> (e \<noteq> None \<longrightarrow> db_rows db' = db_rows db)"
  using SQLStore_insert_cases [OF assms(1,3)] SQLStore_insert_ok [OF assms(1,2), of i] assms(3) by auto

theorem store_insert_refused_iff_witness:
  "let i = example_identity 1 ''alice:1'' ''alice'';
       db = snd (SQLStore_InsertIdentity example_json empty_db i)
   in fst (SQLStore_InsertIdentity example_json db i) \<noteq> None"
proof -
  let ?i = "example_identity 1 ''alice:1'' ''alice''"
  let ?db = "snd (SQLStore_InsertIdentity example_json empty_db ?i)"
  obtain e db' where r: "SQLStore_InsertIdentity example_json ?db ?i = (e, db')" by fastforce
  have "list_ex (\<lambda>r. row_PublicKey r = PublicKey ?i) (db_rows ?db)" "db_up ?db" by code_simp+
  then have "PublicKey ?i \<in> row_PublicKey ` set (db_rows ?db)" unfolding list_ex_iff by (metis imageI)
  with store_insert_refused_iff [OF json_ok_example \<open>db_up ?db\<close> r] r show ?thesis by simp
qed

lemma convert_rows_ok:
  "list_all (\<lambda>r. \<exists>i. rowToIdentity j r = Inr i) rs \<Longrightarrow> convert_rows j rs = Inr (map (projr \<circ> rowToIdentity j) rs)"
  by (induction rs) auto

text \<open>A key finds its row, and nothing once that row is deleted.\<close>

lemma sqlc_by_key:
  assumes "sql_inv j db" "db_up db" "r \<in> set (db_rows db)"
  shows "sqlc_GetIdentityByKey db (row_PublicKey r) = Inr r"
    and "sqlc_GetIdentityByKey (snd (sqlc_DeleteIdentity db key)) key = Inl None"
    and "sql_inv j (snd (sqlc_DeleteIdentity db key))"
proof -
  obtain s where s: "find (\<lambda>x. row_PublicKey x = row_PublicKey r) (db_rows db) = Some s"
    using assms(3) by (cases "find (\<lambda>x. row_PublicKey x = row_PublicKey r) (db_rows db)") (auto simp: find_None_iff)
  then have "s \<in> set (db_rows db)" "row_PublicKey s = row_PublicKey r" unfolding find_Some_iff by auto
  with assms(1,3) have "s = r" by (auto simp: sql_inv_def distinct_map inj_on_def)
  with s assms(2) show "sqlc_GetIdentityByKey db (row_PublicKey r) = Inr r" by (simp add: sqlc_GetIdentityByKey_def)
  show "sqlc_GetIdentityByKey (snd (sqlc_DeleteIdentity db key)) key = Inl None"
    using assms(2) by (auto simp: sqlc_GetIdentityByKey_def sqlc_DeleteIdentity_def find_None_iff split: option.split)
  show "sql_inv j (snd (sqlc_DeleteIdentity db key))"
    using assms(1,2) by (auto simp: sql_inv_def sqlc_DeleteIdentity_def list_all_iff distinct_map inj_on_def)
qed

text \<open>A listing has every stored identity exactly once, the newest first.\<close>

theorem store_list_complete:
  assumes "sql_inv j db" "db_up db"
  shows "\<exists>is. SQLStore_ListIdentities j db = Inr is
    \<and> mset (map PublicKey is) = mset (map row_PublicKey (db_rows db))
    \<and> sorted (map (\<lambda>i. - the (CreatedAt i)) is)"
proof -
  let ?rows = "sort_key (\<lambda>r. - row_CreatedAt r) (db_rows db)"
  let ?is = "map (projr \<circ> rowToIdentity j) ?rows"
  have dec: "\<exists>i. rowToIdentity j r = Inr i \<and> PublicKey i = row_PublicKey r \<and> CreatedAt i = Some (row_CreatedAt r)"
    if "r \<in> set (db_rows db)" for r
    using that assms(1) by (auto simp: sql_inv_def list_all_iff rowToIdentity_ok)
  then have "list_all (\<lambda>r. \<exists>i. rowToIdentity j r = Inr i) ?rows" by (auto simp: list_all_iff)
  with assms(2) have l: "SQLStore_ListIdentities j db = Inr ?is"
    by (simp add: SQLStore_ListIdentities_def sqlc_ListIdentities_def convert_rows_ok)
  have k: "map PublicKey ?is = map row_PublicKey ?rows"
    "map (\<lambda>i. - the (CreatedAt i)) ?is = map (\<lambda>r. - row_CreatedAt r) ?rows"
    unfolding map_map by (rule map_cong [OF refl]; use dec in force)+
  then have "mset (map PublicKey ?is) = mset (map row_PublicKey (db_rows db))"
    "sorted (map (\<lambda>i. - the (CreatedAt i)) ?is)"
    by (simp_all only: mset_map mset_sort sorted_sort_key)
  with l show ?thesis by blast
qed

theorem store_list_complete_witness:
  "\<exists>is. SQLStore_ListIdentities example_json empty_db = Inr is \<and> map PublicKey is = []"
proof -
  have "db_rows empty_db = []" by (simp add: empty_db_def)
  with store_list_complete [OF sql_inv_empty, of example_json] show ?thesis by auto
qed

end
