(* ===== verification/Srv_Cache.thy ===== *)
theory Srv_Cache
  imports Id_Store
begin

text \<open>
  The two caches of a verifier (\<open>server/verifier.go\<close>): \<open>HashChainManager\<close>, the last accepted
  message of every peer, and \<open>IdentityCacheManager\<close>, the peers' keys. Every operation is one
  function of the manager's state, as it is for callers that the mutex serialises; the clock
  readings of a call are its arguments. (What goroutines that use it at the same time
  can do is in \<open>Srv_Locks\<close>.) The locale \<open>expiring_map\<close> states what both have in
  common: an entry is served until it expires, and sweeping out expired entries is invisible.
\<close>

section \<open>HashChainManager\<close>

record chain_entry =
  ce_Hash :: bytes
  ce_Sequence :: "64 word"
  ce_ExpiresAt :: int

record hash_manager =
  hm_chains :: "string \<Rightarrow> chain_entry option"
  hm_ttl :: int

definition NewHashChainManager :: "int \<Rightarrow> hash_manager" where
  "NewHashChainManager ttl = \<lparr>hm_chains = (\<lambda>_. None), hm_ttl = ttl\<rparr>"

definition hm_add :: "hash_manager \<Rightarrow> string \<Rightarrow> bytes \<Rightarrow> 64 word \<Rightarrow> int \<Rightarrow> hash_manager" where
  "hm_add hm addr currentHash seqno now =
     hm\<lparr>hm_chains := (hm_chains hm)(addr \<mapsto> \<lparr>ce_Hash = currentHash, ce_Sequence = seqno,
                                          ce_ExpiresAt = now + hm_ttl hm\<rparr>)\<rparr>"

text \<open>\<open>now\<close> is read for the expiry check, \<open>now'\<close> when the entry is added.\<close>

definition VerifyAndAdd ::
    "hash_manager \<Rightarrow> string \<Rightarrow> bytes \<Rightarrow> bytes \<Rightarrow> 64 word \<Rightarrow> int \<Rightarrow> int \<Rightarrow> go_error option \<times> hash_manager" where
  "VerifyAndAdd hm addr previousHash currentHash seqno now now' =
     (if seqno = 1 then
        (if previousHash \<noteq> [] then (Some (Errorf ''sequence 1 should have empty previous hash''), hm)
         else (None, hm_add hm addr currentHash seqno now'))
      else
        (case hm_chains hm addr of
           None \<Rightarrow> (Some (Errorf ''no previous hash entry found for peer %s''), hm)
         | Some lastEntry \<Rightarrow>
             (if now > ce_ExpiresAt lastEntry then
                (Some (Errorf ''previous hash entry has expired for peer %s''),
                 hm\<lparr>hm_chains := (hm_chains hm)(addr := None)\<rparr>)
              else if ce_Hash lastEntry \<noteq> previousHash then
                (Some (Errorf ''previous hash mismatch for peer %s: expected %x, got %x''), hm)
              else if seqno \<noteq> ce_Sequence lastEntry + 1 then
                (Some (Errorf ''sequence number mismatch for peer %s: expected %d, got %d''), hm)
              else (None, hm_add hm addr currentHash seqno now'))))"

definition HashChain_Clear :: "hash_manager \<Rightarrow> hash_manager" where
  "HashChain_Clear hm = hm\<lparr>hm_chains := (\<lambda>_. None)\<rparr>"

definition HashChain_Cleanup :: "hash_manager \<Rightarrow> int \<Rightarrow> hash_manager" where
  "HashChain_Cleanup hm now = hm\<lparr>hm_chains := sweep (\<lambda>e. now > ce_ExpiresAt e) (hm_chains hm)\<rparr>"

section \<open>IdentityCacheManager\<close>

record cache_entry =
  ic_Identity :: "identity option"
  ic_PublicKey :: bytes
  ic_ExpiresAt :: "int option"

record identity_cache =
  ic_cache :: "string \<Rightarrow> cache_entry option"
  ic_ttl :: int

definition NewIdentityCacheManager :: "int \<Rightarrow> identity_cache" where
  "NewIdentityCacheManager ttl = \<lparr>ic_cache = (\<lambda>_. None), ic_ttl = ttl\<rparr>"

definition expired :: "int \<Rightarrow> cache_entry \<Rightarrow> bool" where
  "expired now e = (case ic_ExpiresAt e of None \<Rightarrow> False | Some t \<Rightarrow> now > t)"

definition Cache_Get :: "identity_cache \<Rightarrow> string \<Rightarrow> int \<Rightarrow> cache_entry option \<times> identity_cache" where
  "Cache_Get cm addr now =
     (case ic_cache cm addr of
        None \<Rightarrow> (None, cm)
      | Some cached \<Rightarrow>
          (if expired now cached then (None, cm\<lparr>ic_cache := (ic_cache cm)(addr := None)\<rparr>)
           else (Some cached, cm)))"

definition GetWithAddressCheck :: "identity_cache \<Rightarrow> string \<Rightarrow> int \<Rightarrow> cache_entry option \<times> identity_cache" where
  "GetWithAddressCheck cm addr now =
     (case Cache_Get cm addr now of
        (None, cm1) \<Rightarrow> (None, cm1)
      | (Some cached, cm1) \<Rightarrow>
          (case ic_Identity cached of
             None \<Rightarrow> (Some cached, cm1)
           | Some i \<Rightarrow>
               (if ServerAddress i \<noteq> addr then (None, cm1\<lparr>ic_cache := (ic_cache cm1)(addr := None)\<rparr>)
                else (Some cached, cm1))))"

definition cache_expires :: "identity_cache \<Rightarrow> int \<Rightarrow> int option" where
  "cache_expires cm now = (if ic_ttl cm > 0 then Some (now + ic_ttl cm) else None)"

definition Cache_Set :: "identity_cache \<Rightarrow> string \<Rightarrow> identity \<Rightarrow> int \<Rightarrow> identity_cache" where
  "Cache_Set cm addr i now =
     cm\<lparr>ic_cache := (ic_cache cm)(addr \<mapsto> \<lparr>ic_Identity = Some i, ic_PublicKey = PublicKey i,
                                        ic_ExpiresAt = cache_expires cm now\<rparr>)\<rparr>"

definition SetPublicKey :: "identity_cache \<Rightarrow> string \<Rightarrow> bytes \<Rightarrow> int \<Rightarrow> identity_cache" where
  "SetPublicKey cm addr pub now =
     cm\<lparr>ic_cache := (ic_cache cm)(addr \<mapsto> \<lparr>ic_Identity = None, ic_PublicKey = pub,
                                        ic_ExpiresAt = cache_expires cm now\<rparr>)\<rparr>"

definition Cache_Clear :: "identity_cache \<Rightarrow> identity_cache" where
  "Cache_Clear cm = cm\<lparr>ic_cache := (\<lambda>_. None)\<rparr>"

definition Cache_Size :: "identity_cache \<Rightarrow> nat" where
  "Cache_Size cm = card (dom (ic_cache cm))"

definition Cache_Cleanup :: "identity_cache \<Rightarrow> int \<Rightarrow> identity_cache" where
  "Cache_Cleanup cm now = cm\<lparr>ic_cache := sweep (expired now) (ic_cache cm)\<rparr>"

section \<open>Maps whose entries expire\<close>

definition alive :: "int option \<Rightarrow> int \<Rightarrow> int \<Rightarrow> bool" where
  "alive d t t' \<longleftrightarrow> (case d of None \<Rightarrow> True | Some d \<Rightarrow> t' \<le> t + d)"

datatype 'v cache_op = C_Put string 'v | C_Cleanup | C_Clear

definition cache_step ::
    "('s \<Rightarrow> int \<Rightarrow> string \<Rightarrow> 'v \<Rightarrow> 's) \<Rightarrow> ('s \<Rightarrow> int \<Rightarrow> 's) \<Rightarrow> ('s \<Rightarrow> 's) \<Rightarrow> 's \<Rightarrow> int \<times> 'v cache_op \<Rightarrow> 's" where
  "cache_step put cleanup clear s x =
     (case x of
        (t, C_Put k v) \<Rightarrow> put s t k v
      | (t, C_Cleanup) \<Rightarrow> cleanup s t
      | (t, C_Clear) \<Rightarrow> clear s)"

locale expiring_map =
  fixes serve :: "'s \<Rightarrow> int \<Rightarrow> string \<Rightarrow> 'v option"
    and put :: "'s \<Rightarrow> int \<Rightarrow> string \<Rightarrow> 'v \<Rightarrow> 's"
    and cleanup :: "'s \<Rightarrow> int \<Rightarrow> 's"
    and clear :: "'s \<Rightarrow> 's"
    and lifetime :: "'s \<Rightarrow> int option"
  assumes serve_put: "serve (put s t k v) t' k' =
      (if k' = k then (if alive (lifetime s) t t' then Some v else None) else serve s t' k')"
    and serve_cleanup: "t \<le> t' \<Longrightarrow> serve (cleanup s t) t' k = serve s t' k"
    and serve_clear: "serve (clear s) t k = None"
    and lifetime_const: "lifetime (put s t k v) = lifetime s" "lifetime (cleanup s t) = lifetime s"
      "lifetime (clear s) = lifetime s"
    and serve_earlier: "serve s t' k = Some v \<Longrightarrow> t \<le> t' \<Longrightarrow> serve s t k = Some v"
begin

definition agree_from :: "int \<Rightarrow> 's \<Rightarrow> 's \<Rightarrow> bool" where
  "agree_from t s s' \<longleftrightarrow> lifetime s = lifetime s' \<and> (\<forall>t' \<ge> t. \<forall>k. serve s t' k = serve s' t' k)"

lemma agree_from_step: "agree_from t s s' \<Longrightarrow> t \<le> t1 \<Longrightarrow> agree_from t1 (cache_step put cleanup clear s (t1, op)) (cache_step put cleanup clear s' (t1, op))"
  by (cases op) (simp_all add: agree_from_def cache_step_def serve_put serve_cleanup serve_clear lifetime_const)

lemma agree_from_cleanup: "agree_from t s s' \<Longrightarrow> t \<le> t1 \<Longrightarrow> agree_from t1 (cache_step put cleanup clear s (t1, C_Cleanup)) s'"
  by (simp add: agree_from_def cache_step_def serve_cleanup lifetime_const)

lemma agree_from_later: "agree_from t s s' \<Longrightarrow> t \<le> t1 \<Longrightarrow> agree_from t1 s s'"
  by (simp add: agree_from_def)

lemma cleanup_steps_invisible:
  assumes "agree_from t s s'" and "sorted_wrt (\<le>) (t # map fst xs)"
  shows "agree_from (last (t # map fst xs)) (foldl (cache_step put cleanup clear) s xs) (foldl (cache_step put cleanup clear) s' (filter (\<lambda>x. snd x \<noteq> C_Cleanup) xs))"
  using assms
proof (induction xs arbitrary: t s s')
  case (Cons x xs)
  obtain t1 op where x: "x = (t1, op)" by (cases x)
  with Cons.prems have le: "t \<le> t1" and srt: "sorted_wrt (\<le>) (t1 # map fst xs)" by simp_all
  show ?case
  proof (cases "op = C_Cleanup")
    case True
    with Cons.IH [OF agree_from_cleanup [OF Cons.prems(1) le] srt] x show ?thesis by simp
  next
    case False
    with Cons.IH [OF agree_from_step [OF Cons.prems(1) le] srt, of op] x show ?thesis by simp
  qed
qed simp

text \<open>Sweeping expired entries, as often and whenever one likes, never changes what is served.\<close>

lemma cleanup_invisible:
  assumes "sorted_wrt (\<le>) (map fst xs @ [now])"
  shows "serve (foldl (cache_step put cleanup clear) s xs) now k = serve (foldl (cache_step put cleanup clear) s (filter (\<lambda>x. snd x \<noteq> C_Cleanup) xs)) now k"
proof (cases xs)
  case (Cons x ys)
  have "sorted_wrt (\<le>) (fst x # map fst xs)"
    using assms Cons by (auto simp: sorted_wrt_append)
  from cleanup_steps_invisible [OF _ this, of s s]
  have "agree_from (last (map fst xs)) (foldl (cache_step put cleanup clear) s xs) (foldl (cache_step put cleanup clear) s (filter (\<lambda>x. snd x \<noteq> C_Cleanup) xs))"
    using Cons by (simp add: agree_from_def)
  moreover have "last (map fst xs) \<le> now"
  proof -
    have "\<forall>u \<in> set (map fst xs). u \<le> now" using assms unfolding sorted_wrt_append by simp
    moreover have "last (map fst xs) \<in> set (map fst xs)" using Cons by (intro last_in_set) simp
    ultimately show ?thesis by blast
  qed
  ultimately show ?thesis by (simp add: agree_from_def)
qed simp

text \<open>An entry is served for its lifetime and not a moment longer, unless it is replaced.\<close>

lemma serve_after_put: "serve (put s t k v) t' k = Some v \<longleftrightarrow> alive (lifetime s) t t'"
  by (simp add: serve_put)

end

section \<open>Both managers are such maps\<close>

definition chain_serve :: "hash_manager \<Rightarrow> int \<Rightarrow> string \<Rightarrow> (bytes \<times> 64 word) option" where
  "chain_serve hm now addr =
     (case hm_chains hm addr of
        None \<Rightarrow> None
      | Some e \<Rightarrow> if now > ce_ExpiresAt e then None else Some (ce_Hash e, ce_Sequence e))"

definition chain_put :: "hash_manager \<Rightarrow> int \<Rightarrow> string \<Rightarrow> bytes \<times> 64 word \<Rightarrow> hash_manager" where
  "chain_put hm now addr v = hm_add hm addr (fst v) (snd v) now"

interpretation chains: expiring_map chain_serve chain_put HashChain_Cleanup HashChain_Clear "\<lambda>hm. Some (hm_ttl hm)"
proof unfold_locales
  fix s and t t' :: int and k
  assume "t \<le> t'"
  then show "chain_serve (HashChain_Cleanup s t) t' k = chain_serve s t' k"
    by (cases "hm_chains s k") (simp_all add: chain_serve_def HashChain_Cleanup_def sweep_def)
next
  fix s t' k v t
  assume "chain_serve s t' k = Some v" "t \<le> t'"
  then show "chain_serve s t k = Some v" by (auto simp: chain_serve_def split: option.splits if_splits)
qed (auto simp: chain_serve_def chain_put_def hm_add_def alive_def HashChain_Cleanup_def HashChain_Clear_def)

text \<open>What the identity cache holds for an address: an identity, or only a key.\<close>

definition cache_serve :: "identity_cache \<Rightarrow> int \<Rightarrow> string \<Rightarrow> (identity + bytes) option" where
  "cache_serve cm now addr =
     (case fst (Cache_Get cm addr now) of
        None \<Rightarrow> None
      | Some e \<Rightarrow> Some (case ic_Identity e of Some i \<Rightarrow> Inl i | None \<Rightarrow> Inr (ic_PublicKey e)))"

definition cache_put :: "identity_cache \<Rightarrow> int \<Rightarrow> string \<Rightarrow> identity + bytes \<Rightarrow> identity_cache" where
  "cache_put cm now addr v =
     (case v of Inl i \<Rightarrow> Cache_Set cm addr i now | Inr pub \<Rightarrow> SetPublicKey cm addr pub now)"

definition cache_lifetime :: "identity_cache \<Rightarrow> int option" where
  "cache_lifetime cm = (if ic_ttl cm > 0 then Some (ic_ttl cm) else None)"

lemma cache_serve_eq:
  "cache_serve cm now addr =
     (case ic_cache cm addr of
        None \<Rightarrow> None
      | Some e \<Rightarrow> if expired now e then None
                  else Some (case ic_Identity e of Some i \<Rightarrow> Inl i | None \<Rightarrow> Inr (ic_PublicKey e)))"
  by (simp add: cache_serve_def Cache_Get_def split: option.split)

lemma expired_later: "expired t e \<Longrightarrow> t \<le> t' \<Longrightarrow> expired t' e"
  by (auto simp: expired_def split: option.splits)

interpretation identities: expiring_map cache_serve cache_put Cache_Cleanup Cache_Clear cache_lifetime
proof unfold_locales
  fix s t k v t' k'
  show "cache_serve (cache_put s t k v) t' k' =
      (if k' = k then (if alive (cache_lifetime s) t t' then Some v else None) else cache_serve s t' k')"
    by (cases v) (auto simp: cache_serve_eq cache_put_def Cache_Set_def SetPublicKey_def expired_def
        cache_expires_def cache_lifetime_def alive_def)
next
  fix s and t t' :: int and k
  assume "t \<le> t'"
  then show "cache_serve (Cache_Cleanup s t) t' k = cache_serve s t' k"
    by (cases "ic_cache s k") (auto simp: cache_serve_eq Cache_Cleanup_def sweep_def dest: expired_later)
next
  fix s t' k v t
  assume "cache_serve s t' k = Some v" "t \<le> t'"
  then show "cache_serve s t k = Some v"
    by (auto simp: cache_serve_eq split: option.splits if_splits dest: expired_later)
qed (auto simp: cache_serve_eq Cache_Clear_def cache_lifetime_def cache_put_def Cache_Set_def
    SetPublicKey_def Cache_Cleanup_def split: sum.split)

text \<open>C31: the periodic clean-up of both caches is invisible. Whatever is put, cleared and swept
  at increasing times, what either manager serves at a later moment is the same as if no
  sweep had happened.\<close>

theorem cleanup_invisible_in_caches:
  assumes "sorted_wrt (\<le>) (map fst xs @ [now])" and "sorted_wrt (\<le>) (map fst ys @ [now])"
  shows "cache_serve (foldl (cache_step cache_put Cache_Cleanup Cache_Clear) cm xs) now addr
      = cache_serve (foldl (cache_step cache_put Cache_Cleanup Cache_Clear) cm
                       (filter (\<lambda>x. snd x \<noteq> C_Cleanup) xs)) now addr
    \<and> chain_serve (foldl (cache_step chain_put HashChain_Cleanup HashChain_Clear) hm ys) now addr
      = chain_serve (foldl (cache_step chain_put HashChain_Cleanup HashChain_Clear) hm
                       (filter (\<lambda>y. snd y \<noteq> C_Cleanup) ys)) now addr"
  using identities.cleanup_invisible [OF assms(1)] chains.cleanup_invisible [OF assms(2)] by blast

theorem cleanup_invisible_in_caches_witness:
  "cache_serve (foldl (cache_step cache_put Cache_Cleanup Cache_Clear) (NewIdentityCacheManager 10)
     [(0, C_Put ''a'' (Inr [1])), (5, C_Cleanup)]) 7 ''a'' = Some (Inr [1])"
proof -
  have "cache_serve (foldl (cache_step cache_put Cache_Cleanup Cache_Clear) (NewIdentityCacheManager 10)
     [(0, C_Put ''a'' (Inr [1]))]) 7 ''a'' = Some (Inr [1])" by code_simp
  with cleanup_invisible_in_caches [of "[(0, C_Put ''a'' (Inr [1])), (5, C_Cleanup)]" 7 "[]"
      "NewIdentityCacheManager 10" "''a''" "NewHashChainManager 0"]
  show ?thesis by simp
qed

section \<open>The accepted messages of a peer\<close>

text \<open>An attempt to add a message: address, previous hash, current hash, sequence number.\<close>

record chain_msg =
  cm_addr :: string
  cm_prev :: bytes
  cm_hash :: bytes
  cm_seq :: "64 word"

text \<open>Runs of one manager, with the log of what it accepted, in order.\<close>

inductive hm_run :: "hash_manager \<Rightarrow> chain_msg list \<Rightarrow> bool" where
  new: "hm_run (NewHashChainManager ttl) []"
| accept: "hm_run hm log \<Longrightarrow> VerifyAndAdd hm (cm_addr m) (cm_prev m) (cm_hash m) (cm_seq m) now now' = (None, hm')
    \<Longrightarrow> hm_run hm' (log @ [m])"
| refuse: "hm_run hm log \<Longrightarrow> VerifyAndAdd hm addr prev cur seqno now now' = (Some e, hm')
    \<Longrightarrow> hm_run hm' log"
| sweep: "hm_run hm log \<Longrightarrow> hm_run (HashChain_Cleanup hm now) log"
| clear: "hm_run hm log \<Longrightarrow> hm_run (HashChain_Clear hm) log"

definition restarts :: "chain_msg \<Rightarrow> bool" where
  "restarts m \<longleftrightarrow> cm_seq m = 1 \<and> cm_prev m = []"

definition follows :: "chain_msg \<Rightarrow> chain_msg \<Rightarrow> bool" where
  "follows m m' \<longleftrightarrow> cm_prev m' = cm_hash m \<and> cm_seq m' = cm_seq m + 1"

text \<open>Every message restarts the chain or follows the one before it.\<close>

definition linked_log :: "chain_msg list \<Rightarrow> bool" where
  "linked_log ms \<longleftrightarrow> (\<forall>i < length ms. restarts (ms ! i) \<or> 0 < i \<and> follows (ms ! (i - 1)) (ms ! i))"

definition log_of :: "string \<Rightarrow> chain_msg list \<Rightarrow> chain_msg list" where
  "log_of a log = filter (\<lambda>m. cm_addr m = a) log"

definition chain_inv :: "hash_manager \<Rightarrow> chain_msg list \<Rightarrow> bool" where
  "chain_inv hm log \<longleftrightarrow>
     (\<forall>a e. hm_chains hm a = Some e \<longrightarrow> log_of a log \<noteq> []
        \<and> cm_hash (last (log_of a log)) = ce_Hash e \<and> cm_seq (last (log_of a log)) = ce_Sequence e)"

lemma linked_log_snoc:
  "linked_log (ms @ [m]) \<longleftrightarrow> linked_log ms \<and> (restarts m \<or> ms \<noteq> [] \<and> follows (last ms) m)"
proof -
  have "(\<forall>i < length (ms @ [m]). P i) \<longleftrightarrow> (\<forall>i < length ms. P i) \<and> P (length ms)" for P
    by (auto simp: less_Suc_eq)
  moreover have "(ms @ [m]) ! i = ms ! i" "(ms @ [m]) ! (i - 1) = ms ! (i - 1)" if "i < length ms" for i
    using that by (simp_all add: nth_append less_imp_diff_less)
  moreover have "(ms @ [m]) ! (length ms - 1) = last ms" if "ms \<noteq> []"
    using that by (simp add: nth_append last_conv_nth)
  ultimately show ?thesis by (auto simp: linked_log_def)
qed

lemma VerifyAndAdd_None_iff:
  "VerifyAndAdd hm addr prev cur seqno now now' = (None, hm') \<longleftrightarrow>
     hm' = hm_add hm addr cur seqno now'
     \<and> (if seqno = 1 then prev = []
        else \<exists>n. chain_serve hm now addr = Some (prev, n) \<and> seqno = n + 1)"
  by (auto simp: VerifyAndAdd_def chain_serve_def split: option.splits if_splits)

lemma VerifyAndAdd_error_chains:
  "VerifyAndAdd hm addr prev cur seqno now now' = (Some e, hm') \<Longrightarrow>
     hm_chains hm' = hm_chains hm \<or> hm_chains hm' = (hm_chains hm)(addr := None)"
  by (auto simp: VerifyAndAdd_def split: option.splits if_splits)

lemma hm_run_inv: "hm_run hm log \<Longrightarrow> chain_inv hm log \<and> (\<forall>a. linked_log (log_of a log))"
proof (induction rule: hm_run.induct)
  case (new ttl)
  then show ?case by (simp add: chain_inv_def NewHashChainManager_def linked_log_def log_of_def)
next
  case (accept hm log m now now' hm')
  then have hm': "hm' = hm_add hm (cm_addr m) (cm_hash m) (cm_seq m) now'"
    and ok: "if cm_seq m = 1 then cm_prev m = []
        else \<exists>n. chain_serve hm now (cm_addr m) = Some (cm_prev m, n) \<and> cm_seq m = n + 1"
    by (simp_all add: VerifyAndAdd_None_iff)
  have "chain_inv hm' (log @ [m])"
    using accept.IH by (auto simp: hm' chain_inv_def hm_add_def log_of_def)
  moreover have "linked_log (log_of a (log @ [m]))" for a
  proof (cases "cm_addr m = a")
    case True
    have "restarts m \<or> log_of a log \<noteq> [] \<and> follows (last (log_of a log)) m"
      using ok accept.IH True
      by (auto simp: restarts_def follows_def chain_serve_def chain_inv_def split: if_splits option.splits)
    with True accept.IH show ?thesis by (simp add: log_of_def linked_log_snoc)
  next
    case False
    with accept.IH show ?thesis by (simp add: log_of_def)
  qed
  ultimately show ?case by blast
next
  case (refuse hm log addr prev cur seqno now now' e hm')
  with VerifyAndAdd_error_chains [OF refuse.hyps(2)] show ?case
    by (auto simp: chain_inv_def split: if_splits)
next
  case (sweep hm log now)
  then show ?case by (auto simp: chain_inv_def HashChain_Cleanup_def sweep_Some_iff)
next
  case (clear hm log)
  then show ?case by (simp add: chain_inv_def HashChain_Clear_def)
qed

text \<open>C24: what a verifier accepts from one peer is a linked chain. In every run of the manager,
  with messages of many peers interleaved, refusals, sweeps and clears, each accepted message
  of a peer either starts a new chain or carries the hash of the message accepted from that
  peer just before and the next sequence number.\<close>

theorem accepted_messages_linked:
  assumes "hm_run hm log"
  shows "linked_log (log_of addr log)"
  using hm_run_inv [OF assms] by blast

definition first_msg :: chain_msg where
  "first_msg = \<lparr>cm_addr = ''alice'', cm_prev = [], cm_hash = [7], cm_seq = 1\<rparr>"

definition second_msg :: chain_msg where
  "second_msg = \<lparr>cm_addr = ''alice'', cm_prev = [7], cm_hash = [9], cm_seq = 2\<rparr>"

lemma example_run: "\<exists>hm. hm_run hm [first_msg, second_msg]"
proof -
  have r0: "hm_run (NewHashChainManager 10) []" by (rule hm_run.new)
  let ?h1 = "hm_add (NewHashChainManager 10) ''alice'' [7] 1 0"
  have "VerifyAndAdd (NewHashChainManager 10) ''alice'' [] [7] 1 0 0 = (None, ?h1)"
    by (simp add: VerifyAndAdd_def)
  with hm_run.accept [OF r0, of first_msg 0 0 ?h1] have r1: "hm_run ?h1 [first_msg]"
    by (simp add: first_msg_def)
  have "VerifyAndAdd ?h1 ''alice'' [7] [9] 2 1 1 = (None, hm_add ?h1 ''alice'' [9] 2 1)"
    by (simp add: VerifyAndAdd_def) (simp add: hm_add_def NewHashChainManager_def)
  with hm_run.accept [OF r1, of second_msg 1 1] show ?thesis by (auto simp: second_msg_def)
qed

theorem accepted_messages_linked_witness:
  "linked_log (log_of ''alice'' [first_msg, second_msg]) \<and> \<not> linked_log [second_msg]"
proof -
  from example_run obtain hm where "hm_run hm [first_msg, second_msg]" ..
  from accepted_messages_linked [OF this] show ?thesis
    by (simp add: linked_log_def second_msg_def restarts_def)
qed

text \<open>Anyone who may send at all may start over. A message with sequence number 1 and no
  previous hash is accepted in every state of the manager, also in the middle of a chain and
  also when it is the peer's own first message sent again: the chain protects the order of a
  run only from its last restart on.\<close>

theorem chain_restart_always_accepted:
  "VerifyAndAdd hm addr [] cur 1 now now' = (None, hm_add hm addr cur 1 now')
   \<and> chain_serve (hm_add hm addr cur 1 now') now' addr = (if hm_ttl hm < 0 then None else Some (cur, 1))"
  by (simp add: VerifyAndAdd_def chain_serve_def hm_add_def)

end
