(* ===== verification/Srv_Verifier.thy ===== *)
theory Srv_Verifier
  imports Srv_Cache "HOL-Library.Sublist"
begin

text \<open>
  Signature verification (\<open>server/verifier.go\<close>, \<open>grpcutil/client.go\<close>): where a peer's key
  comes from (cache, store, the peer itself), when it is cached, and what an ordered
  signature has to satisfy. Clock, connections and the peers' identity service are the
  operations of a \<open>verify_env\<close> over a world that the optional store is part of. A nil
  \<open>*Verifier\<close> is \<open>None\<close>. Besides what is guaranteed, the lemmas show what is not: a fetched
  identity reaches the store before it is checked, and sequence number and previous hash of an
  ordered signature are not signed.
\<close>

section \<open>The environment\<close>

record 'w verify_env =
  ve_now :: "'w \<Rightarrow> int \<times> 'w"
  ve_dial :: "bool \<Rightarrow> string \<Rightarrow> 'w \<Rightarrow> go_error option \<times> 'w"
  ve_GetIdentity :: "string \<Rightarrow> 'w \<Rightarrow> identity res \<times> 'w"
  ve_store :: "'w store_ops option"
  ve_ed :: ed25519
  ve_sha :: "bytes \<Rightarrow> bytes"

text \<open>\<open>grpcutil.NewClient\<close>: TLS exactly for addresses that end in \<open>:443\<close>.\<close>

definition NewClient :: "'w verify_env \<Rightarrow> string \<Rightarrow> 'w \<Rightarrow> go_error option \<times> 'w" where
  "NewClient env address w =
     (if suffix '':443'' address then ve_dial env True address w else ve_dial env False address w)"

definition getPeerIdentity :: "'w verify_env \<Rightarrow> string \<Rightarrow> 'w \<Rightarrow> identity res \<times> 'w" where
  "getPeerIdentity env peerAddr w =
     (case NewClient env peerAddr w of
        (Some e, w1) \<Rightarrow> (Inl (wrapf ''failed to connect to peer %s: %w'' e), w1)
      | (None, w1) \<Rightarrow>
     (case ve_GetIdentity env peerAddr w1 of
        (Inl e, w2) \<Rightarrow> (Inl (wrapf ''failed to get identity from peer %s: %w'' e), w2)
      | (Inr i, w2) \<Rightarrow> (Inr i, w2)))"

text \<open>The result of \<open>UpdateLastSeen\<close> is not looked at.\<close>

definition getPeerIdentityFromStoreOrRemote :: "'w verify_env \<Rightarrow> string \<Rightarrow> 'w \<Rightarrow> identity res \<times> 'w" where
  "getPeerIdentityFromStoreOrRemote env peerAddr w =
     (let remote =
        (case getPeerIdentity env peerAddr w of
           (Inl e, w1) \<Rightarrow> (Inl e, w1)
         | (Inr i, w1) \<Rightarrow>
             (case ve_store env of
                None \<Rightarrow> (Inr i, w1)
              | Some S \<Rightarrow>
                  (case InsertIdentity S w1 i of
                     (Some e, w2) \<Rightarrow> (Inl e, w2)
                   | (None, w2) \<Rightarrow> (Inr i, w2))))
      in case ve_store env of
           None \<Rightarrow> remote
         | Some S \<Rightarrow>
             (case GetIdentityByAddress S w peerAddr of
                Inr i \<Rightarrow> (let (t, w1) = ve_now env w in (Inr i, snd (UpdateLastSeen S w1 peerAddr t)))
              | Inl e \<Rightarrow> remote))"

section \<open>The verifier\<close>

record verifier =
  identityCache :: identity_cache
  hashChain :: hash_manager

definition NewVerifier :: "int \<Rightarrow> verifier" where
  "NewVerifier ttl = \<lparr>identityCache = NewIdentityCacheManager ttl, hashChain = NewHashChainManager ttl\<rparr>"

definition AddPeerIdentity :: "'w verify_env \<Rightarrow> verifier \<Rightarrow> string \<Rightarrow> bytes \<Rightarrow> 'w \<Rightarrow> verifier \<times> 'w" where
  "AddPeerIdentity env v peerAddr pub w =
     (let (now, w1) = ve_now env w in (v\<lparr>identityCache := SetPublicKey (identityCache v) peerAddr pub now\<rparr>, w1))"

definition ClearIdentityCache :: "verifier \<Rightarrow> verifier" where
  "ClearIdentityCache v = v\<lparr>identityCache := Cache_Clear (identityCache v)\<rparr>"

definition CleanupIdentityCache :: "verifier \<Rightarrow> int \<Rightarrow> verifier" where
  "CleanupIdentityCache v now = v\<lparr>identityCache := Cache_Cleanup (identityCache v) now\<rparr>"

definition GetCacheSize :: "verifier \<Rightarrow> nat" where
  "GetCacheSize v = Cache_Size (identityCache v)"

definition ClearHashChain :: "verifier \<Rightarrow> verifier" where
  "ClearHashChain v = v\<lparr>hashChain := HashChain_Clear (hashChain v)\<rparr>"

definition CleanupHashChain :: "verifier \<Rightarrow> int \<Rightarrow> verifier" where
  "CleanupHashChain v now = v\<lparr>hashChain := HashChain_Cleanup (hashChain v) now\<rparr>"

text \<open>\<open>if !ed25519.Verify(...) { return fmt.Errorf(...) }\<close>.\<close>

definition check_signature :: "'w verify_env \<Rightarrow> bytes \<Rightarrow> bytes \<Rightarrow> bytes \<Rightarrow> string \<Rightarrow> go_error option" where
  "check_signature env pub message sg err =
     (case ed25519_Verify (ve_ed env) pub (ve_sha env message) sg of
        Inl e \<Rightarrow> Some e
      | Inr ok \<Rightarrow> if ok then None else Some (Errorf err))"

definition cached_peer ::
    "'w verify_env \<Rightarrow> verifier \<Rightarrow> string \<Rightarrow> 'w \<Rightarrow> cache_entry option \<times> verifier \<times> 'w" where
  "cached_peer env v addr w =
     (let (now, w1) = ve_now env w;
          (r, cm) = GetWithAddressCheck (identityCache v) addr now
      in (r, v\<lparr>identityCache := cm\<rparr>, w1))"

definition VerifyMessageSignature ::
    "'w verify_env \<Rightarrow> verifier \<Rightarrow> bytes \<Rightarrow> signature option \<Rightarrow> 'w \<Rightarrow> go_error option \<times> verifier \<times> 'w" where
  "VerifyMessageSignature env v message sigo w =
     (case sigo of
        None \<Rightarrow> (Some (Errorf ''message is not signed''), v, w)
      | Some sg \<Rightarrow>
     (if sig_Signature sg = [] then (Some (Errorf ''empty signature''), v, w)
      else if SignerAddress sg = '''' then (Some (Errorf ''empty signer address''), v, w)
      else
     (case cached_peer env v (SignerAddress sg) w of
        (Some cached, v1, w1) \<Rightarrow>
          (check_signature env (ic_PublicKey cached) message (sig_Signature sg)
             ''invalid signature for cached identity %s'', v1, w1)
      | (None, v1, w1) \<Rightarrow>
     (case getPeerIdentityFromStoreOrRemote env (SignerAddress sg) w1 of
        (Inl e, w2) \<Rightarrow> (Some (wrapf ''failed to fetch peer identity: %w'' e), v1, w2)
      | (Inr peerIdentity, w2) \<Rightarrow>
     (if ServerAddress peerIdentity \<noteq> SignerAddress sg
      then (Some (Errorf ''address mismatch: identity reports %q, signature claims %q''), v1, w2)
      else
     (case check_signature env (PublicKey peerIdentity) message (sig_Signature sg) ''invalid signature for %s'' of
        Some e \<Rightarrow> (Some e, v1, w2)
      | None \<Rightarrow>
          (let (now, w3) = ve_now env w2
           in (None, v1\<lparr>identityCache := Cache_Set (identityCache v1) (SignerAddress sg) peerIdentity now\<rparr>, w3))))))))"

text \<open>The hash chain step that ends both branches of \<open>VerifyOrderedSignature\<close>.\<close>

definition chain_check ::
    "'w verify_env \<Rightarrow> verifier \<Rightarrow> bytes \<Rightarrow> ordered_signature \<Rightarrow> 'w \<Rightarrow> go_error option \<times> verifier \<times> 'w" where
  "chain_check env v message sg w =
     (let (now, w1) = ve_now env w; (now', w2) = ve_now env w1;
          (r, hm) = VerifyAndAdd (hashChain v) (SignerAddress sg) (PreviousHash sg) (ve_sha env message)
                      (os_Sequence sg) now now'
      in (map_option (wrapf ''hash chain verification failed for %s: %w'') r, v\<lparr>hashChain := hm\<rparr>, w2))"

definition VerifyOrderedSignature ::
    "'w verify_env \<Rightarrow> verifier \<Rightarrow> bytes \<Rightarrow> ordered_signature option \<Rightarrow> 'w \<Rightarrow> go_error option \<times> verifier \<times> 'w" where
  "VerifyOrderedSignature env v message sigo w =
     (case sigo of
        None \<Rightarrow> (Some (Errorf ''message is not signed''), v, w)
      | Some sg \<Rightarrow>
     (if sig_Signature sg = [] then (Some (Errorf ''empty signature''), v, w)
      else if SignerAddress sg = '''' then (Some (Errorf ''empty signer address''), v, w)
      else if os_Sequence sg = 0 then (Some (Errorf ''sequence must be greater than 0''), v, w)
      else
     (case cached_peer env v (SignerAddress sg) w of
        (Some cached, v1, w1) \<Rightarrow>
          (case check_signature env (ic_PublicKey cached) message (sig_Signature sg)
                  ''invalid ordered signature for cached identity %s'' of
             Some e \<Rightarrow> (Some e, v1, w1)
           | None \<Rightarrow> chain_check env v1 message sg w1)
      | (None, v1, w1) \<Rightarrow>
     (case getPeerIdentityFromStoreOrRemote env (SignerAddress sg) w1 of
        (Inl e, w2) \<Rightarrow> (Some (wrapf ''failed to fetch peer identity: %w'' e), v1, w2)
      | (Inr peerIdentity, w2) \<Rightarrow>
     (if ServerAddress peerIdentity \<noteq> SignerAddress sg
      then (Some (Errorf ''address mismatch in ordered signature: identity reports %q, signature claims %q''), v1, w2)
      else
     (case check_signature env (PublicKey peerIdentity) message (sig_Signature sg)
             ''invalid ordered signature for %s'' of
        Some e \<Rightarrow> (Some e, v1, w2)
      | None \<Rightarrow>
          (let (now, w3) = ve_now env w2
           in chain_check env
                (v1\<lparr>identityCache := Cache_Set (identityCache v1) (SignerAddress sg) peerIdentity now\<rparr>)
                message sg w3)))))))"

definition VerifyOrderedSignatureProto ::
    "'w verify_env \<Rightarrow> ('m \<Rightarrow> bytes res) \<Rightarrow> verifier option \<Rightarrow> 'm \<Rightarrow> ordered_signature option \<Rightarrow> 'w
     \<Rightarrow> go_error option \<times> verifier option \<times> 'w" where
  "VerifyOrderedSignatureProto env marshal vo msg sigo w =
     (case vo of
        None \<Rightarrow> (None, None, w)
      | Some v \<Rightarrow>
     (if sigo = None then (Some (Errorf ''message is not signed but verifier is configured''), Some v, w)
      else
     (case marshal msg of
        Inl e \<Rightarrow> (Some (wrapf ''failed to serialize message: %w'' e), Some v, w)
      | Inr msgBytes \<Rightarrow>
          (case VerifyOrderedSignature env v msgBytes sigo w of (r, v1, w1) \<Rightarrow> (r, Some v1, w1)))))"

definition VerifySignatureProto ::
    "'w verify_env \<Rightarrow> ('m \<Rightarrow> bytes res) \<Rightarrow> verifier option \<Rightarrow> 'm \<Rightarrow> signature option \<Rightarrow> 'w
     \<Rightarrow> go_error option \<times> verifier option \<times> 'w" where
  "VerifySignatureProto env marshal vo msg sigo w =
     (case vo of
        None \<Rightarrow> (None, None, w)
      | Some v \<Rightarrow>
     (if sigo = None then (Some (Errorf ''message is not signed but verifier is configured''), Some v, w)
      else
     (case marshal msg of
        Inl e \<Rightarrow> (Some (wrapf ''failed to serialize message: %w'' e), Some v, w)
      | Inr msgBytes \<Rightarrow>
          (case VerifyMessageSignature env v msgBytes sigo w of (r, v1, w1) \<Rightarrow> (r, Some v1, w1)))))"

section \<open>What is verified\<close>

lemma check_signature_None_iff:
  "check_signature env pub message sg err = None \<longleftrightarrow>
     length pub = 32 \<and> ed_Verify (ve_ed env) pub (ve_sha env message) sg"
  by (auto simp: check_signature_def ed25519_Verify_def)

lemma check_signature_panic:
  "length pub \<noteq> 32 \<Longrightarrow> check_signature env pub message sg err = Some (Panic ''ed25519: bad public key length'')"
  by (simp add: check_signature_def ed25519_Verify_def)

text \<open>The key that the code verifies a signer's messages with, if it finds one.\<close>

definition peer_key :: "'w verify_env \<Rightarrow> verifier \<Rightarrow> string \<Rightarrow> 'w \<Rightarrow> bytes option" where
  "peer_key env v addr w =
     (case cached_peer env v addr w of
        (Some cached, v1, w1) \<Rightarrow> Some (ic_PublicKey cached)
      | (None, v1, w1) \<Rightarrow>
          (case getPeerIdentityFromStoreOrRemote env addr w1 of
             (Inl e, w2) \<Rightarrow> None
           | (Inr i, w2) \<Rightarrow> if ServerAddress i = addr then Some (PublicKey i) else None))"

lemma VerifyMessageSignature_iff_key:
  "fst (VerifyMessageSignature env v message sigo w) = None \<longleftrightarrow>
     (\<exists>sg key. sigo = Some sg \<and> sig_Signature sg \<noteq> [] \<and> SignerAddress sg \<noteq> ''''
        \<and> peer_key env v (SignerAddress sg) w = Some key
        \<and> length key = 32 \<and> ed_Verify (ve_ed env) key (ve_sha env message) (sig_Signature sg))"
proof (cases sigo)
  case None
  then show ?thesis by (simp add: VerifyMessageSignature_def)
next
  case (Some sg)
  obtain r v1 w1 where c: "cached_peer env v (SignerAddress sg) w = (r, v1, w1)" by (metis prod_cases3)
  show ?thesis
  proof (cases r)
    case None
    obtain x w2 where "getPeerIdentityFromStoreOrRemote env (SignerAddress sg) w1 = (x, w2)" by fastforce
    with Some c None show ?thesis
      by (cases x) (auto simp: VerifyMessageSignature_def peer_key_def check_signature_def ed25519_Verify_def
          split: prod.split)
  next
    case (Some e)
    with \<open>sigo = Some sg\<close> c show ?thesis
      by (auto simp: VerifyMessageSignature_def peer_key_def check_signature_None_iff)
  qed
qed

text \<open>
  Where a signer's key may come from, said without the code's lookup functions: an entry of the
  cache that has not expired and does not name another address; else, with a store, the identity
  that it returns for the address; else the identity that the peer itself reports, over TLS for
  port 443 only, once a store has taken it. What store and peer return must name the address.
\<close>

definition cached_entry :: "'w verify_env \<Rightarrow> verifier \<Rightarrow> string \<Rightarrow> 'w \<Rightarrow> cache_entry \<Rightarrow> bool" where
  "cached_entry env v addr w e \<longleftrightarrow>
     ic_cache (identityCache v) addr = Some e
     \<and> (\<forall>t. ic_ExpiresAt e = Some t \<longrightarrow> fst (ve_now env w) \<le> t)
     \<and> (\<forall>i. ic_Identity e = Some i \<longrightarrow> ServerAddress i = addr)"

definition store_answer :: "'w verify_env \<Rightarrow> string \<Rightarrow> 'w \<Rightarrow> identity option" where
  "store_answer env addr w =
     (case ve_store env of
        None \<Rightarrow> None
      | Some S \<Rightarrow> (case GetIdentityByAddress S w addr of Inl e \<Rightarrow> None | Inr i \<Rightarrow> Some i))"

inductive key_source :: "'w verify_env \<Rightarrow> verifier \<Rightarrow> string \<Rightarrow> 'w \<Rightarrow> bytes \<Rightarrow> bool"
  for env v addr w where
  from_cache: "cached_entry env v addr w e \<Longrightarrow> key_source env v addr w (ic_PublicKey e)"
| from_store: "\<nexists>e. cached_entry env v addr w e \<Longrightarrow> store_answer env addr (snd (ve_now env w)) = Some i
    \<Longrightarrow> ServerAddress i = addr \<Longrightarrow> key_source env v addr w (PublicKey i)"
| from_peer: "\<nexists>e. cached_entry env v addr w e \<Longrightarrow> store_answer env addr (snd (ve_now env w)) = None
    \<Longrightarrow> ve_dial env (suffix '':443'' addr) addr (snd (ve_now env w)) = (None, w2)
    \<Longrightarrow> ve_GetIdentity env addr w2 = (Inr i, w3)
    \<Longrightarrow> \<forall>S. ve_store env = Some S \<longrightarrow> fst (InsertIdentity S w3 i) = None
    \<Longrightarrow> ServerAddress i = addr \<Longrightarrow> key_source env v addr w (PublicKey i)"

lemma cached_peer_entry:
  "fst (cached_peer env v addr w) = Some e \<longleftrightarrow> cached_entry env v addr w e"
  by (auto simp: cached_peer_def GetWithAddressCheck_def Cache_Get_def expired_def cached_entry_def Let_def split_def not_less
      split: option.splits if_splits)

lemma cached_peer_world: "snd (snd (cached_peer env v addr w)) = snd (ve_now env w)"
  by (simp add: cached_peer_def Let_def split_def)

lemma lookup_Inr_iff:
  "(\<exists>w'. getPeerIdentityFromStoreOrRemote env addr w = (Inr i, w')) \<longleftrightarrow>
     store_answer env addr w = Some i
     \<or> store_answer env addr w = None
       \<and> (\<exists>w2 w3. ve_dial env (suffix '':443'' addr) addr w = (None, w2) \<and> ve_GetIdentity env addr w2 = (Inr i, w3)
          \<and> (\<forall>S. ve_store env = Some S \<longrightarrow> fst (InsertIdentity S w3 i) = None))"
proof (cases "store_answer env addr w")
  case (Some x)
  then obtain S where "ve_store env = Some S" "GetIdentityByAddress S w addr = Inr x"
    by (auto simp: store_answer_def split: option.splits sum.splits)
  with Some show ?thesis by (auto simp: getPeerIdentityFromStoreOrRemote_def Let_def split_def)
next
  case None
  obtain e w2 where d: "ve_dial env (suffix '':443'' addr) addr w = (e, w2)" by fastforce
  obtain r w3 where g: "ve_GetIdentity env addr w2 = (r, w3)" by fastforce
  have c: "NewClient env addr w = (e, w2)" using d by (cases "suffix '':443'' addr") (simp_all add: NewClient_def)
  show ?thesis
  proof (cases "ve_store env")
    case None
    with \<open>store_answer env addr w = None\<close> c d g show ?thesis
      by (cases e; cases r) (simp_all add: getPeerIdentityFromStoreOrRemote_def getPeerIdentity_def)
  next
    case (Some S)
    with None obtain x where x: "GetIdentityByAddress S w addr = Inl x" by (auto simp: store_answer_def split: sum.splits)
    obtain e3 w4 where "InsertIdentity S w3 i = (e3, w4)" by fastforce
    with Some None x c d g show ?thesis
      by (cases e; cases r; cases e3) (auto simp: getPeerIdentityFromStoreOrRemote_def getPeerIdentity_def split: prod.splits option.splits)
  qed
qed

inductive_simps key_source_simp: "key_source env v addr w key"

lemma key_source_iff: "key_source env v addr w key \<longleftrightarrow> peer_key env v addr w = Some key"
proof (cases "\<exists>e. cached_entry env v addr w e")
  case True
  then obtain e where e: "cached_entry env v addr w e" by blast
  then have u: "cached_entry env v addr w e' \<longleftrightarrow> e' = e" for e' by (auto simp: cached_entry_def)
  have "peer_key env v addr w = Some (ic_PublicKey e)"
    using e cached_peer_entry [of env v addr w e] by (auto simp: peer_key_def split: prod.split)
  then show ?thesis unfolding key_source_simp u by auto
next
  case False
  then have "fst (cached_peer env v addr w) = None" using cached_peer_entry [of env v addr w] by (metis option.exhaust)
  then obtain v1 where c: "cached_peer env v addr w = (None, v1, snd (ve_now env w))"
    using cached_peer_world [of env v addr w] by (metis prod.collapse)
  obtain x w2 where x: "getPeerIdentityFromStoreOrRemote env addr (snd (ve_now env w)) = (x, w2)" by fastforce
  have "peer_key env v addr w = Some key \<longleftrightarrow>
      (\<exists>i. (\<exists>w'. getPeerIdentityFromStoreOrRemote env addr (snd (ve_now env w)) = (Inr i, w')) \<and> ServerAddress i = addr
        \<and> PublicKey i = key)"
    by (cases x) (simp_all add: peer_key_def c x)
  also have "\<dots> \<longleftrightarrow> key_source env v addr w key"
    unfolding lookup_Inr_iff key_source_simp using False by blast
  finally show ?thesis by simp
qed

text \<open>C10: what is accepted is signed, under a key of the signer. \<open>VerifyMessageSignature\<close> accepts exactly
  the messages that carry a non-empty signature with a signer's address, for which there is a
  key from one of the three sources in their order (cache, store, the peer itself; see
  \<open>key_source\<close>), of 32 bytes, and under which the signature of the message's hash verifies.\<close>

theorem VerifyMessageSignature_accepts_iff:
  "fst (VerifyMessageSignature env v message sigo w) = None \<longleftrightarrow>
     (\<exists>sg key. sigo = Some sg \<and> sig_Signature sg \<noteq> [] \<and> SignerAddress sg \<noteq> ''''
        \<and> key_source env v (SignerAddress sg) w key
        \<and> length key = 32 \<and> ed_Verify (ve_ed env) key (ve_sha env message) (sig_Signature sg))"
  unfolding key_source_iff by (rule VerifyMessageSignature_iff_key)

text \<open>A peer can crash the verifying server. When the key found for a signer's address has
  not 32 bytes, which nothing checks for an identity that the peer itself reports, then
  verifying any non-empty signature panics.\<close>

theorem bad_key_length_panics:
  assumes "sig_Signature sg \<noteq> []" "SignerAddress sg \<noteq> ''''"
    and "peer_key env v (SignerAddress sg) w = Some key" "length key \<noteq> 32"
  shows "fst (VerifyMessageSignature env v message (Some sg) w) = Some (Panic ''ed25519: bad public key length'')"
proof -
  obtain r v1 w1 where c: "cached_peer env v (SignerAddress sg) w = (r, v1, w1)" by (metis prod_cases3)
  show ?thesis
  proof (cases r)
    case None
    with assms(3) c obtain i w2 where
      "getPeerIdentityFromStoreOrRemote env (SignerAddress sg) w1 = (Inr i, w2)"
      "ServerAddress i = SignerAddress sg" "PublicKey i = key"
      by (auto simp: peer_key_def split: prod.splits sum.splits if_splits)
    with None c assms(1,2,4) show ?thesis
      by (simp add: VerifyMessageSignature_def check_signature_panic)
  next
    case (Some e)
    with assms c show ?thesis
      by (simp add: VerifyMessageSignature_def peer_key_def check_signature_panic)
  qed
qed

section \<open>What is cached\<close>

text \<open>An entry is new when it was not in the cache of the verifier before.\<close>

definition verified_entry :: "'w verify_env \<Rightarrow> bytes \<Rightarrow> bytes \<Rightarrow> string \<Rightarrow> cache_entry \<Rightarrow> bool" where
  "verified_entry env message sg addr e \<longleftrightarrow>
     (\<exists>i. ic_Identity e = Some i \<and> ServerAddress i = addr \<and> ic_PublicKey e = PublicKey i
        \<and> length (PublicKey i) = 32 \<and> ed_Verify (ve_ed env) (PublicKey i) (ve_sha env message) sg)"

lemma GetWithAddressCheck_cache:
  "GetWithAddressCheck cm addr now = (r, cm') \<Longrightarrow> ic_cache cm' a = Some e \<Longrightarrow> ic_cache cm a = Some e"
  by (auto simp: GetWithAddressCheck_def Cache_Get_def split: option.splits if_splits)

lemma cached_peer_cache:
  "cached_peer env v addr w = (r, v1, w1) \<Longrightarrow> ic_cache (identityCache v1) a = Some e \<Longrightarrow>
     ic_cache (identityCache v) a = Some e"
  by (auto simp: cached_peer_def Let_def split: prod.splits dest: GetWithAddressCheck_cache)

lemma cached_peer_chain: "cached_peer env v addr w = (r, v1, w1) \<Longrightarrow> hashChain v1 = hashChain v"
  by (auto simp: cached_peer_def Let_def split: prod.splits)

lemma chain_check_cache: "chain_check env v message sg w = (r, v1, w1) \<Longrightarrow> identityCache v1 = identityCache v"
  by (auto simp: chain_check_def Let_def split: prod.splits)

lemma Cache_Set_verified:
  "check_signature env (PublicKey i) message sg err = None \<Longrightarrow> ServerAddress i = addr \<Longrightarrow>
   ic_cache (Cache_Set cm addr i now) a = Some e \<Longrightarrow>
     ic_cache cm a = Some e \<or> a = addr \<and> verified_entry env message sg addr e"
  by (auto simp: Cache_Set_def verified_entry_def check_signature_None_iff split: if_splits)

lemma VerifyMessageSignature_cache:
  assumes "VerifyMessageSignature env v message (Some sg) w = (r, v', w')"
    and "ic_cache (identityCache v') a = Some e" "ic_cache (identityCache v) a \<noteq> Some e"
  shows "r = None \<and> a = SignerAddress sg \<and> verified_entry env message (sig_Signature sg) a e"
proof -
  obtain c v1 w1 where c: "cached_peer env v (SignerAddress sg) w = (c, v1, w1)" by (metis prod_cases3)
  have old: "ic_cache (identityCache v1) a \<noteq> Some e" using cached_peer_cache [OF c] assms(3) by blast
  obtain x w2 where x: "getPeerIdentityFromStoreOrRemote env (SignerAddress sg) w1 = (x, w2)" by fastforce
  have v': "v' \<noteq> v" "v' \<noteq> v1" using assms(2,3) old by auto
  then obtain i now where i: "x = Inr i" "ServerAddress i = SignerAddress sg" and r: "r = None"
    and ok: "check_signature env (PublicKey i) message (sig_Signature sg) ''invalid signature for %s'' = None"
    and set: "v' = v1\<lparr>identityCache := Cache_Set (identityCache v1) (SignerAddress sg) i now\<rparr>"
    using assms(1) c x
    by (auto simp: VerifyMessageSignature_def Let_def split: if_splits option.splits sum.splits prod.splits)
  from Cache_Set_verified [OF ok i(2), of "identityCache v1" now a e] old assms(2) set r show ?thesis by auto
qed

text \<open>The ways through \<open>VerifyOrderedSignature\<close>.\<close>

lemma VerifyOrderedSignature_cases:
  assumes "VerifyOrderedSignature env v message (Some sg) w = (r, v', w')"
  obtains (refused) "r \<noteq> None" "v' = v \<or> (\<exists>c w1. cached_peer env v (SignerAddress sg) w = (c, v', w1))"
  | (cached) cached v1 w1 where "cached_peer env v (SignerAddress sg) w = (Some cached, v1, w1)"
      "check_signature env (ic_PublicKey cached) message (sig_Signature sg)
         ''invalid ordered signature for cached identity %s'' = None"
      "chain_check env v1 message sg w1 = (r, v', w')"
  | (fetched) v1 w1 i w2 now w3 where "cached_peer env v (SignerAddress sg) w = (None, v1, w1)"
      "getPeerIdentityFromStoreOrRemote env (SignerAddress sg) w1 = (Inr i, w2)"
      "ServerAddress i = SignerAddress sg"
      "check_signature env (PublicKey i) message (sig_Signature sg) ''invalid ordered signature for %s'' = None"
      "ve_now env w2 = (now, w3)"
      "chain_check env (v1\<lparr>identityCache := Cache_Set (identityCache v1) (SignerAddress sg) i now\<rparr>) message sg w3
         = (r, v', w')"
proof (cases "sig_Signature sg = [] \<or> SignerAddress sg = '''' \<or> os_Sequence sg = 0")
  case True
  with assms have "r \<noteq> None" "v' = v" by (auto simp: VerifyOrderedSignature_def split: if_splits)
  then show thesis by (intro refused) simp_all
next
  case False
  obtain c v1 w1 where c: "cached_peer env v (SignerAddress sg) w = (c, v1, w1)" by (metis prod_cases3)
  show thesis
  proof (cases c)
    case (Some e)
    let ?chk = "check_signature env (ic_PublicKey e) message (sig_Signature sg)
         ''invalid ordered signature for cached identity %s''"
    from assms False c Some have run: "(case ?chk of Some e \<Rightarrow> (Some e, v1, w1)
       | None \<Rightarrow> chain_check env v1 message sg w1) = (r, v', w')"
      by (simp add: VerifyOrderedSignature_def)
    show thesis
    proof (cases ?chk)
      case None
      with run have "chain_check env v1 message sg w1 = (r, v', w')" by simp
      with c Some None show thesis by (intro cached) simp_all
    next
      case (Some x)
      with run have "r = Some x" "v' = v1" by simp_all
      with c show thesis by (intro refused) auto
    qed
  next
    case None
    obtain x w2 where x: "getPeerIdentityFromStoreOrRemote env (SignerAddress sg) w1 = (x, w2)" by fastforce
    show thesis
    proof (cases x)
      case (Inl y)
      with assms False c None x have "r \<noteq> None" "v' = v1" by (auto simp: VerifyOrderedSignature_def)
      with c show thesis by (intro refused) auto
    next
      case (Inr i)
      let ?chk = "check_signature env (PublicKey i) message (sig_Signature sg) ''invalid ordered signature for %s''"
      obtain now w3 where now: "ve_now env w2 = (now, w3)" by fastforce
      let ?v2 = "v1\<lparr>identityCache := Cache_Set (identityCache v1) (SignerAddress sg) i now\<rparr>"
      from assms False c None x Inr now have run:
        "(if ServerAddress i \<noteq> SignerAddress sg
          then (Some (Errorf ''address mismatch in ordered signature: identity reports %q, signature claims %q''), v1, w2)
          else case ?chk of Some e \<Rightarrow> (Some e, v1, w2) | None \<Rightarrow> chain_check env ?v2 message sg w3) = (r, v', w')"
        by (simp add: VerifyOrderedSignature_def Let_def cong: if_cong option.case_cong)
      show thesis
      proof (cases "ServerAddress i = SignerAddress sg \<and> ?chk = None")
        case True
        with run have "chain_check env ?v2 message sg w3 = (r, v', w')" by simp
        with c None x Inr now True show thesis by (intro fetched) simp_all
      next
        case False
        with run have "r \<noteq> None \<and> v' = v1" by (cases "ServerAddress i = SignerAddress sg"; cases ?chk) auto
        with c show thesis by (intro refused) auto
      qed
    qed
  qed
qed

lemma VerifyOrderedSignature_cache:
  assumes "VerifyOrderedSignature env v message (Some sg) w = (r, v', w')"
    and "ic_cache (identityCache v') a = Some e" "ic_cache (identityCache v) a \<noteq> Some e"
  shows "a = SignerAddress sg \<and> verified_entry env message (sig_Signature sg) a e"
  using assms(1)
proof (cases rule: VerifyOrderedSignature_cases)
  case refused
  with assms(2,3) show ?thesis using cached_peer_cache by metis
next
  case (cached cached v1 w1)
  with assms(2,3) chain_check_cache [OF cached(3)] cached_peer_cache [OF cached(1)] show ?thesis by metis
next
  case (fetched v1 w1 i w2 now w3)
  have "ic_cache (identityCache v1) a \<noteq> Some e" using cached_peer_cache [OF fetched(1)] assms(3) by blast
  moreover have "ic_cache (Cache_Set (identityCache v1) (SignerAddress sg) i now) a = Some e"
    using assms(2) chain_check_cache [OF fetched(6)] by simp
  ultimately show ?thesis using Cache_Set_verified [OF fetched(4,3)] by blast
qed

text \<open>C25: keys are cached only after they have verified a signature. A cache entry that was not
  there before a call is at the signer's address, holds an identity that names this address,
  and its key has just verified the message. This holds for both kinds of signature.\<close>

theorem cached_only_after_verification:
  assumes "VerifyMessageSignature env v message (Some (signature.truncate sg)) w = (r, v', w')
      \<or> VerifyOrderedSignature env v message (Some sg) w = (r, v', w')"
    and "ic_cache (identityCache v') a = Some e" "ic_cache (identityCache v) a \<noteq> Some e"
  shows "a = SignerAddress sg \<and> verified_entry env message (sig_Signature sg) a e"
  using assms(1)
proof
  assume "VerifyMessageSignature env v message (Some (signature.truncate sg)) w = (r, v', w')"
  from VerifyMessageSignature_cache [OF this assms(2,3)] show ?thesis by (auto simp: signature.defs)
next
  assume "VerifyOrderedSignature env v message (Some sg) w = (r, v', w')"
  from VerifyOrderedSignature_cache [OF this assms(2,3)] show ?thesis .
qed

text \<open>Runs of one verifier, in any order of calls and with any clock and peers.\<close>

inductive verifier_run :: "'w verify_env \<Rightarrow> verifier \<Rightarrow> bool" for env where
  new: "verifier_run env (NewVerifier ttl)"
| message: "verifier_run env v \<Longrightarrow> VerifyMessageSignature env v m s w = (r, v', w') \<Longrightarrow> verifier_run env v'"
| ordered: "verifier_run env v \<Longrightarrow> VerifyOrderedSignature env v m os w = (r, v', w') \<Longrightarrow> verifier_run env v'"
| add: "verifier_run env v \<Longrightarrow> AddPeerIdentity env v a k w = (v', w') \<Longrightarrow> verifier_run env v'"
| clear: "verifier_run env v \<Longrightarrow> verifier_run env (ClearIdentityCache v)"
| cleanup: "verifier_run env v \<Longrightarrow> verifier_run env (CleanupIdentityCache v now)"
| clear_chain: "verifier_run env v \<Longrightarrow> verifier_run env (ClearHashChain v)"
| cleanup_chain: "verifier_run env v \<Longrightarrow> verifier_run env (CleanupHashChain v now)"

definition entry_consistent :: "string \<Rightarrow> cache_entry \<Rightarrow> bool" where
  "entry_consistent a e \<longleftrightarrow>
     (case ic_Identity e of None \<Rightarrow> True | Some i \<Rightarrow> ServerAddress i = a \<and> ic_PublicKey e = PublicKey i)"

definition cache_consistent :: "verifier \<Rightarrow> bool" where
  "cache_consistent v \<longleftrightarrow> (\<forall>a e. ic_cache (identityCache v) a = Some e \<longrightarrow> entry_consistent a e)"

lemma verified_entry_consistent: "verified_entry env message sg a e \<Longrightarrow> entry_consistent a e"
  by (auto simp: verified_entry_def entry_consistent_def)

lemma verifier_run_consistent: "verifier_run env v \<Longrightarrow> cache_consistent v"
proof (induction rule: verifier_run.induct)
  case (new ttl)
  then show ?case by (simp add: cache_consistent_def NewVerifier_def NewIdentityCacheManager_def)
next
  case (message v m s w r v' w')
  show ?case
  proof (cases s)
    case None
    with message show ?thesis by (simp add: VerifyMessageSignature_def)
  next
    case (Some sg)
    show ?thesis unfolding cache_consistent_def
    proof (intro allI impI)
      fix a e assume "ic_cache (identityCache v') a = Some e"
      with VerifyMessageSignature_cache [of env v m sg w r v' w' a e] message Some show "entry_consistent a e"
        by (auto simp: cache_consistent_def dest: verified_entry_consistent)
    qed
  qed
next
  case (ordered v m os w r v' w')
  show ?case
  proof (cases os)
    case None
    with ordered show ?thesis by (simp add: VerifyOrderedSignature_def)
  next
    case (Some sg)
    show ?thesis unfolding cache_consistent_def
    proof (intro allI impI)
      fix a e assume "ic_cache (identityCache v') a = Some e"
      with VerifyOrderedSignature_cache [of env v m sg w r v' w' a e] ordered Some show "entry_consistent a e"
        by (auto simp: cache_consistent_def dest: verified_entry_consistent)
    qed
  qed
next
  case (add v a k w v' w')
  then show ?case
    by (auto simp: AddPeerIdentity_def SetPublicKey_def cache_consistent_def entry_consistent_def Let_def
        split: prod.splits if_splits)
next
  case (clear v)
  then show ?case by (simp add: cache_consistent_def ClearIdentityCache_def Cache_Clear_def)
next
  case (cleanup v now)
  then show ?case
    by (simp add: cache_consistent_def CleanupIdentityCache_def Cache_Cleanup_def sweep_Some_iff)
next
  case (clear_chain v)
  then show ?case by (simp add: cache_consistent_def ClearHashChain_def)
next
  case (cleanup_chain v now)
  then show ?case by (simp add: cache_consistent_def CleanupHashChain_def)
qed

text \<open>C34: the cache is never inconsistent. In every run of a verifier each cached identity stands
  at its own address with its own key, so the address check of \<open>GetWithAddressCheck\<close> never
  rejects an entry: it always answers as \<open>Get\<close> does.\<close>

theorem address_check_never_fires:
  assumes "verifier_run env v"
  shows "(\<forall>e i. ic_cache (identityCache v) addr = Some e \<longrightarrow> ic_Identity e = Some i
        \<longrightarrow> ServerAddress i = addr \<and> ic_PublicKey e = PublicKey i)
    \<and> GetWithAddressCheck (identityCache v) addr now = Cache_Get (identityCache v) addr now"
proof -
  have e: "entry_consistent addr e" if "ic_cache (identityCache v) addr = Some e" for e
    using verifier_run_consistent [OF assms] that by (simp add: cache_consistent_def)
  then have "GetWithAddressCheck (identityCache v) addr now = Cache_Get (identityCache v) addr now"
    by (auto simp: GetWithAddressCheck_def Cache_Get_def entry_consistent_def split: option.splits)
  with e show ?thesis by (fastforce simp: entry_consistent_def)
qed

section \<open>A server: the SQL store and the network\<close>

text \<open>
  The world of a running server is its database and whatever the clock and the network depend
  on; \<open>server_env\<close> is the environment its verifier runs in.
\<close>

record 'n server_world =
  sw_db :: database
  sw_net :: 'n

record 'n network =
  nw_now :: "'n \<Rightarrow> int \<times> 'n"
  nw_dial :: "bool \<Rightarrow> string \<Rightarrow> 'n \<Rightarrow> go_error option \<times> 'n"
  nw_GetIdentity :: "string \<Rightarrow> 'n \<Rightarrow> identity res \<times> 'n"

definition on_net :: "('n \<Rightarrow> 'a \<times> 'n) \<Rightarrow> 'n server_world \<Rightarrow> 'a \<times> 'n server_world" where
  "on_net f w = (let (r, n) = f (sw_net w) in (r, w\<lparr>sw_net := n\<rparr>))"

definition on_db :: "(database \<Rightarrow> 'a \<times> database) \<Rightarrow> 'n server_world \<Rightarrow> 'a \<times> 'n server_world" where
  "on_db f w = (let (r, d) = f (sw_db w) in (r, w\<lparr>sw_db := d\<rparr>))"

definition server_store :: "json_codec \<Rightarrow> 'n server_world store_ops" where
  "server_store j =
     \<lparr>InsertIdentity = (\<lambda>w i. on_db (\<lambda>d. SQLStore_InsertIdentity j d i) w),
      GetIdentityByAddress = (\<lambda>w a. SQLStore_GetIdentityByAddress j (sw_db w) a),
      UpdateLastSeen = (\<lambda>w a t. on_db (\<lambda>d. SQLStore_UpdateLastSeen d a t) w),
      ListIdentities = (\<lambda>w. SQLStore_ListIdentities j (sw_db w)),
      SetTrustStatus = (\<lambda>w a b t. on_db (\<lambda>d. SQLStore_SetTrustStatus d a b t) w)\<rparr>"

definition server_env :: "json_codec \<Rightarrow> ed25519 \<Rightarrow> (bytes \<Rightarrow> bytes) \<Rightarrow> 'n network \<Rightarrow> 'n server_world verify_env" where
  "server_env j ed sha net =
     \<lparr>ve_now = on_net (nw_now net), ve_dial = (\<lambda>tls a. on_net (nw_dial net tls a)),
      ve_GetIdentity = (\<lambda>a. on_net (nw_GetIdentity net a)), ve_store = Some (server_store j),
      ve_ed = ed, ve_sha = sha\<rparr>"

lemma on_net_db [simp]: "sw_db (snd (on_net f w)) = sw_db w"
  by (simp add: on_net_def split: prod.split)

lemma on_net_dbD: "on_net f w = (r, w') \<Longrightarrow> sw_db w' = sw_db w"
  by (metis on_net_db snd_conv)

lemma fst_on_db [simp]: "fst (on_db f w) = fst (f (sw_db w))"
  by (simp add: on_db_def split: prod.split)

lemma snd_on_db [simp]: "sw_db (snd (on_db f w)) = snd (f (sw_db w))"
  by (simp add: on_db_def split: prod.split)

lemma server_env_sel [simp]:
  "ve_now (server_env j ed sha net) = on_net (nw_now net)"
  "ve_dial (server_env j ed sha net) tls a = on_net (nw_dial net tls a)"
  "ve_GetIdentity (server_env j ed sha net) a = on_net (nw_GetIdentity net a)"
  "ve_store (server_env j ed sha net) = Some (server_store j)"
  "ve_ed (server_env j ed sha net) = ed" "ve_sha (server_env j ed sha net) = sha"
  by (simp_all add: server_env_def)

lemma known_server_store [simp]: "known (server_store j) w a = known (SQLStore j) (sw_db w) a"
  by (simp add: known_def server_store_def SQLStore_def)

lemma run_op_server_store [simp]: "sw_db (snd (run_op (server_store j) w op)) = snd (run_op (SQLStore j) (sw_db w) op)"
  by (cases op) (simp_all add: run_op_def server_store_def SQLStore_def)

lemma knownD:
  "known S w a = Some (k, b) \<Longrightarrow> \<exists>i. GetIdentityByAddress S w a = Inr i \<and> PublicKey i = k \<and> IsTrusted i = b"
  "known S w a = None \<Longrightarrow> \<exists>e. GetIdentityByAddress S w a = Inl e"
  by (auto simp: known_def split: sum.splits)

text \<open>What a verifier relies on: a store, and a network that does not touch it.\<close>

locale verifying_server = identity_store S sinv up stored
  for S :: "'w store_ops" and sinv up stored +
  fixes env :: "'w verify_env"
  assumes env_store: "ve_store env = Some S"
    and now_store: "ve_now env w = (t, w') \<Longrightarrow> sinv w' = sinv w \<and> up w' = up w \<and> stored w' = stored w"
    and dial_store: "ve_dial env tls a w = (e, w') \<Longrightarrow> sinv w' = sinv w \<and> up w' = up w \<and> stored w' = stored w"
    and peer_store: "ve_GetIdentity env a w = (r, w') \<Longrightarrow> sinv w' = sinv w \<and> up w' = up w \<and> stored w' = stored w"
begin

lemma getPeerIdentity_store:
  "getPeerIdentity env a w = (r, w') \<Longrightarrow> sinv w' = sinv w \<and> up w' = up w \<and> stored w' = stored w"
  by (auto simp: getPeerIdentity_def NewClient_def split: prod.splits sum.splits option.splits if_splits
      dest!: dial_store peer_store)

text \<open>The remote identity is written to the store as it is, before anything is checked.\<close>

lemma fetched_is_stored:
  assumes "sinv w" "up w" "known S w a = None" "getPeerIdentityFromStoreOrRemote env a w = (Inr i, w')"
    and "known S w (ServerAddress i) = None"
  shows "known S w' (ServerAddress i) = Some (PublicKey i, IsTrusted i) \<and> sinv w' \<and> up w'"
proof -
  obtain r w1 where g: "getPeerIdentity env a w = (r, w1)" by fastforce
  with knownD(2) [OF assms(3)] env_store assms(4) have i: "r = Inr i" "InsertIdentity S w1 i = (None, w')"
    by (auto simp: getPeerIdentityFromStoreOrRemote_def Let_def split: sum.splits prod.splits option.splits)
  from getPeerIdentity_store [OF g] assms(1,2) have 1: "sinv w1" "up w1" "stored w1 = stored w" by simp_all
  with unknown_iff [of w "ServerAddress i"] unknown_iff [of w1 "ServerAddress i"] assms(1,2,5)
  have "known S w1 (ServerAddress i) = None" by simp
  from insert_known(2) [OF 1(1,2) i(2) this] run_op_inv [OF 1(1), of "Op_Insert i"] 1(2) i(2)
  show ?thesis by (simp add: run_op_def)
qed

lemma known_is_key:
  assumes "sinv w" "known S w a = Some (k, b)"
  shows "\<exists>i w'. getPeerIdentityFromStoreOrRemote env a w = (Inr i, w') \<and> PublicKey i = k \<and> ServerAddress i = a"
  using knownD(1) [OF assms(2)] env_store get_address [OF assms(1)]
  by (auto simp: getPeerIdentityFromStoreOrRemote_def Let_def split: prod.split)

lemma lookup_of_known:
  assumes "sinv w" "up w" "known S w a = Some (k, b)" "getPeerIdentityFromStoreOrRemote env a w = (r, w')"
  shows "sinv w' \<and> up w' \<and> stored w' = stored w"
proof -
  obtain t w1 where n: "ve_now env w = (t, w1)" by fastforce
  note same = now_store [OF n]
  from knownD(1) [OF assms(3)] obtain i where "GetIdentityByAddress S w a = Inr i" by blast
  with n assms(4) env_store have "w' = snd (UpdateLastSeen S w1 a t)"
    by (simp add: getPeerIdentityFromStoreOrRemote_def Let_def)
  with seen_stored [of w1 a t] run_op_inv [of w1 "Op_Seen a t"] same assms(1,2) show ?thesis
    by (simp add: run_op_def fun_eq_iff)
qed

text \<open>Checking a message of a known signer leaves what is stored as it is.\<close>

lemma verify_known:
  assumes "sinv w" "up w" "known S w (SignerAddress sg) = Some (k, b)"
    and "VerifyMessageSignature env v message (Some sg) w = (r, v', w')"
  shows "sinv w' \<and> up w' \<and> stored w' = stored w"
proof -
  obtain c v1 w1 where c: "cached_peer env v (SignerAddress sg) w = (c, v1, w1)" by (metis prod_cases3)
  then have "w1 = snd (ve_now env w)" by (auto simp: cached_peer_def Let_def split: prod.splits)
  then have 1: "sinv w1 \<and> up w1 \<and> stored w1 = stored w \<and> known S w1 (SignerAddress sg) \<noteq> None"
    using now_store [of w "fst (ve_now env w)" w1] assms(1-3) unknown_iff [of w "SignerAddress sg"] unknown_iff [of w1 "SignerAddress sg"]
    by simp
  obtain x w2 where x: "getPeerIdentityFromStoreOrRemote env (SignerAddress sg) w1 = (x, w2)" by fastforce
  have 2: "sinv w2 \<and> up w2 \<and> stored w2 = stored w"
    using lookup_of_known [OF _ _ _ x] 1 by (metis not_None_eq surj_pair)
  have 3: "sinv (snd (ve_now env w2)) \<and> up (snd (ve_now env w2)) \<and> stored (snd (ve_now env w2)) = stored w"
    using now_store [of w2 "fst (ve_now env w2)" "snd (ve_now env w2)"] 2 by simp
  have "w' = w \<or> w' = w1 \<or> w' = w2 \<or> w' = snd (ve_now env w2)"
    using assms(4) c x
    by (auto simp: VerifyMessageSignature_def Let_def split: if_splits option.splits sum.splits prod.splits)
  with assms(1,2) 1 2 3 show ?thesis by blast
qed

end

lemma server_store_sel [simp]:
  "GetIdentityByAddress (server_store j) w a = GetIdentityByAddress (SQLStore j) (sw_db w) a"
  "sw_db (snd (UpdateLastSeen (server_store j) w a t)) = snd (UpdateLastSeen (SQLStore j) (sw_db w) a t)"
  "sw_db (snd (SetTrustStatus (server_store j) w a b t)) = snd (SetTrustStatus (SQLStore j) (sw_db w) a b t)"
  "fst (SetTrustStatus (server_store j) w a b t) = fst (SetTrustStatus (SQLStore j) (sw_db w) a b t)"
  "InsertIdentity (server_store j) w i = on_db (\<lambda>d. InsertIdentity (SQLStore j) d i) w"
  by (simp_all add: server_store_def SQLStore_def)

lemma on_dbD: "on_db f w = (r, w') \<Longrightarrow> f (sw_db w) = (r, sw_db w')"
  by (auto simp: on_db_def Let_def split: prod.splits)

lemma server_store_identity_store:
  assumes "json_ok j"
  shows "identity_store (server_store j) (\<lambda>w. sql_inv j (sw_db w)) (\<lambda>w. db_up (sw_db w)) (\<lambda>w. db_stored (sw_db w))"
proof -
  note sql = SQLStore_identity_store [OF assms]
  show ?thesis
    by unfold_locales
      (use sql [THEN identity_store.run_op_inv] sql [THEN identity_store.get_address]
        sql [THEN identity_store.known_stored] sql [THEN identity_store.unknown_iff]
        sql [THEN identity_store.insert_stored] sql [THEN identity_store.seen_stored]
        sql [THEN identity_store.trust_stored] sql [THEN identity_store.trust_ok]
       in \<open>auto simp del: SQLStore_sel dest!: on_dbD\<close>)
qed

lemma server_verifying:
  assumes "json_ok j"
  shows "verifying_server (server_store j) (\<lambda>w. sql_inv j (sw_db w)) (\<lambda>w. db_up (sw_db w)) (\<lambda>w. db_stored (sw_db w))
    (server_env j ed sha net)"
  by (intro verifying_server.intro server_store_identity_store assms, unfold_locales)
    (auto simp: fun_eq_iff dest!: on_net_dbD)

interpretation serving: verifying_server "server_store example_json" "\<lambda>w. sql_inv example_json (sw_db w)"
    "\<lambda>w. db_up (sw_db w)" "\<lambda>w. db_stored (sw_db w)" "server_env example_json ed sha net" for ed sha net
  by (rule server_verifying) simp

section \<open>What a hostile peer can do\<close>

lemma cached_peer_db: "cached_peer (server_env j ed sha net) v a w = (r, v1, w1) \<Longrightarrow> sw_db w1 = sw_db w"
  by (auto simp: cached_peer_def Let_def split: prod.splits dest!: on_net_dbD)

lemma cached_peer_new [simp]:
  "cached_peer env (NewVerifier ttl) a w = (None, NewVerifier ttl, snd (ve_now env w))"
  by (simp add: cached_peer_def NewVerifier_def NewIdentityCacheManager_def GetWithAddressCheck_def
      Cache_Get_def split: prod.split)

text \<open>C16: a rejected identity is believed later. A peer that signs a request in the name of its
  own address but reports an identity with another, unknown address is refused with an address
  mismatch; still the store, right after, knows the reported key for the other address, with the
  trust the peer claimed for itself, and a fresh verifier on that store, whatever its lifetime,
  checks messages of the other address against this key. Both addresses were unknown before.\<close>

theorem rejected_identity_is_believed:
  assumes env: "env = server_env j ed sha net"
    and store: "json_ok j" "sql_inv j (sw_db w)" "db_up (sw_db w)"
    and signed: "sig_Signature sg \<noteq> []" "SignerAddress sg \<noteq> ''''"
    and uncached: "cached_peer env v (SignerAddress sg) w = (None, v1, w1)"
    and unknown: "known (SQLStore j) (sw_db w) (SignerAddress sg) = None"
      "known (SQLStore j) (sw_db w) (ServerAddress i) = None"
    and fetched: "getPeerIdentityFromStoreOrRemote env (SignerAddress sg) w1 = (Inr i, w2)"
    and mismatch: "ServerAddress i \<noteq> SignerAddress sg"
  shows "VerifyMessageSignature env v message (Some sg) w =
      (Some (Errorf ''address mismatch: identity reports %q, signature claims %q''), v1, w2)
    \<and> known (SQLStore j) (sw_db w2) (ServerAddress i) = Some (PublicKey i, IsTrusted i)
    \<and> peer_key env (NewVerifier ttl) (ServerAddress i) w2 = Some (PublicKey i)"
proof -
  note serving = server_verifying [OF store(1)]
  have db1: "sw_db w1 = sw_db w" using cached_peer_db uncached unfolding env by blast
  have k: "known (SQLStore j) (sw_db w2) (ServerAddress i) = Some (PublicKey i, IsTrusted i)"
    and inv: "sql_inv j (sw_db w2)"
    using verifying_server.fetched_is_stored [OF serving, of w1] store unknown fetched
    by (simp_all add: env db1)
  obtain x w3 where "getPeerIdentityFromStoreOrRemote env (ServerAddress i) (snd (ve_now env w2)) = (Inr x, w3)"
      "PublicKey x = PublicKey i" "ServerAddress x = ServerAddress i"
    using verifying_server.known_is_key [OF serving [where ed = ed and sha = sha and net = net],
        of "snd (ve_now env w2)" "ServerAddress i"] k inv
    by (auto simp: env)
  then have "peer_key env (NewVerifier ttl) (ServerAddress i) w2 = Some (PublicKey i)"
    by (simp add: peer_key_def)
  moreover have "VerifyMessageSignature env v message (Some sg) w =
      (Some (Errorf ''address mismatch: identity reports %q, signature claims %q''), v1, w2)"
    using signed uncached fetched mismatch by (simp add: VerifyMessageSignature_def)
  ultimately show ?thesis using k by blast
qed

lemma fst_VerifyAndAdd:
  "fst (VerifyAndAdd hm addr prev cur n now now') = None \<longleftrightarrow>
     (if n = 1 then prev = [] else chain_serve hm now addr = Some (prev, n - 1))"
  by (auto simp: VerifyAndAdd_def chain_serve_def split: option.splits)

text \<open>C15: ordered messages can be replayed. With a cached key, an ordered signature is accepted
  exactly when the signature of the message alone verifies and the number and previous hash it
  comes with are \<open>1\<close> and empty, or those that follow the last message the server accepted.
  Whoever has seen one signed message can therefore send it again at any later point of the
  chain, or restart the chain with it: nothing signed ties it to its place.\<close>

theorem ordered_acceptance:
  assumes cached: "cached_peer env v (SignerAddress sg) w = (Some c, v1, w1)"
  shows "fst (VerifyOrderedSignature env v message (Some (sg\<lparr>PreviousHash := p, os_Sequence := n\<rparr>)) w) = None \<longleftrightarrow>
      (sig_Signature sg \<noteq> [] \<and> SignerAddress sg \<noteq> '''' \<and> length (ic_PublicKey c) = 32
        \<and> ed_Verify (ve_ed env) (ic_PublicKey c) (ve_sha env message) (sig_Signature sg))
      \<and> (n = 1 \<and> p = []
         \<or> n \<noteq> 0 \<and> n \<noteq> 1 \<and> chain_serve (hashChain v) (fst (ve_now env w1)) (SignerAddress sg) = Some (p, n - 1))"
    (is "?accept \<longleftrightarrow> ?signed \<and> ?order")
proof -
  have ch: "fst (chain_check env v1 message (sg\<lparr>PreviousHash := p, os_Sequence := n\<rparr>) w1) = None \<longleftrightarrow>
      (if n = 1 then p = []
       else chain_serve (hashChain v) (fst (ve_now env w1)) (SignerAddress sg) = Some (p, n - 1))"
    using cached_peer_chain [OF cached] by (simp add: chain_check_def Let_def split_def fst_VerifyAndAdd)
  show ?thesis
    using cached ch check_signature_None_iff [of env "ic_PublicKey c" message "sig_Signature sg"]
    by (auto simp: VerifyOrderedSignature_def split: option.splits)
qed

section \<open>Instances\<close>

text \<open>
  A network with a ticking clock, in which every address answers: \<open>mallory:1\<close> with an identity
  that names \<open>alice:1\<close>, \<open>short:1\<close> with a key of three bytes, the others with their own.
\<close>

definition example_peer :: "string \<Rightarrow> identity" where
  "example_peer a =
     (if a = ''mallory:1'' then (example_identity 66 ''alice:1'' ''mallory'')\<lparr>IsTrusted := True\<rparr>
      else if a = ''short:1'' then (example_identity 3 a a)\<lparr>PublicKey := [1, 2, 3]\<rparr>
      else example_identity 65 a a)"

definition example_network :: "int network" where
  "example_network =
     \<lparr>nw_now = (\<lambda>n. (n, n + 1)), nw_dial = (\<lambda>tls a n. (None, n)),
      nw_GetIdentity = (\<lambda>a n. (Inr (example_peer a), n + 1))\<rparr>"

definition example_server :: "int server_world verify_env" where
  "example_server = server_env example_json example_ed (\<lambda>m. m) example_network"

definition example_world :: "int server_world" where
  "example_world = \<lparr>sw_db = empty_db, sw_net = 0\<rparr>"

definition example_sig :: "byte \<Rightarrow> string \<Rightarrow> bytes \<Rightarrow> signature" where
  "example_sig b a m = \<lparr>sig_Signature = replicate 32 b @ m, SignerAddress = a\<rparr>"

theorem bad_key_length_panics_witness:
  "fst (VerifyMessageSignature example_server (NewVerifier 10) [7] (Some (example_sig 3 ''short:1'' [7])) example_world)
     = Some (Panic ''ed25519: bad public key length'')"
proof -
  have "peer_key example_server (NewVerifier 10) (SignerAddress (example_sig 3 ''short:1'' [7])) example_world
     = Some [1, 2, 3]" by code_simp
  from bad_key_length_panics [OF _ _ this] show ?thesis by (simp add: example_sig_def)
qed

theorem rejected_identity_is_believed_witness:
  "peer_key example_server (NewVerifier 5) ''alice:1''
     (snd (snd (VerifyMessageSignature example_server (NewVerifier 10) [7] (Some (example_sig 66 ''mallory:1'' [7])) example_world)))
     = Some (replicate 32 66)"
proof -
  let ?sg = "example_sig 66 ''mallory:1'' [7]"
  let ?p = "cached_peer example_server (NewVerifier 10) ''mallory:1'' example_world"
  let ?g = "getPeerIdentityFromStoreOrRemote example_server ''mallory:1'' (snd (snd ?p))"
  have "fst ?p = None" by code_simp
  then have 1: "cached_peer example_server (NewVerifier 10) (SignerAddress ?sg) example_world
      = (None, fst (snd ?p), snd (snd ?p))" by (simp add: example_sig_def prod_eq_iff)
  have "fst ?g = Inr (example_peer ''mallory:1'')" by code_simp
  then have 2: "getPeerIdentityFromStoreOrRemote example_server (SignerAddress ?sg) (snd (snd ?p))
      = (Inr (example_peer ''mallory:1''), snd ?g)" by (simp add: example_sig_def prod_eq_iff)
  have 3: "known (SQLStore example_json) (sw_db example_world) (SignerAddress ?sg) = None"
    "known (SQLStore example_json) (sw_db example_world) (ServerAddress (example_peer ''mallory:1'')) = None"
    by code_simp+
  have 4: "sig_Signature ?sg \<noteq> []" "SignerAddress ?sg \<noteq> ''''"
    "ServerAddress (example_peer ''mallory:1'') \<noteq> SignerAddress ?sg" by code_simp+
  have 5: "ServerAddress (example_peer ''mallory:1'') = ''alice:1''" "PublicKey (example_peer ''mallory:1'') = replicate 32 66"
    by (simp_all add: example_peer_def example_identity_def)
  from rejected_identity_is_believed [OF example_server_def json_ok_example _ _ 4(1,2) 1 3 2 4(3), of "[7]" 5]
  show ?thesis by (simp add: example_world_def 5)
qed

definition example_osig :: "byte \<Rightarrow> string \<Rightarrow> bytes \<Rightarrow> bytes \<Rightarrow> 64 word \<Rightarrow> ordered_signature" where
  "example_osig b a m p n =
     \<lparr>sig_Signature = replicate 32 b @ m, SignerAddress = a, PreviousHash = p, os_Sequence = n\<rparr>"

definition example_verifier :: verifier where
  "example_verifier =
     \<lparr>identityCache = SetPublicKey (NewIdentityCacheManager 0) ''alice:1'' (replicate 32 65) 0,
      hashChain = hm_add (NewHashChainManager 10) ''alice:1'' [9] 5 0\<rparr>"

theorem ordered_acceptance_witness:
  "fst (VerifyOrderedSignature example_server example_verifier [7]
     (Some (example_osig 65 ''alice:1'' [7] [9] 6)) example_world) = None"
proof -
  let ?sg = "example_osig 65 ''alice:1'' [7] [] 0"
  let ?p = "cached_peer example_server example_verifier ''alice:1'' example_world"
  let ?c = "\<lparr>ic_Identity = None, ic_PublicKey = replicate 32 65, ic_ExpiresAt = None\<rparr>"
  have "fst ?p = Some ?c" by code_simp
  then have "cached_peer example_server example_verifier (SignerAddress ?sg) example_world
      = (Some ?c, fst (snd ?p), snd (snd ?p))"
    by (simp add: example_osig_def prod_eq_iff)
  note accept = ordered_acceptance [OF this, where message = "[7]" and p = "[9]" and n = 6]
  have "chain_serve (hashChain example_verifier) (fst (ve_now example_server (snd (snd ?p)))) (SignerAddress ?sg)
      = Some ([9], 6 - 1)"
    "ed_Verify (ve_ed example_server) (ic_PublicKey ?c) (ve_sha example_server [7]) (sig_Signature ?sg)"
    "sig_Signature ?sg \<noteq> []" "SignerAddress ?sg \<noteq> ''''" "length (ic_PublicKey ?c) = 32"
    by code_simp+
  moreover have "(6 :: 64 word) \<noteq> 0" "(6 :: 64 word) \<noteq> 1" by simp_all
  ultimately have "fst (VerifyOrderedSignature example_server example_verifier [7]
      (Some (?sg\<lparr>PreviousHash := [9], os_Sequence := 6\<rparr>)) example_world) = None" using accept by blast
  moreover have "?sg\<lparr>PreviousHash := [9], os_Sequence := 6\<rparr>
      = example_osig 65 ''alice:1'' [7] [9] 6"
    by (simp add: example_osig_def)
  ultimately show ?thesis by (simp only:)
qed

theorem cached_only_after_verification_witness:
  "verified_entry example_server [7] (replicate 32 65 @ [7]) ''bob:1''
     \<lparr>ic_Identity = Some (example_peer ''bob:1''), ic_PublicKey = replicate 32 65, ic_ExpiresAt = Some 12\<rparr>"
proof -
  let ?sg = "example_osig 65 ''bob:1'' [7] [] 1"
  let ?r = "VerifyOrderedSignature example_server (NewVerifier 10) [7] (Some ?sg) example_world"
  let ?e = "\<lparr>ic_Identity = Some (example_peer ''bob:1''), ic_PublicKey = replicate 32 65, ic_ExpiresAt = Some 12\<rparr>"
  have 1: "ic_cache (identityCache (fst (snd ?r))) ''bob:1'' = Some ?e" by code_simp
  have 2: "ic_cache (identityCache (NewVerifier 10)) ''bob:1'' \<noteq> Some ?e" by code_simp
  have "?r = (fst ?r, fst (snd ?r), snd (snd ?r))" by simp
  from cached_only_after_verification [OF disjI2, OF this 1 2]
  have "verified_entry example_server [7] (sig_Signature ?sg) ''bob:1'' ?e" by blast
  then show ?thesis by (simp add: example_osig_def)
qed

text \<open>After a message of \<open>bob:1\<close> was verified, its identity is served with and without the check.\<close>

theorem address_check_never_fires_witness:
  "let v = fst (snd (VerifyMessageSignature example_server (NewVerifier 10) [7] (Some (example_sig 65 ''bob:1'' [7])) example_world))
   in map_option ic_Identity (fst (GetWithAddressCheck (identityCache v) ''bob:1'' 3)) = Some (Some (example_peer ''bob:1''))
    \<and> GetWithAddressCheck (identityCache v) ''bob:1'' 3 = Cache_Get (identityCache v) ''bob:1'' 3
    \<and> map_option ic_PublicKey (ic_cache (identityCache v) ''bob:1'') = Some (PublicKey (example_peer ''bob:1''))
    \<and> ServerAddress (example_peer ''bob:1'') = ''bob:1''"
proof -
  let ?r = "VerifyMessageSignature example_server (NewVerifier 10) [7] (Some (example_sig 65 ''bob:1'' [7])) example_world"
  let ?v = "fst (snd ?r)"
  have r: "?r = (fst ?r, ?v, snd (snd ?r))" by simp
  have run: "verifier_run example_server ?v" by (rule verifier_run.message [OF verifier_run.new r])
  have 1: "map_option ic_Identity (fst (GetWithAddressCheck (identityCache ?v) ''bob:1'' 3)) = Some (Some (example_peer ''bob:1''))"
    by code_simp
  have "map_option ic_Identity (ic_cache (identityCache ?v) ''bob:1'') = Some (Some (example_peer ''bob:1''))" by code_simp
  then obtain e where e: "ic_cache (identityCache ?v) ''bob:1'' = Some e" "ic_Identity e = Some (example_peer ''bob:1'')"
    by auto
  from address_check_never_fires [OF run, of "''bob:1''" 3] e 1 show ?thesis unfolding Let_def by simp
qed

end
