(* ===== verification/Srv_Known.thy ===== *)
theory Srv_Known
  imports Srv_Verifier
begin

text \<open>
  Verifiers that know a key. A verifier knows the key of an address until a moment \<open>t\<close> when it is in
  its cache for so long, or nothing is there and the key can be had from the store or from the peer
  itself; then it accepts that peer's signatures, plain and ordered, and still knows the key.
\<close>

definition reports_key :: "'w verify_env \<Rightarrow> string \<Rightarrow> bytes \<Rightarrow> bool" where
  "reports_key env addr pub \<longleftrightarrow>
     (\<forall>w. \<exists>i w'. getPeerIdentityFromStoreOrRemote env addr w = (Inr i, w') \<and> ServerAddress i = addr \<and> PublicKey i = pub)"

definition key_known :: "'w verify_env \<Rightarrow> int \<Rightarrow> string \<Rightarrow> bytes \<Rightarrow> identity_cache \<Rightarrow> bool" where
  "key_known env t addr pub cm \<longleftrightarrow>
     (case ic_cache cm addr of
        None \<Rightarrow> reports_key env addr pub
      | Some c \<Rightarrow> ic_PublicKey c = pub \<and> (\<forall>i. ic_Identity c = Some i \<longrightarrow> ServerAddress i = addr)
          \<and> (\<forall>x. ic_ExpiresAt c = Some x \<longrightarrow> t \<le> x))"

definition clock_from :: "int \<Rightarrow> 'w verify_env \<Rightarrow> bool" where
  "clock_from t env \<longleftrightarrow> (\<forall>w. t \<le> fst (ve_now env w))"

lemma key_known_cached:
  assumes "key_known env t addr pub (identityCache v)" "ic_cache (identityCache v) addr = Some c"
    and "fst (ve_now env w) \<le> t"
  shows "cached_peer env v addr w = (Some c, v, snd (ve_now env w))"
proof -
  have "\<not> expired (fst (ve_now env w)) c"
    using assms by (auto simp: key_known_def expired_def split: option.splits)
  with assms show ?thesis
    by (simp add: key_known_def cached_peer_def GetWithAddressCheck_def Cache_Get_def split_def Let_def split: option.split)
qed

text \<open>How a known key is found, for \<open>VerifyMessageSignature\<close> as for \<open>VerifyOrderedSignature\<close>.\<close>

lemma known_key_lookup:
  assumes known: "key_known env (t + ttl) a pub (identityCache v)" and ttl: "ttl \<le> ic_ttl (identityCache v)"
    and clock: "\<forall>w. t \<le> fst (ve_now env w) \<and> fst (ve_now env w) \<le> t + ttl"
  obtains (cached) c w1 where "cached_peer env v a w = (Some c, v, w1)" "ic_PublicKey c = pub"
  | (fetched) w1 i w2 where "cached_peer env v a w = (None, v, w1)"
      "getPeerIdentityFromStoreOrRemote env a w1 = (Inr i, w2)" "ServerAddress i = a" "PublicKey i = pub"
      "key_known env (t + ttl) a pub (Cache_Set (identityCache v) a i (fst (ve_now env w2)))"
      "ttl \<le> ic_ttl (Cache_Set (identityCache v) a i (fst (ve_now env w2)))"
proof (cases "ic_cache (identityCache v) a")
  case (Some c)
  with key_known_cached [OF known Some] clock cached known show thesis by (simp add: key_known_def)
next
  case None
  let ?w1 = "snd (ve_now env w)"
  have c: "cached_peer env v a w = (None, v, ?w1)"
    using None by (simp add: cached_peer_def GetWithAddressCheck_def Cache_Get_def split_def Let_def)
  from known None have "reports_key env a pub" by (simp add: key_known_def)
  then obtain i w2 where i: "getPeerIdentityFromStoreOrRemote env a ?w1 = (Inr i, w2)" "ServerAddress i = a" "PublicKey i = pub"
    unfolding reports_key_def by blast
  have "t \<le> fst (ve_now env w2)" using clock by simp
  with ttl i(2,3) show thesis
    by (intro fetched [OF c i]) (auto simp: key_known_def Cache_Set_def cache_expires_def)
qed

lemma verify_message_with_key:
  assumes known: "key_known env (t + ttl) (SignerAddress sg) pub (identityCache v)" and ttl: "ttl \<le> ic_ttl (identityCache v)"
    and clock: "\<forall>w. t \<le> fst (ve_now env w) \<and> fst (ve_now env w) \<le> t + ttl"
    and sig: "sig_Signature sg \<noteq> []" "SignerAddress sg \<noteq> ''''"
    and ok: "length pub = 32" "ed_Verify (ve_ed env) pub (ve_sha env b) (sig_Signature sg)"
  obtains cm w' where "VerifyMessageSignature env v b (Some sg) w = (None, v\<lparr>identityCache := cm\<rparr>, w')"
    "key_known env (t + ttl) (SignerAddress sg) pub cm" "ttl \<le> ic_ttl cm"
proof -
  have k: "check_signature env pub b (sig_Signature sg) e = None" for e using ok by (simp add: check_signature_None_iff)
  from known ttl clock show thesis
  proof (cases rule: known_key_lookup [where w = w])
    case (cached c w1)
    with sig k that [of "identityCache v"] known ttl show thesis by (simp add: VerifyMessageSignature_def)
  next
    case (fetched w1 i w2)
    with sig k that [of "Cache_Set (identityCache v) (SignerAddress sg) i (fst (ve_now env w2))"] show thesis
      by (simp add: VerifyMessageSignature_def split_def Let_def)
  qed
qed

text \<open>With the key known, verifying an ordered signature is a matter of the hash chain.\<close>

lemma verify_with_key:
  assumes known: "key_known env (t + ttl) (SignerAddress sg) pub (identityCache v)" and ttl: "ttl \<le> ic_ttl (identityCache v)"
    and clock: "\<forall>w. t \<le> fst (ve_now env w) \<and> fst (ve_now env w) \<le> t + ttl"
    and sig: "sig_Signature sg \<noteq> []" "SignerAddress sg \<noteq> ''''" "os_Sequence sg \<noteq> 0"
    and ok: "length pub = 32" "ed_Verify (ve_ed env) pub (ve_sha env b) (sig_Signature sg)"
  obtains cm w' where "VerifyOrderedSignature env v b (Some sg) w = chain_check env (v\<lparr>identityCache := cm\<rparr>) b sg w'"
    "key_known env (t + ttl) (SignerAddress sg) pub cm" "ttl \<le> ic_ttl cm"
proof -
  have k: "check_signature env pub b (sig_Signature sg) e = None" for e using ok by (simp add: check_signature_None_iff)
  from known ttl clock show thesis
  proof (cases rule: known_key_lookup [where w = w])
    case (cached c w1)
    with sig k that [of "identityCache v"] known ttl show thesis by (simp add: VerifyOrderedSignature_def)
  next
    case (fetched w1 i w2)
    with sig k that [of "Cache_Set (identityCache v) (SignerAddress sg) i (fst (ve_now env w2))"] show thesis
      by (simp add: VerifyOrderedSignature_def split_def Let_def)
  qed
qed

end
