(* ===== verification/Id_Keys.thy ===== *)
theory Id_Keys
  imports Id_Chain
begin

text \<open>
  Keys (\<open>identity/key.go\<close>, \<open>identity/example_keys.go\<close>, \<open>cmd/key/key.go\<close>) and the identity value of
  \<open>identity/identity.go\<close>: how a key manager is built from the configuration, how the cached
  example key is recognised, and how a key pair is written to disk. PEM and X.509 are the
  operations of a \<open>key_codec\<close>; files are a map from paths to contents with the paths that may
  be written.
\<close>

section \<open>The outside\<close>

record pem_block =
  pem_Type :: string
  pem_Bytes :: bytes

datatype parsed_key = EdKey bytes | OtherKey

record key_codec =
  pem_Decode :: "string \<Rightarrow> pem_block option"
  pem_Encode :: "pem_block \<Rightarrow> string"
  ParsePKIXPublicKey :: "bytes \<Rightarrow> parsed_key res"
  ParsePKCS8PrivateKey :: "bytes \<Rightarrow> parsed_key res"
  MarshalPKIXPublicKey :: "bytes \<Rightarrow> bytes res"
  MarshalPKCS8PrivateKey :: "bytes \<Rightarrow> bytes res"

text \<open>What the packages document: what they encode they decode.\<close>

definition codec_ok :: "key_codec \<Rightarrow> bool" where
  "codec_ok C \<longleftrightarrow>
     (\<forall>b. pem_Decode C (pem_Encode C b) = Some b \<and> pem_Encode C b \<noteq> '''')
   \<and> (\<forall>k b. MarshalPKIXPublicKey C k = Inr b \<longrightarrow> ParsePKIXPublicKey C b = Inr (EdKey k))
   \<and> (\<forall>k b. MarshalPKCS8PrivateKey C k = Inr b \<longrightarrow> ParsePKCS8PrivateKey C b = Inr (EdKey k))"

record filesystem =
  files :: "string \<Rightarrow> string option"
  writable :: "string \<Rightarrow> bool"
  makeable :: "string \<Rightarrow> bool"

definition ReadFile :: "filesystem \<Rightarrow> string \<Rightarrow> string res" where
  "ReadFile fs path =
     (case files fs path of None \<Rightarrow> Inl (Errorf ''no such file or directory'') | Some c \<Rightarrow> Inr c)"

definition WriteFile :: "filesystem \<Rightarrow> string \<Rightarrow> string \<Rightarrow> go_error option \<times> filesystem" where
  "WriteFile fs path c =
     (if writable fs path then (None, fs\<lparr>files := (files fs)(path \<mapsto> c)\<rparr>)
      else (Some (Errorf ''permission denied''), fs))"

section \<open>Configuration of an identity\<close>

record identity_config =
  cfg_ServerName :: string
  cfg_OwnerName :: string
  cfg_OwnerPublicKey :: string
  cfg_OwnerPublicKeyFile :: string
  cfg_PrivateKey :: string
  cfg_PrivateKeyFile :: string
  cfg_ServerAddress :: string
  cfg_ForceExample :: bool

record key_manager =
  ownerPublicKey :: bytes
  km_privateKey :: bytes
  km_publicKey :: bytes
  serverAddress :: string
  serverName :: string
  ownerName :: string
  isExample :: bool

definition exampleKeyPath :: string where "exampleKeyPath = ''keys/example_ed25519.pem''"
definition examplePubKeyPath :: string where "examplePubKeyPath = ''keys/example_ed25519.pub.pem''"

section \<open>Loading keys\<close>

definition readPublicKey :: "key_codec \<Rightarrow> string \<Rightarrow> bytes res" where
  "readPublicKey C key =
     (case pem_Decode C key of
        None \<Rightarrow> Inl (Errorf ''failed to decode PEM'')
      | Some block \<Rightarrow>
          (case ParsePKIXPublicKey C (pem_Bytes block) of
             Inl e \<Rightarrow> Inl e
           | Inr (EdKey pub) \<Rightarrow> Inr pub
           | Inr OtherKey \<Rightarrow> Inl (Errorf ''not an Ed25519 public key'')))"

definition loadKeyFromString :: "key_codec \<Rightarrow> string \<Rightarrow> (bytes \<times> bytes) res" where
  "loadKeyFromString C keyString =
     (case pem_Decode C keyString of
        None \<Rightarrow> Inl (Errorf ''failed to decode PEM block from string'')
      | Some block \<Rightarrow>
          (if pem_Type block = ''PRIVATE KEY'' \<or> pem_Type block = ''ED25519 PRIVATE KEY'' then
             (case ParsePKCS8PrivateKey C (pem_Bytes block) of
                Inl e \<Rightarrow> Inl (wrapf ''failed to parse Ed25519 private key: %w'' e)
              | Inr OtherKey \<Rightarrow> Inl (Errorf ''key is not Ed25519 private key'')
              | Inr (EdKey priv) \<Rightarrow>
                  (case PrivateKey_Public priv of Inl e \<Rightarrow> Inl e | Inr pub \<Rightarrow> Inr (priv, pub)))
           else Inl (Errorf ''unsupported key type: %s'')))"

definition loadKeyFromFile :: "key_codec \<Rightarrow> filesystem \<Rightarrow> string \<Rightarrow> (bytes \<times> bytes) res" where
  "loadKeyFromFile C fs path =
     (case ReadFile fs path of
        Inl e \<Rightarrow> Inl (wrapf ''failed to read key file: %w'' e)
      | Inr c \<Rightarrow> loadKeyFromString C c)"

text \<open>The example key is cached in a package variable; a key of another kind panics.\<close>

definition loadExamplePublicKey :: "key_codec \<Rightarrow> filesystem \<Rightarrow> bytes res" where
  "loadExamplePublicKey C fs =
     (case ReadFile fs examplePubKeyPath of
        Inl e \<Rightarrow> Inl e
      | Inr c \<Rightarrow>
     (case pem_Decode C c of
        None \<Rightarrow> Inl (Errorf ''failed to decode PEM block'')
      | Some block \<Rightarrow>
     (if pem_Type block = ''PUBLIC KEY'' \<or> pem_Type block = ''ED25519 PUBLIC KEY'' then
        (case ParsePKIXPublicKey C (pem_Bytes block) of
           Inl e \<Rightarrow> Inl e
         | Inr (EdKey pub) \<Rightarrow> Inr pub
         | Inr OtherKey \<Rightarrow> Inl (Panic ''interface conversion''))
      else Inl (Errorf ''unsupported public key type: %s''))))"

definition loadExamplePublicKeyCache :: "key_codec \<Rightarrow> filesystem \<Rightarrow> bytes option \<Rightarrow> bytes option res" where
  "loadExamplePublicKeyCache C fs cache =
     (case loadExamplePublicKey C fs of
        Inr key \<Rightarrow> Inr (Some key)
      | Inl (Panic p) \<Rightarrow> Inl (Panic p)
      | Inl e \<Rightarrow> Inr cache)"

text \<open>Without an example key the comparison is with a nil slice, which equals an empty key.\<close>

definition isExampleKey :: "key_codec \<Rightarrow> filesystem \<Rightarrow> bytes option \<Rightarrow> bytes \<Rightarrow> (bool \<times> bytes option) res" where
  "isExampleKey C fs cache pub =
     (case (if cache = None then loadExamplePublicKeyCache C fs cache else Inr cache) of
        Inl e \<Rightarrow> Inl e
      | Inr cache1 \<Rightarrow> Inr (pub = (case cache1 of None \<Rightarrow> [] | Some k \<Rightarrow> k), cache1))"

definition ValidateKeyUsage :: "key_codec \<Rightarrow> filesystem \<Rightarrow> bytes option \<Rightarrow> bytes \<Rightarrow> go_error option" where
  "ValidateKeyUsage C fs cache pub =
     (case isExampleKey C fs cache pub of Inl e \<Rightarrow> Some e | Inr _ \<Rightarrow> None)"

definition owner_key_text :: "filesystem \<Rightarrow> identity_config \<Rightarrow> string res" where
  "owner_key_text fs cfg =
     (if cfg_OwnerPublicKey cfg \<noteq> '''' then Inr (cfg_OwnerPublicKey cfg)
      else if cfg_OwnerPublicKeyFile cfg \<noteq> '''' then
        (case ReadFile fs (cfg_OwnerPublicKeyFile cfg) of
           Inl e \<Rightarrow> Inl (wrapf ''error reading owner public key file: %w'' e)
         | Inr c \<Rightarrow> Inr c)
      else
        (case ReadFile fs examplePubKeyPath of
           Inl e \<Rightarrow> Inl (wrapf ''error reading example owner key: %w'' e)
         | Inr c \<Rightarrow> Inr c))"

definition server_key :: "key_codec \<Rightarrow> filesystem \<Rightarrow> identity_config \<Rightarrow> (bytes \<times> bytes) res" where
  "server_key C fs cfg =
     (if cfg_PrivateKey cfg \<noteq> '''' then
        (case loadKeyFromString C (cfg_PrivateKey cfg) of
           Inl e \<Rightarrow> Inl (wrapf ''error loading private key from string: %w'' e)
         | Inr k \<Rightarrow> Inr k)
      else if cfg_PrivateKeyFile cfg \<noteq> '''' then
        (case loadKeyFromFile C fs (cfg_PrivateKeyFile cfg) of
           Inl e \<Rightarrow> Inl (wrapf ''error loading private key from file: %w'' e)
         | Inr k \<Rightarrow> Inr k)
      else
        (case loadKeyFromFile C fs exampleKeyPath of
           Inl e \<Rightarrow> Inl (wrapf ''error loading example private key: %w'' e)
         | Inr k \<Rightarrow> Inr k))"

definition NewKeyManager ::
    "key_codec \<Rightarrow> filesystem \<Rightarrow> bytes option \<Rightarrow> identity_config \<Rightarrow> (key_manager \<times> bytes option) res" where
  "NewKeyManager C fs cache cfg =
     (case owner_key_text fs cfg of
        Inl e \<Rightarrow> Inl e
      | Inr ownerText \<Rightarrow>
     (case readPublicKey C ownerText of
        Inl e \<Rightarrow> Inl (wrapf ''error reading owner's public key: %w'' e)
      | Inr ownerKey \<Rightarrow>
     (case server_key C fs cfg of
        Inl e \<Rightarrow> Inl e
      | Inr (privKey, pubKey) \<Rightarrow>
     (case isExampleKey C fs cache pubKey of
        Inl e \<Rightarrow> Inl e
      | Inr (ex, cache1) \<Rightarrow>
          Inr (\<lparr>ownerPublicKey = ownerKey, km_privateKey = privKey, km_publicKey = pubKey,
                serverAddress = cfg_ServerAddress cfg, serverName = cfg_ServerName cfg,
                ownerName = cfg_OwnerName cfg, isExample = ex\<rparr>, cache1)))))"

section \<open>Generating keys\<close>

text \<open>\<open>generateKeyPair\<close>: \<open>gen\<close> is the result of \<open>ed25519.GenerateKey\<close>, \<open>dir\<close> of \<open>filepath.Dir\<close>.\<close>

definition generateKeyPair ::
    "key_codec \<Rightarrow> (string \<Rightarrow> string) \<Rightarrow> (bytes \<times> bytes) res \<Rightarrow> string \<Rightarrow> filesystem \<Rightarrow> go_error option \<times> filesystem" where
  "generateKeyPair C dir gen outputPath fs =
     (case gen of
        Inl e \<Rightarrow> (Some (wrapf ''failed to generate key: %w'' e), fs)
      | Inr (pub, priv) \<Rightarrow>
     (case MarshalPKCS8PrivateKey C priv of
        Inl e \<Rightarrow> (Some (wrapf ''failed to marshal private key: %w'' e), fs)
      | Inr privBytes \<Rightarrow>
     (if \<not> makeable fs (dir outputPath) then (Some (Wrapf ''failed to create directory: %w'' (Errorf ''mkdir'')), fs)
      else
     (case WriteFile fs outputPath (pem_Encode C \<lparr>pem_Type = ''ED25519 PRIVATE KEY'', pem_Bytes = privBytes\<rparr>) of
        (Some e, fs1) \<Rightarrow> (Some (wrapf ''failed to write private key: %w'' e), fs1)
      | (None, fs1) \<Rightarrow>
     (case MarshalPKIXPublicKey C pub of
        Inl e \<Rightarrow> (Some (wrapf ''failed to marshal public key: %w'' e), fs1)
      | Inr pubBytes \<Rightarrow>
     (case WriteFile fs1 (outputPath @ ''.pub'')
             (pem_Encode C \<lparr>pem_Type = ''ED25519 PUBLIC KEY'', pem_Bytes = pubBytes\<rparr>) of
        (Some e, fs2) \<Rightarrow> (Some (wrapf ''failed to write public key: %w'' e), fs2)
      | (None, fs2) \<Rightarrow> (None, fs2)))))))"

section \<open>Identity values\<close>

record app_identity =
  ai_PublicKey :: bytes
  ai_ServerAddr :: string
  ai_ServerName :: string
  ai_OwnerName :: string
  ai_Version :: string
  ai_Capabilities :: "string list"
  ai_CreatedAt :: int

definition NewIdentity :: "bytes \<Rightarrow> string \<Rightarrow> string \<Rightarrow> string \<Rightarrow> string \<Rightarrow> string list \<Rightarrow> int \<Rightarrow> app_identity" where
  "NewIdentity pub addr name owner version caps now =
     \<lparr>ai_PublicKey = pub, ai_ServerAddr = addr, ai_ServerName = name, ai_OwnerName = owner,
      ai_Version = version, ai_Capabilities = caps, ai_CreatedAt = now\<rparr>"

definition Identity_String :: "app_identity \<Rightarrow> string" where
  "Identity_String i =
     ''Identity{Server: '' @ ai_ServerName i @ '', Owner: '' @ ai_OwnerName i @ '', Address: ''
       @ ai_ServerAddr i @ ''}''"

definition HasCapability :: "app_identity \<Rightarrow> string \<Rightarrow> bool" where
  "HasCapability i c = list_ex (\<lambda>x. x = c) (ai_Capabilities i)"

definition IsExpired :: "app_identity \<Rightarrow> int \<Rightarrow> int \<Rightarrow> bool" where
  "IsExpired i maxAge now = (now - ai_CreatedAt i > maxAge)"

section \<open>Generated keys load\<close>

lemma loadKeyFromString_encoded:
  assumes "codec_ok C" "MarshalPKCS8PrivateKey C priv = Inr b" "length priv = 64"
  shows "loadKeyFromString C (pem_Encode C \<lparr>pem_Type = ''ED25519 PRIVATE KEY'', pem_Bytes = b\<rparr>) = Inr (priv, drop 32 priv)"
  using assms by (simp add: loadKeyFromString_def codec_ok_def PrivateKey_Public_def)

lemma readPublicKey_encoded:
  assumes "codec_ok C" "MarshalPKIXPublicKey C pub = Inr b"
  shows "readPublicKey C (pem_Encode C \<lparr>pem_Type = t, pem_Bytes = b\<rparr>) = Inr pub"
  using assms by (simp add: readPublicKey_def codec_ok_def)

text \<open>C37: generated keys load. After \<open>ztg key generate\<close> has succeeded, a server whose
  configuration names the two files it wrote gets a key manager with exactly this key pair, as
  its own key and as its owner's key, unless the example key file has a foreign key in it. The
  codec is asked to decode what it has encoded, for all key bytes; only the generated pair is used.\<close>

theorem generated_keys_load:
  assumes "codec_ok C" "length priv = 64" "pub = drop 32 priv"
    and gen: "generateKeyPair C dir (Inr (pub, priv)) path fs = (None, fs')"
    and cfg: "cfg_PrivateKey cfg = ''''" "cfg_PrivateKeyFile cfg = path" "path \<noteq> ''''"
      "cfg_OwnerPublicKey cfg = ''''" "cfg_OwnerPublicKeyFile cfg = path @ ''.pub''"
    and ex: "isExampleKey C fs' cache pub = Inr (b, cache')"
  shows "\<exists>km. NewKeyManager C fs' cache cfg = Inr (km, cache')
    \<and> km_privateKey km = priv \<and> km_publicKey km = pub \<and> ownerPublicKey km = pub
    \<and> serverAddress km = cfg_ServerAddress cfg"
proof -
  from gen obtain pb ub where m: "MarshalPKCS8PrivateKey C priv = Inr pb" "MarshalPKIXPublicKey C pub = Inr ub"
    and "files fs' path = Some (pem_Encode C \<lparr>pem_Type = ''ED25519 PRIVATE KEY'', pem_Bytes = pb\<rparr>)"
    and "files fs' (path @ ''.pub'') = Some (pem_Encode C \<lparr>pem_Type = ''ED25519 PUBLIC KEY'', pem_Bytes = ub\<rparr>)"
    by (auto simp: generateKeyPair_def WriteFile_def split: sum.splits if_splits)
  then have r: "ReadFile fs' path = Inr (pem_Encode C \<lparr>pem_Type = ''ED25519 PRIVATE KEY'', pem_Bytes = pb\<rparr>)"
    "ReadFile fs' (path @ ''.pub'') = Inr (pem_Encode C \<lparr>pem_Type = ''ED25519 PUBLIC KEY'', pem_Bytes = ub\<rparr>)"
    by (simp_all add: ReadFile_def)
  have "server_key C fs' cfg = Inr (priv, pub)"
    using loadKeyFromString_encoded [OF assms(1) m(1) assms(2)] cfg r assms(3)
    by (simp add: server_key_def loadKeyFromFile_def)
  moreover have "owner_key_text fs' cfg = Inr (pem_Encode C \<lparr>pem_Type = ''ED25519 PUBLIC KEY'', pem_Bytes = ub\<rparr>)"
    using cfg r by (simp add: owner_key_text_def)
  ultimately show ?thesis
    using readPublicKey_encoded [OF assms(1) m(2)] ex by (simp add: NewKeyManager_def)
qed

text \<open>A codec for instances: marked characters of the type, a dash, the bytes as characters.\<close>

definition byte_char :: "byte \<Rightarrow> char" where
  "byte_char b = char_of (unat b)"

definition char_byte :: "char \<Rightarrow> byte" where
  "char_byte c = of_nat (of_char c)"

lemma char_byte_byte_char [simp]: "char_byte (byte_char b) = b"
  using unsigned_less [of b, where ?'a = nat] by (simp add: char_byte_def byte_char_def)

fun unmark :: "string \<Rightarrow> string \<Rightarrow> (string \<times> string) option" where
  "unmark acc (m # rest) =
     (if m = CHR ''-'' then Some (acc, rest)
      else (case rest of [] \<Rightarrow> None | c # rest' \<Rightarrow> unmark (acc @ [c]) rest'))"
| "unmark acc [] = None"

lemma unmark_marked: "unmark acc (concat (map (\<lambda>c. [CHR ''+'', c]) s) @ CHR ''-'' # t) = Some (acc @ s, t)"
  by (induction s arbitrary: acc) simp_all

definition example_codec :: key_codec where
  "example_codec =
     \<lparr>pem_Decode = (\<lambda>s. map_option (\<lambda>(t, b). \<lparr>pem_Type = t, pem_Bytes = map char_byte b\<rparr>) (unmark [] s)),
      pem_Encode = (\<lambda>b. concat (map (\<lambda>c. [CHR ''+'', c]) (pem_Type b)) @ CHR ''-'' # map byte_char (pem_Bytes b)),
      ParsePKIXPublicKey = (\<lambda>b. Inr (EdKey b)), ParsePKCS8PrivateKey = (\<lambda>b. Inr (EdKey b)),
      MarshalPKIXPublicKey = Inr, MarshalPKCS8PrivateKey = Inr\<rparr>"

lemma codec_ok_example [simp]: "codec_ok example_codec"
  by (simp add: codec_ok_def example_codec_def unmark_marked comp_def)

definition empty_fs :: filesystem where
  "empty_fs = \<lparr>files = (\<lambda>_. None), writable = (\<lambda>_. True), makeable = (\<lambda>_. True)\<rparr>"

definition example_cfg :: identity_config where
  "example_cfg =
     \<lparr>cfg_ServerName = ''s'', cfg_OwnerName = ''o'', cfg_OwnerPublicKey = '''', cfg_OwnerPublicKeyFile = ''k.pub'',
      cfg_PrivateKey = '''', cfg_PrivateKeyFile = ''k'', cfg_ServerAddress = ''a:1'', cfg_ForceExample = False\<rparr>"

theorem generated_keys_load_witness:
  "\<exists>km. NewKeyManager example_codec
       (snd (generateKeyPair example_codec (\<lambda>p. p) (Inr (replicate 32 5, replicate 64 5)) ''k'' empty_fs)) None example_cfg
     = Inr (km, None) \<and> km_privateKey km = replicate 64 5"
proof -
  let ?gen = "generateKeyPair example_codec (\<lambda>p. p) (Inr (replicate 32 5, replicate 64 5)) ''k'' empty_fs"
  have "fst ?gen = None" by code_simp
  then have g: "?gen = (None, snd ?gen)" by (simp add: prod_eq_iff)
  have e: "isExampleKey example_codec (snd ?gen) None (replicate 32 5) = Inr (False, None)" by code_simp
  from generated_keys_load [OF codec_ok_example _ _ g _ _ _ _ _ e, of example_cfg]
  show ?thesis by (auto simp: example_cfg_def)
qed

end
