(* ===== verification/Srv_Services.thy ===== *)
theory Srv_Services
  imports Srv_Verifier Id_Keys
begin

text \<open>
  The handlers of a server (\<open>server/identity_service.go\<close>, \<open>server/game_service.go\<close>,
  \<open>server/registry.go\<close>, the log level of \<open>server/server.go\<close>): who may set trust and start
  challenges, what is checked of an added identity, and which game a challenge reaches. A gRPC
  status error is an error value whose text starts with the code.
\<close>

section \<open>Log levels\<close>

datatype log_level = LevelDebug | LevelInfo | LevelWarn | LevelError

fun slog_level :: "log_level \<Rightarrow> int" where
  "slog_level LevelDebug = - 4"
| "slog_level LevelInfo = 0"
| "slog_level LevelWarn = 4"
| "slog_level LevelError = 8"

lemma slog_level_inject [simp]: "slog_level a = slog_level b \<longleftrightarrow> a = b"
  by (cases a; cases b) simp_all

instantiation log_level :: linorder
begin

definition less_eq_log_level :: "log_level \<Rightarrow> log_level \<Rightarrow> bool" where
  "a \<le> b \<longleftrightarrow> slog_level a \<le> slog_level b"

definition less_log_level :: "log_level \<Rightarrow> log_level \<Rightarrow> bool" where
  "a < b \<longleftrightarrow> slog_level a < slog_level b"

instance
  by standard (auto simp: less_eq_log_level_def less_log_level_def)

end

definition to_lower :: "char \<Rightarrow> char" where
  "to_lower c = (let n = of_char c :: nat in if 65 \<le> n \<and> n \<le> 90 then char_of (n + 32) else c)"

definition ToLower :: "string \<Rightarrow> string" where
  "ToLower s = map to_lower s"

definition parseLogLevel :: "string \<Rightarrow> log_level" where
  "parseLogLevel level =
     (let l = ToLower level in
      if l = ''debug'' then LevelDebug
      else if l = ''info'' then LevelInfo
      else if l = ''warn'' \<or> l = ''warning'' then LevelWarn
      else if l = ''error'' then LevelError
      else LevelInfo)"

section \<open>The registry of games\<close>

record challenge_response =
  resp_Win :: "bool option"
  resp_Message :: string

text \<open>A game has an identifier, the gRPC service that its \<open>Register\<close> adds to a gRPC server, and its
  challenge function, which may not return (\<open>None\<close>).\<close>

record 'w game =
  game_ID :: string
  game_Register :: string
  game_Challenge :: "string \<Rightarrow> 'w \<Rightarrow> (challenge_response res \<times> 'w) option"

record 'w registry =
  games :: "string \<Rightarrow> 'w game option"

definition newRegistry :: "'w registry" where
  "newRegistry = \<lparr>games = (\<lambda>_. None)\<rparr>"

definition registerGame :: "'w registry \<Rightarrow> 'w game \<Rightarrow> 'w registry" where
  "registerGame r g = r\<lparr>games := (games r)(game_ID g \<mapsto> g)\<rparr>"

definition registry_challenge ::
    "'w registry \<Rightarrow> string \<Rightarrow> (string \<Rightarrow> 'w \<Rightarrow> (challenge_response res \<times> 'w) option) option" where
  "registry_challenge r gameID = map_option game_Challenge (games r gameID)"

text \<open>Go iterates over a map in an order it does not define: \<open>GameIDs\<close> is one of these lists.\<close>

definition GameIDs :: "(string set \<Rightarrow> string list) \<Rightarrow> 'w registry \<Rightarrow> string list" where
  "GameIDs iterate r = iterate (dom (games r))"

lemma registry_challenge_register:
  "registry_challenge (registerGame r g) i = (if i = game_ID g then Some (game_Challenge g) else registry_challenge r i)"
  by (simp add: registry_challenge_def registerGame_def)

section \<open>The owner's signature\<close>

text \<open>The verifier that the two owner checks build: its cache has the owner's key at \<open>owner\<close>.\<close>

definition owner_verifier :: "'w verify_env \<Rightarrow> key_manager \<Rightarrow> 'w \<Rightarrow> verifier \<times> 'w" where
  "owner_verifier env km w = AddPeerIdentity env (NewVerifier 0) ''owner'' (ownerPublicKey km) w"

definition verifyOwnerSignatureBytes ::
    "'w verify_env \<Rightarrow> key_manager \<Rightarrow> bytes \<Rightarrow> signature option \<Rightarrow> 'w \<Rightarrow> go_error option \<times> 'w" where
  "verifyOwnerSignatureBytes env km message sigo w =
     (if sigo = None \<or> sig_Signature (the sigo) = []
      then (Some (Errorf ''owner signature required for Challenge''), w)
      else
        let (v, w1) = owner_verifier env km w in
        case VerifyMessageSignature env v message sigo w1 of
          (Some e, v', w2) \<Rightarrow> (Some (wrapf ''PermissionDenied: signature verification failed: %w'' e), w2)
        | (None, v', w2) \<Rightarrow> (None, w2))"

section \<open>The identity service\<close>

definition svc_GetIdentity ::
    "(string set \<Rightarrow> string list) \<Rightarrow> 'w verify_env \<Rightarrow> key_manager \<Rightarrow> 'w registry \<Rightarrow> 'w \<Rightarrow> identity res \<times> 'w" where
  "svc_GetIdentity iterate env km reg w =
     (let (now, w1) = ve_now env w in
      (Inr \<lparr>PublicKey = km_publicKey km, ServerAddress = serverAddress km, ServerName = serverName km,
            OwnerName = ownerName km, Capabilities = GameIDs iterate reg, CreatedAt = Some now,
            IsTrusted = False, TrustUpdatedAt = None\<rparr>, w1))"

text \<open>
  \<open>url.Parse\<close> as far as it decides about the host: the scheme, the opaque part, the authority
  between \<open>//\<close> and the next slash. What the package does with an authority, a path and a
  fragment is a parameter.
\<close>

record url_lib =
  url_authority :: "string \<Rightarrow> string res"
  url_path_ok :: "string \<Rightarrow> bool"
  url_fragment_ok :: "string \<Rightarrow> bool"

definition before :: "char \<Rightarrow> string \<Rightarrow> string" where
  "before c s = takeWhile (\<lambda>x. x \<noteq> c) s"

definition after :: "char \<Rightarrow> string \<Rightarrow> string" where
  "after c s = tl (dropWhile (\<lambda>x. x \<noteq> c) s)"

definition is_alpha :: "char \<Rightarrow> bool" where
  "is_alpha c = (let n = of_char c :: nat in 65 \<le> n \<and> n \<le> 90 \<or> 97 \<le> n \<and> n \<le> 122)"

definition is_scheme_other :: "char \<Rightarrow> bool" where
  "is_scheme_other c = (let n = of_char c :: nat in 48 \<le> n \<and> n \<le> 57 \<or> n = 43 \<or> n = 45 \<or> n = 46)"

definition is_ctl :: "char \<Rightarrow> bool" where
  "is_ctl c = (let n = of_char c :: nat in n < 32 \<or> n = 127)"

text \<open>\<open>getScheme\<close>: the scheme and the rest; no scheme is the empty one.\<close>

fun getScheme :: "string \<Rightarrow> string \<Rightarrow> string \<Rightarrow> (string \<times> string) res" where
  "getScheme raw seen [] = Inr ('''', raw)"
| "getScheme raw seen (c # rest) =
     (if is_alpha c then getScheme raw (seen @ [c]) rest
      else if is_scheme_other c then
        (if seen = '''' then Inr ('''', raw) else getScheme raw (seen @ [c]) rest)
      else if c = CHR '':'' then
        (if seen = '''' then Inl (Errorf ''missing protocol scheme'') else Inr (seen, rest))
      else Inr ('''', raw))"

definition url_Host :: "url_lib \<Rightarrow> string \<Rightarrow> string res" where
  "url_Host U rawURL =
     (let u = before CHR ''#'' rawURL; frag = after CHR ''#'' rawURL in
      if list_ex is_ctl u then Inl (Errorf ''net/url: invalid control character in URL'')
      else if frag \<noteq> '''' \<and> \<not> url_fragment_ok U frag then Inl (Errorf ''invalid URL escape'')
      else if u = ''*'' then Inr ''''
      else
     (case getScheme u '''' u of
        Inl e \<Rightarrow> Inl e
      | Inr (scheme, rest0) \<Rightarrow>
          let rest = before CHR ''?'' rest0 in
          if take 1 rest \<noteq> ''/'' \<and> scheme \<noteq> '''' then Inr ''''
          else if take 1 rest \<noteq> ''/'' \<and> CHR '':'' \<in> set (before CHR ''/'' rest)
          then Inl (Errorf ''first path segment in URL cannot contain colon'')
          else if take 2 rest = ''//'' \<and> (scheme \<noteq> '''' \<or> take 3 rest \<noteq> ''///'') then
            (case url_authority U (before CHR ''/'' (drop 2 rest)) of
               Inl e \<Rightarrow> Inl e
             | Inr host \<Rightarrow>
                 (if url_path_ok U (dropWhile (\<lambda>c. c \<noteq> CHR ''/'') (drop 2 rest)) then Inr host
                  else Inl (Errorf ''invalid URL escape'')))
          else if url_path_ok U rest then Inr ''''
          else Inl (Errorf ''invalid URL escape'')))"

text \<open>The address check of \<open>AddIdentity\<close>: the peer is asked only when the URL has a host.\<close>

definition check_peer_key ::
    "'w verify_env \<Rightarrow> url_lib \<Rightarrow> identity \<Rightarrow> 'w \<Rightarrow> go_error option \<times> 'w" where
  "check_peer_key env U i w =
     (case url_Host U (ServerAddress i) of
        Inl _ \<Rightarrow> (None, w)
      | Inr host \<Rightarrow>
     (if host = '''' then (None, w)
      else
     (case getPeerIdentity env (ServerAddress i) w of
        (Inl e, w1) \<Rightarrow> (Some (wrapf ''Internal: error getting peer identity: %v'' e), w1)
      | (Inr peerID, w1) \<Rightarrow>
          (if PublicKey i \<noteq> PublicKey peerID
           then (Some (Errorf ''InvalidArgument: provided public key does not match key provided by server''), w1)
           else (None, w1)))))"

text \<open>\<open>if req.Identity.CreatedAt != nil { req.Identity.CreatedAt = timestamppb.New(time.Now()) }\<close>.\<close>

definition refresh_created :: "'w verify_env \<Rightarrow> identity \<Rightarrow> 'w \<Rightarrow> identity \<times> 'w" where
  "refresh_created env i w =
     (if CreatedAt i \<noteq> None then let (now, w1) = ve_now env w in (i\<lparr>CreatedAt := Some now\<rparr>, w1) else (i, w))"

definition AddIdentity ::
    "'w verify_env \<Rightarrow> url_lib \<Rightarrow> identity option \<Rightarrow> 'w \<Rightarrow> go_error option \<times> 'w" where
  "AddIdentity env U req w =
     (case ve_store env of
        None \<Rightarrow> (Some (Errorf ''Unavailable: identity store not available''), w)
      | Some S \<Rightarrow>
     (case req of
        None \<Rightarrow> (Some (Panic ''nil pointer dereference''), w)
      | Some i \<Rightarrow>
     (if length (PublicKey i) \<noteq> 32 then (Some (Errorf ''InvalidArgument: invalid public key size''), w)
      else
     (case check_peer_key env U i w of
        (Some e, w1) \<Rightarrow> (Some e, w1)
      | (None, w1) \<Rightarrow>
          let (i1, w2) = refresh_created env i w1 in
          if IsTrusted i1 then (Some (Errorf ''InvalidArgument: cannot created trusted identity''), w2)
          else
         (case InsertIdentity S w2 (i1\<lparr>TrustUpdatedAt := CreatedAt i1\<rparr>) of
            (Some e, w3) \<Rightarrow> (Some (wrapf ''Internal: failed to insert identity: %v'' e), w3)
          | (None, w3) \<Rightarrow> (None, w3))))))"

definition svc_ListIdentities :: "'w verify_env \<Rightarrow> 'w \<Rightarrow> identity list res" where
  "svc_ListIdentities env w =
     (case ve_store env of
        None \<Rightarrow> Inl (Errorf ''Unavailable: identity store not available'')
      | Some S \<Rightarrow>
          (case ListIdentities S w of
             Inl e \<Rightarrow> Inl (wrapf ''Internal: failed to list identities: %v'' e)
           | Inr is \<Rightarrow> Inr is))"

record set_trust_request =
  st_ServerAddress :: string
  st_Trusted :: bool
  st_Signature :: "signature option"

text \<open>\<open>fmt.Appendf(nil, "set-trust:%s:%v", ...)\<close>.\<close>

definition set_trust_message :: "string \<Rightarrow> bool \<Rightarrow> bytes" where
  "set_trust_message addr trusted = bytes_of (''set-trust:'' @ addr @ '':'' @ (if trusted then ''true'' else ''false''))"

definition SetTrust ::
    "'w verify_env \<Rightarrow> key_manager \<Rightarrow> set_trust_request \<Rightarrow> 'w \<Rightarrow> go_error option \<times> 'w" where
  "SetTrust env km req w =
     (case verifyOwnerSignatureBytes env km (set_trust_message (st_ServerAddress req) (st_Trusted req))
             (st_Signature req) w of
        (Some e, w1) \<Rightarrow> (Some (wrapf ''PermissionDenied: owner signature verification failed: %v'' e), w1)
      | (None, w1) \<Rightarrow>
     (case ve_store env of
        None \<Rightarrow> (Some (Errorf ''Unavailable: identity store not available''), w1)
      | Some S \<Rightarrow>
          let (now, w2) = ve_now env w1 in
          (case SetTrustStatus S w2 (st_ServerAddress req) (st_Trusted req) now of
             (Some e, w3) \<Rightarrow> (Some (wrapf ''Internal: failed to set trust status: %v'' e), w3)
           | (None, w3) \<Rightarrow> (None, w3))))"

section \<open>The game service\<close>

record challenge_request =
  ch_Target :: string
  ch_GameId :: string

record signed_challenge =
  sc_Challenge :: "challenge_request option"
  sc_Signature :: "signature option"

text \<open>The first log line reads the fields of the challenge: a request without one panics.\<close>

definition svc_Challenge ::
    "'w verify_env \<Rightarrow> (challenge_request \<Rightarrow> bytes res) \<Rightarrow> key_manager \<Rightarrow> 'w registry \<Rightarrow> signed_challenge \<Rightarrow> 'w
     \<Rightarrow> (challenge_response res \<times> 'w) option" where
  "svc_Challenge env marshal km reg req w =
     (case sc_Challenge req of
        None \<Rightarrow> Some (Inl (Panic ''nil pointer dereference''), w)
      | Some ch \<Rightarrow>
     (if sc_Signature req = None \<or> sig_Signature (the (sc_Signature req)) = []
      then Some (Inl (Errorf ''owner signature required for Challenge''), w)
      else
        let (v, w1) = owner_verifier env km w in
     (case VerifySignatureProto env marshal (Some v) ch (sc_Signature req) w1 of
        (Some e, vo, w2) \<Rightarrow> Some (Inl (wrapf ''PermissionDenied: signature verification failed: %w'' e), w2)
      | (None, vo, w2) \<Rightarrow>
     (case NewClient env (ch_Target ch) w2 of
        (Some e, w3) \<Rightarrow> Some (Inl (wrapf ''FailedPrecondition: failed to connect to target %q: %w'' e), w3)
      | (None, w3) \<Rightarrow>
     (case registry_challenge reg (ch_GameId ch) of
        None \<Rightarrow> Some (Inl (Errorf ''NotFound: unknown game: %q %v''), w3)
      | Some challenge \<Rightarrow> challenge (ch_Target ch) w3)))))"

section \<open>Who passes the owner check\<close>

lemma owner_verifier_peer_key:
  "peer_key env (fst (owner_verifier env km w)) addr w1 =
     (if addr = ''owner'' then Some (ownerPublicKey km)
      else case getPeerIdentityFromStoreOrRemote env addr (snd (ve_now env w1)) of
             (Inl e, w2) \<Rightarrow> None
           | (Inr i, w2) \<Rightarrow> if ServerAddress i = addr then Some (PublicKey i) else None)"
  by (simp add: peer_key_def cached_peer_def owner_verifier_def AddPeerIdentity_def NewVerifier_def
      NewIdentityCacheManager_def SetPublicKey_def GetWithAddressCheck_def Cache_Get_def expired_def
      cache_expires_def Let_def split: prod.split)

lemma owner_cached:
  "cached_peer env (fst (owner_verifier env km w)) ''owner'' w1 =
     (Some \<lparr>ic_Identity = None, ic_PublicKey = ownerPublicKey km, ic_ExpiresAt = None\<rparr>,
      fst (owner_verifier env km w), snd (ve_now env w1))"
  by (cases "ve_now env w"; cases "ve_now env w1")
    (simp add: cached_peer_def owner_verifier_def AddPeerIdentity_def NewVerifier_def NewIdentityCacheManager_def
      SetPublicKey_def GetWithAddressCheck_def Cache_Get_def expired_def cache_expires_def Let_def)

lemma VerifyMessageSignature_iff:
  "fst (VerifyMessageSignature env v message (Some sg) w) = None \<longleftrightarrow>
     sig_Signature sg \<noteq> [] \<and> SignerAddress sg \<noteq> ''''
     \<and> (\<exists>key. peer_key env v (SignerAddress sg) w = Some key
        \<and> length key = 32 \<and> ed_Verify (ve_ed env) key (ve_sha env message) (sig_Signature sg))"
  by (auto simp: VerifyMessageSignature_iff_key)

lemma verifyOwner_iff:
  "fst (verifyOwnerSignatureBytes env km message (Some sg) w) = None \<longleftrightarrow>
     sig_Signature sg \<noteq> [] \<and> SignerAddress sg \<noteq> ''''
     \<and> (\<exists>key. peer_key env (fst (owner_verifier env km w)) (SignerAddress sg) (snd (owner_verifier env km w)) = Some key
        \<and> length key = 32 \<and> ed_Verify (ve_ed env) key (ve_sha env message) (sig_Signature sg))"
  using VerifyMessageSignature_iff [of env "fst (owner_verifier env km w)" message sg "snd (owner_verifier env km w)"]
  by (auto simp: verifyOwnerSignatureBytes_def Let_def split_def split: option.split)

text \<open>The owner check does not ask for the owner. \<open>SetTrust\<close> is authorised by a signature of
  its message that names the signer \<open>owner\<close> and verifies under the owner's key, and just as
  well by one that names any other address and verifies under that address's own key.\<close>

theorem owner_check_accepts_iff:
  "fst (verifyOwnerSignatureBytes env km message sigo w) = None \<longleftrightarrow>
     (\<exists>sg key. sigo = Some sg \<and> sig_Signature sg \<noteq> [] \<and> SignerAddress sg \<noteq> ''''
        \<and> length key = 32 \<and> ed_Verify (ve_ed env) key (ve_sha env message) (sig_Signature sg)
        \<and> (if SignerAddress sg = ''owner'' then key = ownerPublicKey km
           else \<exists>i w2. getPeerIdentityFromStoreOrRemote env (SignerAddress sg)
                           (snd (ve_now env (snd (owner_verifier env km w)))) = (Inr i, w2)
                        \<and> ServerAddress i = SignerAddress sg \<and> key = PublicKey i))"
proof (cases sigo)
  case (Some sg)
  then show ?thesis
    by (auto simp: verifyOwner_iff owner_verifier_peer_key split: prod.splits sum.splits if_splits)
qed (simp add: verifyOwnerSignatureBytes_def)

section \<open>Which addresses are asked\<close>

lemma takeWhile_sublist: "sublist x (takeWhile P s) \<Longrightarrow> sublist x s"
  using sublist_order.order.trans [OF _ prefix_imp_sublist [OF takeWhile_is_prefix]] by blast

lemma getScheme_rest:
  "getScheme raw seen s = Inr (scheme, rest) \<Longrightarrow> suffix s raw \<Longrightarrow> suffix rest raw"
  by (induction raw seen s rule: getScheme.induct)
    (auto simp: suffix_ConsD2 Let_def dest: suffix_ConsD split: if_splits)

lemma url_without_slashes:
  assumes "\<not> sublist ''//'' addr"
  shows "(\<exists>e. url_Host U addr = Inl e) \<or> url_Host U addr = Inr ''''"
proof (cases "getScheme (before CHR ''#'' addr) '''' (before CHR ''#'' addr)")
  case (Inl e)
  then show ?thesis by (simp add: url_Host_def Let_def)
next
  case (Inr x)
  obtain scheme rest0 where x: "x = (scheme, rest0)" by (cases x)
  have "suffix rest0 (before CHR ''#'' addr)" using getScheme_rest Inr x by blast
  then have "sublist (before CHR ''?'' rest0) addr"
    unfolding before_def
    by (meson prefix_imp_sublist sublist_order.order.trans suffix_imp_sublist takeWhile_is_prefix)
  with assms have "take 2 (before CHR ''?'' rest0) \<noteq> ''//''"
    by (metis prefix_imp_sublist sublist_order.order.trans take_is_prefix)
  with Inr x show ?thesis by (auto simp: url_Host_def Let_def)
qed

section \<open>A stranger becomes trusted\<close>

lemma AddIdentity_stores:
  assumes "json_ok j" "sql_inv j (sw_db w)" "db_up (sw_db w)"
    and "length (PublicKey i) = 32" "\<not> IsTrusted i" "\<not> sublist ''//'' (ServerAddress i)"
    and "known (SQLStore j) (sw_db w) (ServerAddress i) = None"
    and "PublicKey i \<notin> row_PublicKey ` set (db_rows (sw_db w))"
      "ServerName i \<notin> row_ServerName ` set (db_rows (sw_db w))"
    and "AddIdentity (server_env j ed sha net) U (Some i) w = (e, w')"
  shows "e = None \<and> sql_inv j (sw_db w') \<and> db_up (sw_db w')
    \<and> db_stored (sw_db w') (ServerAddress i) = {(PublicKey i, False)}
    \<and> known (SQLStore j) (sw_db w') (ServerAddress i) = Some (PublicKey i, False)"
proof -
  note store = SQLStore_identity_store [OF assms(1)]
  have chk: "check_peer_key (server_env j ed sha net) U i w = (None, w)"
    using url_without_slashes [OF assms(6), of U] by (auto simp: check_peer_key_def)
  obtain i' w2 where i': "refresh_created (server_env j ed sha net) i w = (i', w2)" by fastforce
  then have same: "PublicKey i' = PublicKey i" "ServerAddress i' = ServerAddress i" "ServerName i' = ServerName i"
    "IsTrusted i' = IsTrusted i" "sw_db w2 = sw_db w"
    by (auto simp: refresh_created_def Let_def split: if_splits prod.splits dest!: on_net_dbD)
  let ?i = "i'\<lparr>TrustUpdatedAt := CreatedAt i'\<rparr>"
  obtain e3 d where ins: "SQLStore_InsertIdentity j (sw_db w) ?i = (e3, d)" by fastforce
  have "PublicKey ?i \<noteq> []" using assms(4) same by auto
  with SQLStore_insert_ok [OF assms(1,3), of ?i] assms(8,9) same ins have "e3 = None" by simp
  then have w': "e = None" "sw_db w' = d"
    using assms(4,5,10) chk i' same ins
    by (auto simp: AddIdentity_def Let_def on_db_def split: prod.splits)
  have op: "snd (run_op (SQLStore j) (sw_db w) (Op_Insert ?i)) = d" using ins by (simp add: run_op_def)
  have "sql_inv j d" "db_up d"
    using identity_store.run_op_inv [OF store assms(2), of "Op_Insert ?i"] op assms(3) by simp_all
  moreover have "known (SQLStore j) (sw_db w) (ServerAddress ?i) = None" using assms(7) same by simp
  with identity_store.insert_known [OF store assms(2,3), of ?i d] ins \<open>e3 = None\<close> same assms(5)
  have "db_stored d (ServerAddress i) = {(PublicKey i, False)}" "known (SQLStore j) d (ServerAddress i) = Some (PublicKey i, False)"
    by simp_all
  ultimately show ?thesis using w' by simp
qed

lemma owner_check_by_known:
  assumes "json_ok j" "sql_inv j (sw_db w)" "db_up (sw_db w)"
    and "known (SQLStore j) (sw_db w) (SignerAddress sg) = Some (k, b)"
    and "SignerAddress sg \<noteq> ''owner''" "SignerAddress sg \<noteq> ''''" "sig_Signature sg \<noteq> []"
    and "length k = 32" "ed_Verify ed k (sha message) (sig_Signature sg)"
    and "verifyOwnerSignatureBytes (server_env j ed sha net) km message (Some sg) w = (e, w')"
  shows "e = None \<and> sql_inv j (sw_db w') \<and> db_up (sw_db w') \<and> db_stored (sw_db w') = db_stored (sw_db w)"
proof -
  let ?env = "server_env j ed sha net"
  note serving = server_verifying [OF assms(1), of ed sha net]
  define w1 where "w1 = snd (owner_verifier ?env km w)"
  have db1: "sw_db w1 = sw_db w"
    by (simp add: w1_def owner_verifier_def AddPeerIdentity_def split_def Let_def)
  have "sw_db (snd (ve_now ?env w1)) = sw_db w" using db1 by simp
  then obtain i w2 where "getPeerIdentityFromStoreOrRemote ?env (SignerAddress sg) (snd (ve_now ?env w1)) = (Inr i, w2)"
      "PublicKey i = k" "ServerAddress i = SignerAddress sg"
    using verifying_server.known_is_key [OF serving, of "snd (ve_now ?env w1)" "SignerAddress sg"] assms(2,4) by auto
  then have "peer_key ?env (fst (owner_verifier ?env km w)) (SignerAddress sg) w1 = Some k"
    using assms(5) by (simp add: owner_verifier_peer_key)
  with verifyOwner_iff [of ?env km message sg w] assms(6-10) have "e = None" by (simp add: w1_def)
  moreover obtain r v' w2 where r: "VerifyMessageSignature ?env (fst (owner_verifier ?env km w)) message (Some sg) w1
      = (r, v', w2)" by (metis prod_cases3)
  have "w' = w2"
    using assms(7,10) r by (auto simp: verifyOwnerSignatureBytes_def w1_def Let_def split: prod.splits option.splits)
  ultimately show ?thesis
    using verifying_server.verify_known [OF serving _ _ _ r, of k b] assms(2-4) db1 by (simp add: fun_eq_iff)
qed

text \<open>C12: a stranger can make itself trusted. Whoever owns a key pair can add an identity for any
  free address without \<open>//\<close> and a free server name, and then set the trust of this identity, in
  two requests that nobody but the stranger has signed; the store then trusts its key.\<close>

theorem stranger_becomes_trusted:
  assumes env: "env = server_env j ed sha net"
    and store: "json_ok j" "sql_inv j (sw_db w)" "db_up (sw_db w)"
    and fresh: "known (SQLStore j) (sw_db w) (ServerAddress i) = None"
      "PublicKey i \<notin> row_PublicKey ` set (db_rows (sw_db w))"
      "ServerName i \<notin> row_ServerName ` set (db_rows (sw_db w))"
    and stranger: "length (PublicKey i) = 32" "\<not> IsTrusted i" "\<not> sublist ''//'' (ServerAddress i)"
      "ServerAddress i \<noteq> ''''" "ServerAddress i \<noteq> ''owner''"
    and signed: "SignerAddress sg = ServerAddress i" "sig_Signature sg \<noteq> []"
      "ed_Verify ed (PublicKey i) (sha (set_trust_message (ServerAddress i) True)) (sig_Signature sg)"
    and add: "AddIdentity env U (Some i) w = (e1, w1)"
    and trust: "SetTrust env km \<lparr>st_ServerAddress = ServerAddress i, st_Trusted = True, st_Signature = Some sg\<rparr> w1
        = (e2, w2)"
  shows "e1 = None \<and> e2 = None \<and> known (SQLStore j) (sw_db w2) (ServerAddress i) = Some (PublicKey i, True)"
proof -
  note sql = SQLStore_identity_store [OF store(1)]
  from AddIdentity_stores [OF store stranger(1-3) fresh] add env
  have 1: "e1 = None" "sql_inv j (sw_db w1)" "db_up (sw_db w1)"
    "db_stored (sw_db w1) (ServerAddress i) = {(PublicKey i, False)}"
    "known (SQLStore j) (sw_db w1) (ServerAddress i) = Some (PublicKey i, False)" by blast+
  let ?msg = "set_trust_message (ServerAddress i) True"
  obtain e w' where v: "verifyOwnerSignatureBytes env km ?msg (Some sg) w1 = (e, w')" by fastforce
  from owner_check_by_known [OF store(1) 1(2,3), where sg = sg] v 1(4,5) stranger signed env
  have 2: "e = None" "sql_inv j (sw_db w')" "db_up (sw_db w')"
    "db_stored (sw_db w') (ServerAddress i) = {(PublicKey i, False)}" by auto
  obtain now w'' where n: "on_net (nw_now net) w' = (now, w'')" by fastforce
  then have db: "sw_db w'' = sw_db w'" by (rule on_net_dbD)
  obtain e3 d where t: "SQLStore_SetTrustStatus (sw_db w') (ServerAddress i) True now = (e3, d)" by fastforce
  have "e3 = None" using identity_store.trust_ok [OF sql 2(3), of "ServerAddress i" True now] t by simp
  then have "e2 = None" "sw_db w2 = d"
    using trust v 2(1) env n db t by (auto simp: SetTrust_def server_store_def on_db_def)
  moreover have "db_stored d (ServerAddress i) = {(PublicKey i, True)}"
    using identity_store.trust_stored [OF sql 2(2,3), of "ServerAddress i" True now "ServerAddress i"] t 2(4) by simp
  with identity_store.sole_known [OF sql, of d] identity_store.run_op_inv [OF sql 2(2), of "Op_Trust (ServerAddress i) True now"] 2(3) t
  have "known (SQLStore j) d (ServerAddress i) = Some (PublicKey i, True)" by (simp add: run_op_def)
  ultimately show ?thesis using 1(1) by simp
qed

definition example_url :: url_lib where
  "example_url = \<lparr>url_authority = Inr, url_path_ok = (\<lambda>_. True), url_fragment_ok = (\<lambda>_. True)\<rparr>"

definition example_km :: key_manager where
  "example_km =
     \<lparr>ownerPublicKey = replicate 32 9, km_privateKey = replicate 64 8, km_publicKey = replicate 32 8,
      serverAddress = ''home:1'', serverName = ''home'', ownerName = ''owner'', isExample = False\<rparr>"

theorem stranger_becomes_trusted_witness:
  "let (e1, w1) = AddIdentity example_server example_url (Some (example_identity 66 ''eve:1'' ''eve'')) example_world;
       (e2, w2) = SetTrust example_server example_km
         \<lparr>st_ServerAddress = ''eve:1'', st_Trusted = True,
          st_Signature = Some (example_sig 66 ''eve:1'' (set_trust_message ''eve:1'' True))\<rparr> w1
   in known (SQLStore example_json) (sw_db w2) ''eve:1'' = Some (replicate 32 66, True)"
proof -
  let ?i = "example_identity 66 ''eve:1'' ''eve''"
  let ?sg = "example_sig 66 ''eve:1'' (set_trust_message ''eve:1'' True)"
  obtain e1 w1 where 1: "AddIdentity example_server example_url (Some ?i) example_world = (e1, w1)" by fastforce
  obtain e2 w2 where 2: "SetTrust example_server example_km
      \<lparr>st_ServerAddress = ServerAddress ?i, st_Trusted = True, st_Signature = Some ?sg\<rparr> w1 = (e2, w2)" by fastforce
  have "known (SQLStore example_json) (sw_db example_world) (ServerAddress ?i) = None"
    "db_rows (sw_db example_world) = []" "length (PublicKey ?i) = 32" "\<not> IsTrusted ?i"
    "ServerAddress ?i \<noteq> ''''" "ServerAddress ?i \<noteq> ''owner''" "SignerAddress ?sg = ServerAddress ?i"
    "sig_Signature ?sg \<noteq> []"
    "ed_Verify example_ed (PublicKey ?i) (set_trust_message (ServerAddress ?i) True) (sig_Signature ?sg)"
    by code_simp+
  moreover have "\<not> sublist ''//'' (ServerAddress ?i)"
    by (simp add: example_identity_def sublist_code)
  ultimately show ?thesis
    using stranger_becomes_trusted [OF example_server_def json_ok_example _ _ _ _ _ _ _ _ _ _ _ _ _ 1 2] 1 2
    by (simp add: example_world_def) (simp add: example_identity_def)
qed

text \<open>A \<open>SetTrust\<close> request that names the signer \<open>owner\<close> is refused exactly when its signature
  does not verify under the owner's key, and an accepted one sets the flag of every key of that
  address and of no other.\<close>

lemma owner_sets_trust:
  assumes env: "env = server_env j ed sha net"
    and store: "json_ok j" "sql_inv j (sw_db w)" "db_up (sw_db w)"
    and owner: "SignerAddress sg = ''owner''" "sig_Signature sg \<noteq> []" "length (ownerPublicKey km) = 32"
    and set: "SetTrust env km \<lparr>st_ServerAddress = a, st_Trusted = t, st_Signature = Some sg\<rparr> w = (e, w')"
  shows "(e = None \<longleftrightarrow> ed_Verify ed (ownerPublicKey km) (sha (set_trust_message a t)) (sig_Signature sg))
    \<and> db_stored (sw_db w') b = (if e = None \<and> b = a then (\<lambda>(k, _). (k, t)) ` db_stored (sw_db w) b else db_stored (sw_db w) b)
    \<and> sql_inv j (sw_db w') \<and> db_up (sw_db w')"
proof -
  note sql = SQLStore_identity_store [OF store(1)]
  let ?v = "fst (owner_verifier env km w)" and ?w1 = "snd (owner_verifier env km w)"
  let ?w2 = "snd (ve_now env ?w1)"
  note c = owner_cached [of env km w ?w1]
  have db1: "sw_db ?w1 = sw_db w" by (simp add: env owner_verifier_def AddPeerIdentity_def split_def Let_def)
  have db2: "sw_db ?w2 = sw_db w" using db1 by (simp add: env)
  obtain x w3 where v: "verifyOwnerSignatureBytes env km (set_trust_message a t) (Some sg) w = (x, w3)" by fastforce
  have "w3 = ?w2" using v c owner
    by (auto simp: verifyOwnerSignatureBytes_def VerifyMessageSignature_def split_def Let_def
        split: option.splits)
  have x: "x = None \<longleftrightarrow> ed_Verify ed (ownerPublicKey km) (sha (set_trust_message a t)) (sig_Signature sg)"
    using verifyOwner_iff [of env km "set_trust_message a t" sg w] v owner
    by (simp add: owner_verifier_peer_key) (simp add: env)
  obtain now w4 where n: "on_net (nw_now net) w3 = (now, w4)" by fastforce
  then have db4: "sw_db w4 = sw_db w" using on_net_dbD db2 \<open>w3 = ?w2\<close> by metis
  obtain e3 d where tr: "SQLStore_SetTrustStatus (sw_db w) a t now = (e3, d)" by fastforce
  have e3: "e3 = None" using identity_store.trust_ok [OF sql store(3), of a t now] tr by simp
  have d: "db_stored d b = (if b = a then (\<lambda>(k, _). (k, t)) ` db_stored (sw_db w) b else db_stored (sw_db w) b)"
    "sql_inv j d" "db_up d"
    using identity_store.trust_stored [OF sql store(2,3), of a t now b] tr
      identity_store.run_op_inv [OF sql store(2), of "Op_Trust a t now"] store(3) by (simp_all add: run_op_def)
  have "e = None \<longleftrightarrow> x = None" "sw_db w' = (if x = None then d else sw_db w)"
    using set v env n db4 tr e3 db2 \<open>w3 = ?w2\<close>
    by (auto simp: SetTrust_def server_store_def on_db_def split: option.splits)
  with x d store(2,3) show ?thesis by (cases "b = a") simp_all
qed

end
