(* ===== verification/FF_Move.thy ===== *)
theory FF_Move
  imports Ztg_Prelude "HOL-Library.Multiset"
begin

text \<open>
  Moves of Factor Fight (\<open>factorfight/move.go\<close>): arithmetic expressions over a pawn's
  position and the dice, their evaluation, and the enumeration of every legal pair of pawn
  moves. Go's \<open>int\<close> arithmetic wraps (\<open>int64\<close>); a nil pointer is \<open>None\<close>. The bump
  status stays an integer, because one that arrives from the network can be any.
\<close>

section \<open>Expressions\<close>

definition goal :: int where "goal = 101"

type_synonym bump_status = int

definition NoBump :: bump_status where "NoBump = 0"
definition BumpedPeer1 :: bump_status where "BumpedPeer1 = 1"
definition BumpedPeer2 :: bump_status where "BumpedPeer2 = 2"
definition BumpedSelf :: bump_status where "BumpedSelf = 3"

lemmas bump_defs = NoBump_def BumpedPeer1_def BumpedPeer2_def BumpedSelf_def

definition BumpStatus_String :: "bump_status \<Rightarrow> string" where
  "BumpStatus_String b =
     (if b = NoBump then ''NoBump''
      else if b = BumpedPeer1 then ''BumpedPeer1''
      else if b = BumpedPeer2 then ''BumpedPeer2''
      else if b = BumpedSelf then ''BumpedSelf''
      else ''Unknown'')"

type_synonym op = string

definition Add :: op where "Add = ''+''"
definition Sub :: op where "Sub = ''-''"
definition Mul :: op where "Mul = ''*''"
definition Div :: op where "Div = ''/''"

lemmas op_defs = Add_def Sub_def Mul_def Div_def

lemma op_distinct [simp]:
  "Add \<noteq> Sub" "Add \<noteq> Mul" "Add \<noteq> Div" "Sub \<noteq> Add" "Sub \<noteq> Mul" "Sub \<noteq> Div"
  "Mul \<noteq> Add" "Mul \<noteq> Sub" "Mul \<noteq> Div" "Div \<noteq> Add" "Div \<noteq> Sub" "Div \<noteq> Mul"
  by (simp_all add: op_defs)

text \<open>The struct \<open>Expr\<close>: all four fields are always there, whichever of them are nil.\<close>

datatype expr =
  Expr (expr_Op: op) (expr_Left: "expr option") (expr_Right: "expr option") (expr_Value: "int option")

definition V :: "int \<Rightarrow> expr" where
  "V n = Expr '''' None None (Some n)"

fun Expr_Eval :: "expr option \<Rightarrow> int res" where
  "Expr_Eval None = Inl (Panic ''nil pointer dereference'')"
| "Expr_Eval (Some (Expr op left right (Some n))) = Inr n"
| "Expr_Eval (Some (Expr op left right None)) =
     (case Expr_Eval left of
        Inl err \<Rightarrow> Inl err
      | Inr l \<Rightarrow>
          (case Expr_Eval right of
             Inl err \<Rightarrow> Inl err
           | Inr r \<Rightarrow>
               (if op = Add then Inr (int64 (l + r))
                else if op = Sub then Inr (int64 (l - r))
                else if op = Mul then Inr (int64 (l * r))
                else if op = Div then
                  (if r = 0 \<or> go_rem l r \<noteq> 0 then Inl (Errorf ''invalid division'')
                   else Inr (int64 (go_quot l r)))
                else Inl (Errorf ''unknown op''))))"

text \<open>An error becomes "not ok"; a panic is not an error and passes.\<close>

definition EvalWithMax :: "expr option \<Rightarrow> int \<Rightarrow> (int \<times> bool) res" where
  "EvalWithMax e limit =
     (case Expr_Eval e of
        Inl err \<Rightarrow> (if is_panic err then Inl err else Inr (0, False))
      | Inr r \<Rightarrow> (if r > limit then Inr (0, False) else Inr (r, True)))"

text \<open>
  \<open>Expr.String\<close>: \<open>%s\<close> on a nil operand prints \<open><nil>\<close> (the \<open>fmt\<close> package catches that
  panic), but calling the method itself on nil panics.
\<close>

fun Expr_show :: "expr option \<Rightarrow> string" where
  "Expr_show None = ''<nil>''"
| "Expr_show (Some (Expr op left right (Some n))) = Itoa n"
| "Expr_show (Some (Expr op left right None)) =
     ''('' @ Expr_show left @ '' '' @ op @ '' '' @ Expr_show right @ '')''"

definition Expr_String :: "expr option \<Rightarrow> string res" where
  "Expr_String e =
     (if e = None then Inl (Panic ''nil pointer dereference'') else Inr (Expr_show e))"

lemma EvalWithMax_ok_iff: "EvalWithMax e limit = Inr (r, True) \<longleftrightarrow> Expr_Eval e = Inr r \<and> r \<le> limit"
  by (auto simp: EvalWithMax_def split: sum.splits if_splits)

text \<open>A value equal to the limit is accepted: the test is "not above", not "below".\<close>

lemma EvalWithMax_accepts_limit: "EvalWithMax (Some (V goal)) goal = Inr (goal, True)"
  by (simp add: EvalWithMax_def V_def)

section \<open>Moves of one pawn\<close>

record pawn_move =
  pm_Expr :: "expr option"
  pm_Result :: int
  pm_Bump :: bump_status

record move =
  Pawn1 :: pawn_move
  Pawn2 :: pawn_move

text \<open>\<open>if res, ok := expr.EvalWithMax(goal); ok { moves = append(moves, ...) }\<close>\<close>

definition move_if_ok :: "expr \<Rightarrow> pawn_move list" where
  "move_if_ok e =
     (case EvalWithMax (Some e) goal of
        Inr (r, True) \<Rightarrow> [\<lparr>pm_Expr = Some e, pm_Result = r, pm_Bump = NoBump\<rparr>]
      | _ \<Rightarrow> [])"

definition ops :: "op list" where "ops = [Add, Sub, Mul, Div]"

definition binop :: "op \<Rightarrow> expr \<Rightarrow> expr \<Rightarrow> expr" where
  "binop op l r = Expr op (Some l) (Some r) None"

definition pawnMovesZeroDice :: "int \<Rightarrow> pawn_move list" where
  "pawnMovesZeroDice start = [\<lparr>pm_Expr = Some (V start), pm_Result = start, pm_Bump = NoBump\<rparr>]"

definition pawnMovesOneDie :: "int \<Rightarrow> int \<Rightarrow> pawn_move list" where
  "pawnMovesOneDie start die = concat (map (\<lambda>op. move_if_ok (binop op (V start) (V die))) ops)"

text \<open>The two \<open>continue\<close> statements: orders that give nothing new.\<close>

definition skip_second :: "op \<Rightarrow> op \<Rightarrow> bool" where
  "skip_second op1 op2 \<longleftrightarrow>
     (op1 = Add \<or> op1 = Sub) \<and> (op2 = Add \<or> op2 = Sub) \<or> op1 = Mul \<and> op2 = Mul"

definition pawnMovesTwoDice :: "int \<Rightarrow> int \<Rightarrow> int \<Rightarrow> pawn_move list" where
  "pawnMovesTwoDice start d1 d2 =
     concat (map (\<lambda>(a, b).
       concat (map (\<lambda>op1.
         concat (map (\<lambda>op2.
           move_if_ok (binop op2 (binop op1 (V start) (V a)) (V b))
           @ (if skip_second op1 op2 then []
              else move_if_ok (binop op1 (V start) (binop op2 (V a) (V b))))) ops)) ops))
     [(d1, d2), (d2, d1)])"

definition pawnMoves :: "int \<Rightarrow> int list \<Rightarrow> pawn_move list" where
  "pawnMoves start dice =
     (case dice of
        [] \<Rightarrow> pawnMovesZeroDice start
      | [d] \<Rightarrow> pawnMovesOneDie start d
      | [d1, d2] \<Rightarrow> pawnMovesTwoDice start d1 d2
      | _ \<Rightarrow> [])"

section \<open>Moves of both pawns\<close>

record dice_allocation =
  alloc1 :: "int list"
  alloc2 :: "int list"

definition allAllocations :: "int \<Rightarrow> int \<Rightarrow> int \<Rightarrow> int \<Rightarrow> dice_allocation list" where
  "allAllocations d1 d2 p1 p2 =
     (if p1 = goal \<and> p2 = goal then []
      else if p1 = goal then [\<lparr>alloc1 = [], alloc2 = [d1, d2]\<rparr>]
      else if p2 = goal then [\<lparr>alloc1 = [d1, d2], alloc2 = []\<rparr>]
      else [\<lparr>alloc1 = [], alloc2 = [d1, d2]\<rparr>,
            \<lparr>alloc1 = [d1, d2], alloc2 = []\<rparr>,
            \<lparr>alloc1 = [d1], alloc2 = [d2]\<rparr>,
            \<lparr>alloc1 = [d2], alloc2 = [d1]\<rparr>])"

text \<open>The five assignments that decide the bump of each pawn, in the code's order.\<close>

definition detectBumps :: "int \<Rightarrow> int \<Rightarrow> int \<Rightarrow> int \<Rightarrow> bump_status \<times> bump_status" where
  "detectBumps r1 r2 peer1 peer2 =
     (let b1 = NoBump; b2 = NoBump;
          b1 = (if r1 = peer1 \<and> peer1 \<noteq> goal then BumpedPeer1 else b1);
          b2 = (if r2 = peer1 \<and> peer1 \<noteq> goal then BumpedPeer1 else b2);
          b1 = (if r1 = peer2 \<and> peer2 \<noteq> goal then BumpedPeer2 else b1);
          b2 = (if r2 = peer2 \<and> peer2 \<noteq> goal then BumpedPeer2 else b2);
          b2 = (if r1 = r2 \<and> r1 \<noteq> goal then BumpedSelf else b2)
      in (b1, b2))"

text \<open>The body of the innermost loop of \<open>generateMoves\<close>: nothing, or one move.\<close>

definition combineMoves ::
    "int \<Rightarrow> int \<Rightarrow> int \<Rightarrow> int \<Rightarrow> pawn_move \<Rightarrow> pawn_move \<Rightarrow> move list" where
  "combineMoves p1 p2 peer1 peer2 m1 m2 =
     (if pm_Result m1 = p1 \<and> pm_Result m2 = p2 then []
      else if pm_Result m1 > goal \<or> pm_Result m2 > goal then []
      else (case detectBumps (pm_Result m1) (pm_Result m2) peer1 peer2 of
              (b1, b2) \<Rightarrow> [\<lparr>Pawn1 = m1\<lparr>pm_Bump := b1\<rparr>, Pawn2 = m2\<lparr>pm_Bump := b2\<rparr>\<rparr>]))"

definition generateMoves :: "int \<Rightarrow> int \<Rightarrow> int \<Rightarrow> int \<Rightarrow> int \<Rightarrow> int \<Rightarrow> move list" where
  "generateMoves p1 p2 d1 d2 peer1 peer2 =
     concat (map (\<lambda>alloc.
       concat (map (\<lambda>m1.
         concat (map (\<lambda>m2. combineMoves p1 p2 peer1 peer2 m1 m2) (pawnMoves p2 (alloc2 alloc))))
       (pawnMoves p1 (alloc1 alloc))))
     (allAllocations d1 d2 p1 p2))"

section \<open>What an enumerated pawn move is\<close>

text \<open>The numbers in an expression, left to right.\<close>

fun leaves :: "expr option \<Rightarrow> int list" where
  "leaves None = []"
| "leaves (Some (Expr op left right (Some n))) = [n]"
| "leaves (Some (Expr op left right None)) = leaves left @ leaves right"

lemma leaves_simps [simp]:
  "leaves (Some (V n)) = [n]"
  "leaves (Some (binop op l r)) = leaves (Some l) @ leaves (Some r)"
  by (simp_all add: V_def binop_def)

lemma Expr_Eval_V [simp]: "Expr_Eval (Some (V n)) = Inr n"
  by (simp add: V_def)

lemma Expr_Eval_binop:
  "Expr_Eval (Some (binop op l r)) =
     (case Expr_Eval (Some l) of
        Inl err \<Rightarrow> Inl err
      | Inr x \<Rightarrow>
          (case Expr_Eval (Some r) of
             Inl err \<Rightarrow> Inl err
           | Inr y \<Rightarrow>
               (if op = Add then Inr (int64 (x + y))
                else if op = Sub then Inr (int64 (x - y))
                else if op = Mul then Inr (int64 (x * y))
                else if op = Div then
                  (if y = 0 \<or> go_rem x y \<noteq> 0 then Inl (Errorf ''invalid division'')
                   else Inr (int64 (go_quot x y)))
                else Inl (Errorf ''unknown op''))))"
  by (simp add: binop_def)

text \<open>
  \<open>move_if_ok\<close> drops a panic like an error; on the expressions that the enumeration builds
  there is none to drop.
\<close>

lemma Expr_Eval_binop_no_panic:
  assumes "\<And>e. Expr_Eval (Some l) = Inl e \<Longrightarrow> \<not> is_panic e"
    and "\<And>e. Expr_Eval (Some r) = Inl e \<Longrightarrow> \<not> is_panic e"
    and "Expr_Eval (Some (binop op l r)) = Inl e"
  shows "\<not> is_panic e"
  using assms by (auto simp: Expr_Eval_binop split: sum.splits if_splits)

lemma enumerated_no_panic:
  "EvalWithMax (Some (binop op (V x) (V y))) m \<noteq> Inl e"
  "EvalWithMax (Some (binop op2 (binop op1 (V x) (V y)) (V z))) m \<noteq> Inl e"
  "EvalWithMax (Some (binop op1 (V x) (binop op2 (V y) (V z)))) m \<noteq> Inl e"
  by (auto simp: EvalWithMax_def dest!: Expr_Eval_binop_no_panic [rotated 2]
      split: sum.splits if_splits)

lemma set_move_if_ok:
  "pm \<in> set (move_if_ok e) \<longleftrightarrow>
     (\<exists>r. Expr_Eval (Some e) = Inr r \<and> r \<le> goal \<and> pm = \<lparr>pm_Expr = Some e, pm_Result = r, pm_Bump = NoBump\<rparr>)"
  by (auto simp: move_if_ok_def EvalWithMax_def split: sum.splits)

text \<open>A pawn move is justified when its own expression, over the position and its dice,
  evaluates to its result.\<close>

definition justified :: "int \<Rightarrow> int list \<Rightarrow> pawn_move \<Rightarrow> bool" where
  "justified start dice pm \<longleftrightarrow>
     Expr_Eval (pm_Expr pm) = Inr (pm_Result pm)
     \<and> mset (leaves (pm_Expr pm)) = add_mset start (mset dice)"

lemma pawnMoves_justified: "pm \<in> set (pawnMoves start dice) \<Longrightarrow> justified start dice pm"
  by (auto simp: pawnMoves_def pawnMovesZeroDice_def pawnMovesOneDie_def pawnMovesTwoDice_def
      set_move_if_ok justified_def split: list.splits if_splits)

lemma pawnMoves_bounded:
  "pm \<in> set (pawnMoves start dice) \<Longrightarrow> start \<le> goal \<Longrightarrow> pm_Result pm \<le> goal"
  by (auto simp: pawnMoves_def pawnMovesZeroDice_def pawnMovesOneDie_def pawnMovesTwoDice_def
      set_move_if_ok split: list.splits if_splits)

lemma pawnMoves_no_dice: "pm \<in> set (pawnMoves start []) \<Longrightarrow> pm_Result pm = start"
  by (simp add: pawnMoves_def pawnMovesZeroDice_def)

lemma Expr_Eval_int64:
  "Expr_Eval e = Inr r \<Longrightarrow> (\<And>n. n \<in> set (leaves e) \<Longrightarrow> is_int64 n) \<Longrightarrow> is_int64 r"
  by (induction e arbitrary: r rule: Expr_Eval.induct) (auto split: sum.splits if_splits)

section \<open>What an enumerated move is\<close>

lemma set_combineMoves:
  "m \<in> set (combineMoves p1 p2 q1 q2 m1 m2) \<longleftrightarrow>
     \<not> (pm_Result m1 = p1 \<and> pm_Result m2 = p2)
     \<and> pm_Result m1 \<le> goal \<and> pm_Result m2 \<le> goal
     \<and> m = \<lparr>Pawn1 = m1\<lparr>pm_Bump := fst (detectBumps (pm_Result m1) (pm_Result m2) q1 q2)\<rparr>,
            Pawn2 = m2\<lparr>pm_Bump := snd (detectBumps (pm_Result m1) (pm_Result m2) q1 q2)\<rparr>\<rparr>"
  by (cases "detectBumps (pm_Result m1) (pm_Result m2) q1 q2") (auto simp: combineMoves_def)

lemma set_generateMoves:
  "m \<in> set (generateMoves p1 p2 d1 d2 q1 q2) \<longleftrightarrow>
     (\<exists>al \<in> set (allAllocations d1 d2 p1 p2). \<exists>m1 \<in> set (pawnMoves p1 (alloc1 al)).
        \<exists>m2 \<in> set (pawnMoves p2 (alloc2 al)). m \<in> set (combineMoves p1 p2 q1 q2 m1 m2))"
  by (auto simp: generateMoves_def)

lemma allAllocations_dice:
  "al \<in> set (allAllocations d1 d2 p1 p2) \<Longrightarrow>
     mset (alloc1 al) + mset (alloc2 al) = {#d1, d2#}
     \<and> (p1 = goal \<longrightarrow> alloc1 al = []) \<and> (p2 = goal \<longrightarrow> alloc2 al = [])"
  by (auto simp: allAllocations_def split: if_splits)

text \<open>
  The rules of the game, on a pair of pawn moves. A pawn that ends on a peer pawn away from the
  goal bumps it, the second peer pawn when both stand there; and when both own pawns end on one
  square away from the goal, the second one bumps the first, whoever else is there.
\<close>

definition legal_move :: "int \<Rightarrow> int \<Rightarrow> int \<Rightarrow> int \<Rightarrow> int \<Rightarrow> int \<Rightarrow> move \<Rightarrow> bool" where
  "legal_move p1 p2 d1 d2 q1 q2 m \<longleftrightarrow>
     (let r1 = pm_Result (Pawn1 m); r2 = pm_Result (Pawn2 m);
          e1 = pm_Expr (Pawn1 m); e2 = pm_Expr (Pawn2 m) in
      Expr_Eval e1 = Inr r1 \<and> Expr_Eval e2 = Inr r2
      \<and> mset (leaves e1) + mset (leaves e2) = {#p1, p2, d1, d2#}
      \<and> (r1 \<noteq> p1 \<or> r2 \<noteq> p2) \<and> r1 \<le> goal \<and> r2 \<le> goal
      \<and> (p1 = goal \<longrightarrow> r1 = goal) \<and> (p2 = goal \<longrightarrow> r2 = goal)
      \<and> pm_Bump (Pawn1 m) =
          (if r1 = q2 \<and> q2 \<noteq> goal then BumpedPeer2
           else if r1 = q1 \<and> q1 \<noteq> goal then BumpedPeer1 else NoBump)
      \<and> pm_Bump (Pawn2 m) =
          (if r1 = r2 \<and> r1 \<noteq> goal then BumpedSelf
           else if r2 = q2 \<and> q2 \<noteq> goal then BumpedPeer2
           else if r2 = q1 \<and> q1 \<noteq> goal then BumpedPeer1 else NoBump))"

text \<open>The code overwrites the two statuses in turn; the last assignment that applies wins.\<close>

lemma detectBumps_eq:
  "detectBumps r1 r2 q1 q2 =
     (if r1 = q2 \<and> q2 \<noteq> goal then BumpedPeer2
      else if r1 = q1 \<and> q1 \<noteq> goal then BumpedPeer1 else NoBump,
      if r1 = r2 \<and> r1 \<noteq> goal then BumpedSelf
      else if r2 = q2 \<and> q2 \<noteq> goal then BumpedPeer2
      else if r2 = q1 \<and> q1 \<noteq> goal then BumpedPeer1 else NoBump)"
  by (simp add: detectBumps_def Let_def)

lemma legal_moveD:
  assumes "legal_move p1 p2 d1 d2 q1 q2 m"
  shows "Expr_Eval (pm_Expr (Pawn1 m)) = Inr (pm_Result (Pawn1 m))"
    and "Expr_Eval (pm_Expr (Pawn2 m)) = Inr (pm_Result (Pawn2 m))"
    and "mset (leaves (pm_Expr (Pawn1 m))) + mset (leaves (pm_Expr (Pawn2 m))) = {#p1, p2, d1, d2#}"
    and "pm_Result (Pawn1 m) \<le> goal" "pm_Result (Pawn2 m) \<le> goal"
    and "p1 = goal \<Longrightarrow> pm_Result (Pawn1 m) = goal" "p2 = goal \<Longrightarrow> pm_Result (Pawn2 m) = goal"
  using assms unfolding legal_move_def Let_def by blast+

lemma legal_move_detectBumps:
  "legal_move p1 p2 d1 d2 q1 q2 m \<Longrightarrow>
     detectBumps (pm_Result (Pawn1 m)) (pm_Result (Pawn2 m)) q1 q2
       = (pm_Bump (Pawn1 m), pm_Bump (Pawn2 m))"
  unfolding legal_move_def Let_def detectBumps_eq by (elim conjE) simp

lemma generateMoves_legal:
  assumes "m \<in> set (generateMoves p1 p2 d1 d2 q1 q2)"
  shows "legal_move p1 p2 d1 d2 q1 q2 m"
proof -
  from assms obtain al m1 m2 where al: "al \<in> set (allAllocations d1 d2 p1 p2)"
    and m1: "m1 \<in> set (pawnMoves p1 (alloc1 al))" and m2: "m2 \<in> set (pawnMoves p2 (alloc2 al))"
    and m: "m \<in> set (combineMoves p1 p2 q1 q2 m1 m2)"
    by (auto simp: set_generateMoves)
  note dice = allAllocations_dice [OF al]
  have "p1 = goal \<Longrightarrow> pm_Result m1 = goal" "p2 = goal \<Longrightarrow> pm_Result m2 = goal"
    using dice m1 m2 by (auto dest: pawnMoves_no_dice)
  moreover have "add_mset p1 (mset (alloc1 al)) + add_mset p2 (mset (alloc2 al)) = {#p1, p2, d1, d2#}"
    using dice by (simp add: union_mset_add_mset_left union_mset_add_mset_right)
  ultimately show ?thesis
    using m pawnMoves_justified [OF m1] pawnMoves_justified [OF m2]
    by (auto simp: legal_move_def set_combineMoves justified_def detectBumps_eq)
qed

text \<open>C22: every generated move follows the rules. Each pawn's result is the value of its own
  expression; the two expressions together use both positions and each die exactly once; at
  least one pawn moves, none passes the goal, a pawn on the goal stays. A pawn that ends on a
  peer pawn away from the goal bumps that pawn, the second where both stand; a second pawn
  that ends on the first away from the goal bumps the first instead; nothing else is bumped.\<close>

theorem generateMoves_follow_rules:
  assumes "m \<in> set (generateMoves p1 p2 d1 d2 peer1 peer2)"
  shows "let r1 = pm_Result (Pawn1 m); r2 = pm_Result (Pawn2 m);
             e1 = pm_Expr (Pawn1 m); e2 = pm_Expr (Pawn2 m) in
    Expr_Eval e1 = Inr r1 \<and> Expr_Eval e2 = Inr r2
    \<and> mset (leaves e1) + mset (leaves e2) = {#p1, p2, d1, d2#}
    \<and> (r1 \<noteq> p1 \<or> r2 \<noteq> p2) \<and> r1 \<le> goal \<and> r2 \<le> goal
    \<and> (p1 = goal \<longrightarrow> r1 = goal) \<and> (p2 = goal \<longrightarrow> r2 = goal)
    \<and> pm_Bump (Pawn1 m) =
        (if r1 = peer2 \<and> peer2 \<noteq> goal then BumpedPeer2
         else if r1 = peer1 \<and> peer1 \<noteq> goal then BumpedPeer1 else NoBump)
    \<and> pm_Bump (Pawn2 m) =
        (if r1 = r2 \<and> r1 \<noteq> goal then BumpedSelf
         else if r2 = peer2 \<and> peer2 \<noteq> goal then BumpedPeer2
         else if r2 = peer1 \<and> peer1 \<noteq> goal then BumpedPeer1 else NoBump)"
  using generateMoves_legal [OF assms] by (simp only: legal_move_def)

text \<open>Both own pawns end on the second peer pawn: the first bumps it, the second its own
  fellow. In the other game, the second pawn ends on the first peer pawn.\<close>

definition moves_to :: "int \<Rightarrow> int \<Rightarrow> move list \<Rightarrow> move list" where
  "moves_to r1 r2 = filter (\<lambda>m. pm_Result (Pawn1 m) = r1 \<and> pm_Result (Pawn2 m) = r2)"

lemma hd_moves_to:
  assumes "moves_to r1 r2 ms \<noteq> []"
  shows "hd (moves_to r1 r2 ms) \<in> set ms"
    and "pm_Result (Pawn1 (hd (moves_to r1 r2 ms))) = r1" "pm_Result (Pawn2 (hd (moves_to r1 r2 ms))) = r2"
  using hd_in_set [OF assms] by (simp_all add: moves_to_def)

theorem generateMoves_follow_rules_witness:
  "let m = hd (moves_to 50 50 (generateMoves 48 53 2 3 0 50)); m' = hd (moves_to 46 50 (generateMoves 48 53 2 3 50 0)) in
   legal_move 48 53 2 3 0 50 m \<and> pm_Bump (Pawn1 m) = BumpedPeer2 \<and> pm_Bump (Pawn2 m) = BumpedSelf
   \<and> pm_Bump (Pawn1 m') = NoBump \<and> pm_Bump (Pawn2 m') = BumpedPeer1"
proof -
  have "moves_to 50 50 (generateMoves 48 53 2 3 0 50) \<noteq> []" by code_simp
  note m = hd_moves_to [OF this]
  have "moves_to 46 50 (generateMoves 48 53 2 3 50 0) \<noteq> []" by code_simp
  note m' = hd_moves_to [OF this]
  from generateMoves_follow_rules [OF m(1)] generateMoves_follow_rules [OF m'(1)] m m' show ?thesis
    by (simp add: legal_move_def Let_def goal_def)
qed

section \<open>The skipped orders lose no result\<close>

definition pawnMovesTwoDice_all :: "int \<Rightarrow> int \<Rightarrow> int \<Rightarrow> pawn_move list" where
  "pawnMovesTwoDice_all start d1 d2 =
     concat (map (\<lambda>(a, b).
       concat (map (\<lambda>op1.
         concat (map (\<lambda>op2.
           move_if_ok (binop op2 (binop op1 (V start) (V a)) (V b))
           @ move_if_ok (binop op1 (V start) (binop op2 (V a) (V b)))) ops)) ops))
     [(d1, d2), (d2, d1)])"

lemma skipped_reassoc:
  assumes "skip_second op1 op2"
  shows "\<exists>op1' \<in> set ops. \<exists>op2' \<in> set ops.
    Expr_Eval (Some (binop op1 (V s) (binop op2 (V a) (V b))))
      = Expr_Eval (Some (binop op2' (binop op1' (V s) (V a)) (V b)))"
proof -
  let ?second = "\<lambda>o1 o2. Expr_Eval (Some (binop o1 (V s) (binop o2 (V a) (V b))))"
  let ?first = "\<lambda>o1 o2. Expr_Eval (Some (binop o2 (binop o1 (V s) (V a)) (V b)))"
  have "?second Add Add = ?first Add Add" "?second Add Sub = ?first Add Sub"
    "?second Sub Add = ?first Sub Sub" "?second Sub Sub = ?first Sub Add"
    "?second Mul Mul = ?first Mul Mul"
    by (simp_all add: Expr_Eval_binop int64_absorb add.assoc mult.assoc diff_diff_eq
        add_diff_eq diff_diff_eq2 diff_add_eq)
  moreover from assms have "(op1, op2) \<in> {(Add, Add), (Add, Sub), (Sub, Add), (Sub, Sub), (Mul, Mul)}"
    by (auto simp: skip_second_def)
  moreover have "{Add, Sub, Mul} \<subseteq> set ops" by (simp add: ops_def)
  ultimately show ?thesis by blast
qed

lemma set_pawnMovesTwoDice:
  "set (pawnMovesTwoDice start d1 d2) =
     (\<Union>(a, b) \<in> {(d1, d2), (d2, d1)}. \<Union>op1 \<in> set ops. \<Union>op2 \<in> set ops.
        set (move_if_ok (binop op2 (binop op1 (V start) (V a)) (V b)))
        \<union> (if skip_second op1 op2 then {}
           else set (move_if_ok (binop op1 (V start) (binop op2 (V a) (V b))))))"
  by (simp add: pawnMovesTwoDice_def if_distrib [of set] cong: if_cong)

lemma set_pawnMovesTwoDice_all:
  "set (pawnMovesTwoDice_all start d1 d2) =
     (\<Union>(a, b) \<in> {(d1, d2), (d2, d1)}. \<Union>op1 \<in> set ops. \<Union>op2 \<in> set ops.
        set (move_if_ok (binop op2 (binop op1 (V start) (V a)) (V b)))
        \<union> set (move_if_ok (binop op1 (V start) (binop op2 (V a) (V b)))))"
  by (simp add: pawnMovesTwoDice_all_def)

lemma pawnMovesTwoDice_first:
  "op1 \<in> set ops \<Longrightarrow> op2 \<in> set ops \<Longrightarrow> (a, b) \<in> {(d1, d2), (d2, d1)} \<Longrightarrow>
     set (move_if_ok (binop op2 (binop op1 (V start) (V a)) (V b))) \<subseteq> set (pawnMovesTwoDice start d1 d2)"
  unfolding set_pawnMovesTwoDice by blast

lemma pawnMovesTwoDice_second:
  "op1 \<in> set ops \<Longrightarrow> op2 \<in> set ops \<Longrightarrow> (a, b) \<in> {(d1, d2), (d2, d1)} \<Longrightarrow> \<not> skip_second op1 op2 \<Longrightarrow>
     set (move_if_ok (binop op1 (V start) (binop op2 (V a) (V b)))) \<subseteq> set (pawnMovesTwoDice start d1 d2)"
  unfolding set_pawnMovesTwoDice by fastforce

lemma move_if_ok_same_value:
  "Expr_Eval (Some e) = Expr_Eval (Some e') \<Longrightarrow>
     pm_Result ` set (move_if_ok e) = pm_Result ` set (move_if_ok e')"
  by (force simp: set_move_if_ok image_iff)

text \<open>The two \<open>continue\<close> statements are an optimisation only. Leaving out the second
  association order for sums and differences, and for products, loses no reachable result,
  also where the arithmetic wraps around.\<close>

theorem skipped_orders_redundant:
  "pm_Result ` set (pawnMovesTwoDice start d1 d2) = pm_Result ` set (pawnMovesTwoDice_all start d1 d2)"
proof
  have "set (pawnMovesTwoDice start d1 d2) \<subseteq> set (pawnMovesTwoDice_all start d1 d2)"
    unfolding set_pawnMovesTwoDice set_pawnMovesTwoDice_all by (fastforce split: if_splits)
  then show "pm_Result ` set (pawnMovesTwoDice start d1 d2)
      \<subseteq> pm_Result ` set (pawnMovesTwoDice_all start d1 d2)" by (rule image_mono)
next
  let ?R = "pm_Result ` set (pawnMovesTwoDice start d1 d2)"
  have second: "pm_Result ` set (move_if_ok (binop op1 (V start) (binop op2 (V a) (V b)))) \<subseteq> ?R"
    if ops: "op1 \<in> set ops" "op2 \<in> set ops" "(a, b) \<in> {(d1, d2), (d2, d1)}" for op1 op2 a b
  proof (cases "skip_second op1 op2")
    case True
    from skipped_reassoc [OF this, of start a b] obtain op1' op2'
      where o: "op1' \<in> set ops" "op2' \<in> set ops"
        and "Expr_Eval (Some (binop op1 (V start) (binop op2 (V a) (V b))))
          = Expr_Eval (Some (binop op2' (binop op1' (V start) (V a)) (V b)))" by blast
    then have "pm_Result ` set (move_if_ok (binop op1 (V start) (binop op2 (V a) (V b))))
        = pm_Result ` set (move_if_ok (binop op2' (binop op1' (V start) (V a)) (V b)))"
      by (intro move_if_ok_same_value)
    with image_mono [OF pawnMovesTwoDice_first [OF o ops(3)]] show ?thesis by simp
  next
    case False
    from image_mono [OF pawnMovesTwoDice_second [OF ops this]] show ?thesis by simp
  qed
  show "pm_Result ` set (pawnMovesTwoDice_all start d1 d2) \<subseteq> ?R"
    unfolding set_pawnMovesTwoDice_all image_UN
  proof (intro UN_least, clarify)
    fix a b op1 op2 x pm
    assume ab: "(a, b) \<in> {(d1, d2), (d2, d1)}" and ops: "op1 \<in> set ops" "op2 \<in> set ops"
      and pm: "pm \<in> set (move_if_ok (binop op2 (binop op1 (V start) (V a)) (V b)))
        \<union> set (move_if_ok (binop op1 (V start) (binop op2 (V a) (V b))))"
    from pm show "pm_Result pm \<in> ?R"
    proof
      assume "pm \<in> set (move_if_ok (binop op2 (binop op1 (V start) (V a)) (V b)))"
      with pawnMovesTwoDice_first [OF ops ab] show ?thesis by blast
    next
      assume "pm \<in> set (move_if_ok (binop op1 (V start) (binop op2 (V a) (V b))))"
      with second [OF ops ab] show ?thesis by blast
    qed
  qed
qed

section \<open>There is always a move\<close>

text \<open>Going down from a position above zero, up from one below it, cannot overflow.\<close>

lemma pawnMovesTwoDice_progress:
  assumes "is_int64 p" and "p \<le> goal" and "1 \<le> d1" "d1 \<le> 20" and "1 \<le> d2" "d2 \<le> 20"
  shows "\<exists>pm \<in> set (pawnMovesTwoDice p d1 d2). pm_Result pm \<noteq> p \<and> pm_Result pm \<le> goal"
proof -
  define op where "op = (if p \<ge> 0 then Sub else Add)"
  define r where "r = (if p \<ge> 0 then p - d1 - d2 else p + d1 + d2)"
  let ?e = "binop op (binop op (V p) (V d1)) (V d2)"
  have ev: "Expr_Eval (Some ?e) = Inr r"
    using assms by (auto simp: op_def r_def Expr_Eval_binop int64_id is_int64_def goal_def)
  have r: "r \<noteq> p" "r \<le> goal" using assms by (auto simp: r_def goal_def)
  with ev have "\<lparr>pm_Expr = Some ?e, pm_Result = r, pm_Bump = NoBump\<rparr> \<in> set (move_if_ok ?e)"
    by (simp add: set_move_if_ok)
  moreover have "op \<in> set ops" by (simp add: op_def ops_def)
  ultimately have "\<lparr>pm_Expr = Some ?e, pm_Result = r, pm_Bump = NoBump\<rparr>
      \<in> set (pawnMovesTwoDice p d1 d2)"
    using pawnMovesTwoDice_first [of op op d1 d2 d1 d2 p] by blast
  with r show ?thesis by (metis pawn_move.select_convs(2))
qed

lemma generateMoves_nonempty:
  assumes "al \<in> set (allAllocations d1 d2 p1 p2)"
    and "m1 \<in> set (pawnMoves p1 (alloc1 al))" and "m2 \<in> set (pawnMoves p2 (alloc2 al))"
    and "pm_Result m1 \<noteq> p1 \<or> pm_Result m2 \<noteq> p2" "pm_Result m1 \<le> goal" "pm_Result m2 \<le> goal"
  shows "generateMoves p1 p2 d1 d2 q1 q2 \<noteq> []"
proof -
  from assms have "\<exists>m. m \<in> set (generateMoves p1 p2 d1 d2 q1 q2)"
    unfolding set_generateMoves set_combineMoves by blast
  then show ?thesis by auto
qed

lemma generateMoves_progress:
  assumes "is_int64 p1" "is_int64 p2" and "p1 \<le> goal" "p2 \<le> goal"
    and "1 \<le> d1" "d1 \<le> 20" and "1 \<le> d2" "d2 \<le> 20" and "\<not> (p1 = goal \<and> p2 = goal)"
  shows "generateMoves p1 p2 d1 d2 q1 q2 \<noteq> []"
proof -
  have zero: "\<exists>pm \<in> set (pawnMoves p []). pm_Result pm = p" for p
    by (simp add: pawnMoves_def pawnMovesZeroDice_def)
  have two: "\<exists>pm \<in> set (pawnMoves p [d1, d2]). pm_Result pm \<noteq> p \<and> pm_Result pm \<le> goal"
    if "is_int64 p" "p \<le> goal" for p
    using pawnMovesTwoDice_progress [OF that assms(5-8)] by (simp add: pawnMoves_def)
  show ?thesis
  proof (cases "p2 = goal")
    case True
    then have "\<lparr>alloc1 = [d1, d2], alloc2 = []\<rparr> \<in> set (allAllocations d1 d2 p1 p2)"
      using assms(9) by (simp add: allAllocations_def)
    moreover obtain m1 where "m1 \<in> set (pawnMoves p1 [d1, d2])" "pm_Result m1 \<noteq> p1" "pm_Result m1 \<le> goal"
      using two [OF assms(1,3)] by blast
    moreover obtain m2 where "m2 \<in> set (pawnMoves p2 [])" "pm_Result m2 = p2" using zero by blast
    ultimately show ?thesis using assms(4) generateMoves_nonempty [of _ d1 d2 p1 p2 m1 m2] by simp
  next
    case False
    then have "\<lparr>alloc1 = [], alloc2 = [d1, d2]\<rparr> \<in> set (allAllocations d1 d2 p1 p2)"
      by (simp add: allAllocations_def)
    moreover obtain m2 where "m2 \<in> set (pawnMoves p2 [d1, d2])" "pm_Result m2 \<noteq> p2" "pm_Result m2 \<le> goal"
      using two [OF assms(2,4)] by blast
    moreover obtain m1 where "m1 \<in> set (pawnMoves p1 [])" "pm_Result m1 = p1" using zero by blast
    ultimately show ?thesis using assms(3) generateMoves_nonempty [of _ d1 d2 p1 p2 m1 m2] by simp
  qed
qed

text \<open>C27: a player who has not won always has a move. For every pair of positions a game can
  reach and every roll of two dice, \<open>generateMoves\<close> is empty exactly when both pawns
  already stand on the goal, so "no valid moves" is never reported during a game.\<close>

theorem generateMoves_empty_iff:
  assumes "is_int64 p1" "is_int64 p2" and "p1 \<le> goal" "p2 \<le> goal"
    and "1 \<le> d1" "d1 \<le> 10" and "1 \<le> d2" "d2 \<le> 10"
  shows "generateMoves p1 p2 d1 d2 peer1 peer2 = [] \<longleftrightarrow> p1 = goal \<and> p2 = goal"
proof
  assume "generateMoves p1 p2 d1 d2 peer1 peer2 = []"
  with generateMoves_progress [of p1 p2 d1 d2 peer1 peer2] assms show "p1 = goal \<and> p2 = goal" by force
next
  assume "p1 = goal \<and> p2 = goal"
  then show "generateMoves p1 p2 d1 d2 peer1 peer2 = []"
    by (simp add: generateMoves_def allAllocations_def)
qed

theorem generateMoves_empty_iff_witness:
  "generateMoves 101 (-9223372036854775808) 3 10 0 0 \<noteq> []"
  using generateMoves_empty_iff [of 101 "-9223372036854775808" 3 10 0 0]
  by (simp add: is_int64_def goal_def)

end
