(* ===== verification/FF_Game.thy ===== *)
theory FF_Game
  imports FF_Move
begin

text \<open>
  The state of a Factor Fight game (\<open>factorfight/game.go\<close>, \<open>strategy.go\<close>): positions and
  log, the two ways a move updates them, the validation of the peer's moves, and the default
  strategy. A \<open>State\<close> inside a log entry has a nil log, so it is the base record
  \<open>positions\<close>, and the state of a game is its extension by the log. The lemmas show that the
  two players' views stay mirror images, and that generated and validated moves keep the
  board well-formed.
\<close>

section \<open>State and log\<close>

record positions =
  Pawn1Pos :: int
  Pawn2Pos :: int
  PeerPawn1Pos :: int
  PeerPawn2Pos :: int

record log_entry =
  Player :: string
  entry_Move :: move
  TurnNum :: int
  IsPeer :: bool
  FromState :: positions
  entry_State :: positions
  Rolls :: "16 word \<times> 16 word"

record game_state = positions +
  GameLog :: "log_entry list"

definition initial_state :: game_state where
  "initial_state = \<lparr>Pawn1Pos = 0, Pawn2Pos = 0, PeerPawn1Pos = 0, PeerPawn2Pos = 0, GameLog = []\<rparr>"

text \<open>The \<open>switch\<close> over one pawn's bump status, for our own moves and for the peer's.\<close>

definition own_bump :: "bump_status \<Rightarrow> 'a positions_scheme \<Rightarrow> 'a positions_scheme" where
  "own_bump b s =
     (if b = BumpedPeer1 then s\<lparr>PeerPawn1Pos := 0\<rparr>
      else if b = BumpedPeer2 then s\<lparr>PeerPawn2Pos := 0\<rparr>
      else if b = BumpedSelf then s\<lparr>Pawn1Pos := 0\<rparr>
      else s)"

definition peer_bump :: "bump_status \<Rightarrow> 'a positions_scheme \<Rightarrow> 'a positions_scheme" where
  "peer_bump b s =
     (if b = BumpedPeer1 then s\<lparr>Pawn1Pos := 0\<rparr>
      else if b = BumpedPeer2 then s\<lparr>Pawn2Pos := 0\<rparr>
      else if b = BumpedSelf then s\<lparr>PeerPawn1Pos := 0\<rparr>
      else s)"

definition State_Move :: "move \<Rightarrow> 'a positions_scheme \<Rightarrow> 'a positions_scheme" where
  "State_Move m s =
     own_bump (pm_Bump (Pawn2 m)) (own_bump (pm_Bump (Pawn1 m))
       (s\<lparr>Pawn1Pos := pm_Result (Pawn1 m), Pawn2Pos := pm_Result (Pawn2 m)\<rparr>))"

definition State_PeerMove :: "move \<Rightarrow> 'a positions_scheme \<Rightarrow> 'a positions_scheme" where
  "State_PeerMove m s =
     peer_bump (pm_Bump (Pawn2 m)) (peer_bump (pm_Bump (Pawn1 m))
       (s\<lparr>PeerPawn1Pos := pm_Result (Pawn1 m), PeerPawn2Pos := pm_Result (Pawn2 m)\<rparr>))"

definition State_Win :: "'a positions_scheme \<Rightarrow> bool" where
  "State_Win s \<longleftrightarrow> Pawn1Pos s = goal \<and> Pawn2Pos s = goal"

definition State_Lose :: "'a positions_scheme \<Rightarrow> bool" where
  "State_Lose s \<longleftrightarrow> PeerPawn1Pos s = goal \<and> PeerPawn2Pos s = goal"

definition AddGameLogEntry ::
    "move \<Rightarrow> int \<Rightarrow> bool \<Rightarrow> 16 word list \<Rightarrow> game_state \<Rightarrow> game_state" where
  "AddGameLogEntry m turnNum isPeer rolls s =
     (let rollsArray = (if length rolls \<ge> 2 then (rolls ! 0, rolls ! 1) else (0, 0));
          newState = (if isPeer then State_PeerMove m s else State_Move m s);
          name = (if isPeer then ''Peer'' else ''Self'')
      in s\<lparr>GameLog := GameLog s @
            [\<lparr>Player = name, entry_Move = m, TurnNum = turnNum, IsPeer = isPeer,
              FromState = positions.truncate s, entry_State = positions.truncate newState,
              Rolls = rollsArray\<rparr>]\<rparr>)"

text \<open>
  \<open>GameLog.String\<close>, line by line; it panics at the first move that has no expression. The arrow
  is three bytes of UTF-8.
\<close>

definition entry_text :: "log_entry \<Rightarrow> string res" where
  "entry_text e =
     (let player = Player e @ (if IsPeer e then '' (peer)'' else '''');
          arrow = '' '' @ [CHR 0xE2, CHR 0x86, CHR 0x92] @ '' '';
          pawn = (\<lambda>n t p. ''  Pawn'' @ n @ '': '' @ t @ arrow @ Itoa (pm_Result p)
                   @ '' ('' @ BumpStatus_String (pm_Bump p) @ '')'' @ [CHR 10]);
          pos = (\<lambda>s. ''P1='' @ Itoa (Pawn1Pos s) @ '', P2='' @ Itoa (Pawn2Pos s)
                   @ '' | PeerP1='' @ Itoa (PeerPawn1Pos s) @ '', PeerP2='' @ Itoa (PeerPawn2Pos s)
                   @ [CHR 10])
      in (case Expr_String (pm_Expr (Pawn1 (entry_Move e))) of
            Inl err \<Rightarrow> Inl err
          | Inr t1 \<Rightarrow>
         (case Expr_String (pm_Expr (Pawn2 (entry_Move e))) of
            Inl err \<Rightarrow> Inl err
          | Inr t2 \<Rightarrow> Inr
        (''Turn '' @ Itoa (TurnNum e) @ '' - '' @ player @ '':'' @ [CHR 10]
         @ ''  Rolls: ['' @ Itoa (uint (fst (Rolls e))) @ '', '' @ Itoa (uint (snd (Rolls e))) @ '']'' @ [CHR 10]
         @ pawn ''1'' t1 (Pawn1 (entry_Move e)) @ pawn ''2'' t2 (Pawn2 (entry_Move e))
         @ ''   From: '' @ pos (FromState e) @ ''  State: '' @ pos (entry_State e) @ [CHR 10]))))"

fun entries_text :: "log_entry list \<Rightarrow> string res" where
  "entries_text [] = Inr ''''"
| "entries_text (e # es) =
     (case entry_text e of
        Inl err \<Rightarrow> Inl err
      | Inr t \<Rightarrow>
     (case entries_text es of
        Inl err \<Rightarrow> Inl err
      | Inr ts \<Rightarrow> Inr (t @ ts)))"

definition GameLog_String :: "log_entry list \<Rightarrow> string res" where
  "GameLog_String gl =
     (if gl = [] then Inr ''No moves logged yet.''
      else (case entries_text gl of
          Inl err \<Rightarrow> Inl err
        | Inr ts \<Rightarrow> Inr
           (''Game Log ('' @ Itoa (int (length gl)) @ '' moves):'' @ [CHR 10]
            @ ''================'' @ [CHR 10]
            @ ts
            @ (if State_Win (entry_State (last gl)) then ''Win!'' else ''Lose!'') @ [CHR 10])))"

text \<open>The logs that can be printed.\<close>

definition has_exprs :: "move \<Rightarrow> bool" where
  "has_exprs m \<longleftrightarrow> pm_Expr (Pawn1 m) \<noteq> None \<and> pm_Expr (Pawn2 m) \<noteq> None"

definition printable :: "log_entry list \<Rightarrow> bool" where
  "printable log \<longleftrightarrow> (\<forall>e \<in> set log. has_exprs (entry_Move e))"

lemma entries_text_Inr_iff: "(\<exists>t. entries_text log = Inr t) \<longleftrightarrow> printable log"
  by (induction log)
    (auto simp: printable_def has_exprs_def entry_text_def Expr_String_def Let_def split: sum.splits)

lemma printable_text:
  assumes "printable log"
  obtains t where "entries_text log = Inr t"
  using assms by (auto simp flip: entries_text_Inr_iff)

lemma legal_move_has_exprs: "legal_move p1 p2 d1 d2 q1 q2 m \<Longrightarrow> has_exprs m"
  using legal_moveD(1,2) [of p1 p2 d1 d2 q1 q2 m]
  by (cases "pm_Expr (Pawn1 m)"; cases "pm_Expr (Pawn2 m)"; simp add: has_exprs_def)

lemma generateMoves_has_exprs: "m \<in> set (generateMoves p1 p2 d1 d2 q1 q2) \<Longrightarrow> has_exprs m"
  by (rule legal_move_has_exprs [OF generateMoves_legal])

section \<open>Validating the peer's move\<close>

text \<open>The peer's move is compared by results and bumps; its expressions are not looked at.\<close>

definition same_effect :: "move \<Rightarrow> move \<Rightarrow> bool" where
  "same_effect m m' \<longleftrightarrow>
     pm_Result (Pawn1 m) = pm_Result (Pawn1 m') \<and> pm_Result (Pawn2 m) = pm_Result (Pawn2 m')
     \<and> pm_Bump (Pawn1 m) = pm_Bump (Pawn1 m') \<and> pm_Bump (Pawn2 m) = pm_Bump (Pawn2 m')"

definition validateMove :: "16 word list \<Rightarrow> 'a positions_scheme \<Rightarrow> move \<Rightarrow> go_error option" where
  "validateMove rolls s m =
     (if length rolls < 2 then Some (Panic ''index out of range'')
      else let d1 = uint (rolls ! 0); d2 = uint (rolls ! 1);
               moves = generateMoves (PeerPawn1Pos s) (PeerPawn2Pos s) d1 d2 (Pawn1Pos s) (Pawn2Pos s)
      in if moves = [] then Some (Errorf ''no valid moves'')
         else if \<not> list_ex (\<lambda>m'. same_effect m' m) moves then
           (if pm_Expr (Pawn1 m) = None then Some (Panic ''nil pointer dereference'')
            else Some (Errorf ''other player completed invalid move: %s = %d''))
         else None)"

lemma validateMove_None_iff:
  assumes "2 \<le> length rolls"
  shows "validateMove rolls s m = None \<longleftrightarrow>
    (\<exists>m' \<in> set (generateMoves (PeerPawn1Pos s) (PeerPawn2Pos s) (uint (rolls ! 0)) (uint (rolls ! 1))
                  (Pawn1Pos s) (Pawn2Pos s)). same_effect m' m)"
  using assms by (auto simp: validateMove_def Let_def list_ex_iff)

lemma same_effect_refl [simp]: "same_effect m m"
  by (simp add: same_effect_def)

lemma State_PeerMove_same_effect: "same_effect m m' \<Longrightarrow> State_PeerMove m s = State_PeerMove m' s"
  by (simp add: same_effect_def State_PeerMove_def)

lemma State_Move_same_effect: "same_effect m m' \<Longrightarrow> State_Move m s = State_Move m' s"
  by (simp add: same_effect_def State_Move_def)

section \<open>The default strategy\<close>

definition closest_step :: "move \<Rightarrow> move \<Rightarrow> move" where
  "closest_step best m =
     (let best = (if pm_Result (Pawn1 m) > pm_Result (Pawn1 best) then m else best)
      in if pm_Result (Pawn2 m) > pm_Result (Pawn2 best) then m else best)"

text \<open>\<open>moves[0]\<close> panics on an empty list.\<close>

definition ClosestMove_ChooseMove :: "game_state \<Rightarrow> move list \<Rightarrow> move res" where
  "ClosestMove_ChooseMove s moves =
     (if moves = [] then Inl (Panic ''index out of range'')
      else Inr (foldl closest_step (hd moves) moves))"

section \<open>The two views of a board\<close>

lemma State_Move_sel:
  "Pawn1Pos (State_Move m s) =
     (if pm_Bump (Pawn1 m) = BumpedSelf \<or> pm_Bump (Pawn2 m) = BumpedSelf then 0 else pm_Result (Pawn1 m))"
  "Pawn2Pos (State_Move m s) = pm_Result (Pawn2 m)"
  "PeerPawn1Pos (State_Move m s) =
     (if pm_Bump (Pawn1 m) = BumpedPeer1 \<or> pm_Bump (Pawn2 m) = BumpedPeer1 then 0 else PeerPawn1Pos s)"
  "PeerPawn2Pos (State_Move m s) =
     (if pm_Bump (Pawn1 m) = BumpedPeer2 \<or> pm_Bump (Pawn2 m) = BumpedPeer2 then 0 else PeerPawn2Pos s)"
  by (simp_all add: State_Move_def own_bump_def bump_defs)

lemma State_PeerMove_sel:
  "PeerPawn1Pos (State_PeerMove m s) =
     (if pm_Bump (Pawn1 m) = BumpedSelf \<or> pm_Bump (Pawn2 m) = BumpedSelf then 0 else pm_Result (Pawn1 m))"
  "PeerPawn2Pos (State_PeerMove m s) = pm_Result (Pawn2 m)"
  "Pawn1Pos (State_PeerMove m s) =
     (if pm_Bump (Pawn1 m) = BumpedPeer1 \<or> pm_Bump (Pawn2 m) = BumpedPeer1 then 0 else Pawn1Pos s)"
  "Pawn2Pos (State_PeerMove m s) =
     (if pm_Bump (Pawn1 m) = BumpedPeer2 \<or> pm_Bump (Pawn2 m) = BumpedPeer2 then 0 else Pawn2Pos s)"
  by (simp_all add: State_PeerMove_def peer_bump_def bump_defs)

lemma GameLog_Move [simp]:
  "GameLog (State_Move m s) = GameLog s" "GameLog (State_PeerMove m s) = GameLog s"
  by (simp_all add: State_Move_def State_PeerMove_def own_bump_def peer_bump_def)

definition mirror :: "positions \<Rightarrow> positions" where
  "mirror s = \<lparr>Pawn1Pos = PeerPawn1Pos s, Pawn2Pos = PeerPawn2Pos s,
               PeerPawn1Pos = Pawn1Pos s, PeerPawn2Pos = Pawn2Pos s\<rparr>"

lemma mirror_mirror [simp]: "mirror (mirror s) = s"
  by (simp add: mirror_def)

lemma mirror_sel [simp]:
  "Pawn1Pos (mirror s) = PeerPawn1Pos s" "Pawn2Pos (mirror s) = PeerPawn2Pos s"
  "PeerPawn1Pos (mirror s) = Pawn1Pos s" "PeerPawn2Pos (mirror s) = Pawn2Pos s"
  by (simp_all add: mirror_def)

lemma mirror_Move: "mirror (State_Move m s) = State_PeerMove m (mirror s)"
  by (cases s) (simp add: mirror_def State_Move_def State_PeerMove_def own_bump_def peer_bump_def)

lemma mirror_Win [simp]: "State_Win (mirror s) = State_Lose s" "State_Lose (mirror s) = State_Win s"
  by (simp_all add: State_Win_def State_Lose_def)

lemma truncate_sel [simp]:
  "Pawn1Pos (positions.truncate s) = Pawn1Pos s" "Pawn2Pos (positions.truncate s) = Pawn2Pos s"
  "PeerPawn1Pos (positions.truncate s) = PeerPawn1Pos s"
  "PeerPawn2Pos (positions.truncate s) = PeerPawn2Pos s"
  by (simp_all add: positions.truncate_def)

lemma truncate_Move [simp]:
  "positions.truncate (State_Move m s) = State_Move m (positions.truncate s)"
  "positions.truncate (State_PeerMove m s) = State_PeerMove m (positions.truncate s)"
  by (simp_all add: positions.truncate_def State_Move_def State_PeerMove_def own_bump_def peer_bump_def)

lemma truncate_Win [simp]:
  "State_Win (positions.truncate s) = State_Win s" "State_Lose (positions.truncate s) = State_Lose s"
  by (simp_all add: State_Win_def State_Lose_def)

section \<open>Well-formed boards\<close>

text \<open>
  Positions are \<open>int\<close> values not beyond the goal, and no two pawns share a square other than
  the start and the goal.
\<close>

definition may_share :: "int \<Rightarrow> bool" where
  "may_share p \<longleftrightarrow> p = 0 \<or> p = goal"

definition in_bounds :: "int \<Rightarrow> bool" where
  "in_bounds p \<longleftrightarrow> is_int64 p \<and> p \<le> goal"

definition apart :: "int \<Rightarrow> int \<Rightarrow> bool" where
  "apart p q \<longleftrightarrow> (p = q \<longrightarrow> may_share p)"

lemma apart_commute: "apart p q \<longleftrightarrow> apart q p"
  by (auto simp: apart_def)

definition board_ok :: "'a positions_scheme \<Rightarrow> bool" where
  "board_ok s \<longleftrightarrow>
     in_bounds (Pawn1Pos s) \<and> in_bounds (Pawn2Pos s)
     \<and> in_bounds (PeerPawn1Pos s) \<and> in_bounds (PeerPawn2Pos s)
     \<and> apart (Pawn1Pos s) (Pawn2Pos s) \<and> apart (PeerPawn1Pos s) (PeerPawn2Pos s)
     \<and> apart (Pawn1Pos s) (PeerPawn1Pos s) \<and> apart (Pawn1Pos s) (PeerPawn2Pos s)
     \<and> apart (Pawn2Pos s) (PeerPawn1Pos s) \<and> apart (Pawn2Pos s) (PeerPawn2Pos s)"

lemma board_ok_initial [simp]: "board_ok initial_state"
  by (simp add: board_ok_def initial_state_def apart_def may_share_def in_bounds_def is_int64_def goal_def)

lemma board_ok_truncate [simp]: "board_ok (positions.truncate s) = board_ok s"
  by (simp add: board_ok_def)

lemma board_ok_mirror [simp]: "board_ok (mirror s) = board_ok s"
  unfolding board_ok_def mirror_sel
  using apart_commute [of "Pawn1Pos s" "PeerPawn1Pos s"] apart_commute [of "Pawn1Pos s" "PeerPawn2Pos s"]
    apart_commute [of "Pawn2Pos s" "PeerPawn1Pos s"] apart_commute [of "Pawn2Pos s" "PeerPawn2Pos s"]
  by blast

text \<open>The moves of the player to move, and of the peer.\<close>

definition own_moves :: "int \<Rightarrow> int \<Rightarrow> 'a positions_scheme \<Rightarrow> move list" where
  "own_moves d1 d2 s =
     generateMoves (Pawn1Pos s) (Pawn2Pos s) d1 d2 (PeerPawn1Pos s) (PeerPawn2Pos s)"

definition peer_moves :: "int \<Rightarrow> int \<Rightarrow> 'a positions_scheme \<Rightarrow> move list" where
  "peer_moves d1 d2 s =
     generateMoves (PeerPawn1Pos s) (PeerPawn2Pos s) d1 d2 (Pawn1Pos s) (Pawn2Pos s)"

lemma own_moves_mirror [simp]: "own_moves d1 d2 (mirror s) = peer_moves d1 d2 s"
  by (simp add: own_moves_def peer_moves_def)

lemma peer_moves_mirror [simp]: "peer_moves d1 d2 (mirror s) = own_moves d1 d2 s"
  by (simp add: own_moves_def peer_moves_def)

lemma moves_truncate [simp]:
  "own_moves d1 d2 (positions.truncate s) = own_moves d1 d2 s"
  "peer_moves d1 d2 (positions.truncate s) = peer_moves d1 d2 s"
  by (simp_all add: own_moves_def peer_moves_def)

lemma own_moves_legal:
  "m \<in> set (own_moves d1 d2 s) \<Longrightarrow>
     legal_move (Pawn1Pos s) (Pawn2Pos s) d1 d2 (PeerPawn1Pos s) (PeerPawn2Pos s) m"
  by (simp add: own_moves_def generateMoves_legal)

lemma legal_move_int64:
  assumes "legal_move p1 p2 d1 d2 q1 q2 m"
    and "is_int64 p1" "is_int64 p2" "is_int64 d1" "is_int64 d2"
  shows "is_int64 (pm_Result (Pawn1 m))" and "is_int64 (pm_Result (Pawn2 m))"
proof -
  let ?e1 = "pm_Expr (Pawn1 m)" and ?e2 = "pm_Expr (Pawn2 m)"
  have "set_mset (mset (leaves ?e1) + mset (leaves ?e2)) = {p1, p2, d1, d2}"
    using legal_moveD(3) [OF assms(1)] by (simp only:) simp
  then have "set (leaves ?e1) \<union> set (leaves ?e2) = {p1, p2, d1, d2}" by simp
  then have l: "is_int64 n" if "n \<in> set (leaves ?e1) \<union> set (leaves ?e2)" for n
    using that assms(2-5) by auto
  show "is_int64 (pm_Result (Pawn1 m))" "is_int64 (pm_Result (Pawn2 m))"
    using l by (auto intro: Expr_Eval_int64 [OF legal_moveD(1) [OF assms(1)]]
        Expr_Eval_int64 [OF legal_moveD(2) [OF assms(1)]])
qed

lemma detectBumps_self:
  "detectBumps r1 r2 q1 q2 = (b1, b2) \<Longrightarrow>
     b1 \<noteq> BumpedSelf \<and> (b2 = BumpedSelf \<longleftrightarrow> r1 = r2 \<and> r1 \<noteq> goal)"
  by (auto simp: detectBumps_def Let_def bump_defs split: if_splits)

text \<open>A peer pawn that is landed on, away from start and goal, is bumped.\<close>

lemma detectBumps_peer:
  assumes "detectBumps r1 r2 q1 q2 = (b1, b2)" and "apart q1 q2"
  shows "q1 \<in> {r1, r2} \<Longrightarrow> \<not> may_share q1 \<Longrightarrow> b1 = BumpedPeer1 \<or> b2 = BumpedPeer1"
    and "q2 \<in> {r1, r2} \<Longrightarrow> \<not> may_share q2 \<Longrightarrow> b1 = BumpedPeer2 \<or> b2 = BumpedPeer2"
  using assms by (auto simp: detectBumps_def Let_def apart_def may_share_def split: if_splits)

text \<open>Only a peer pawn that is landed on is bumped.\<close>

lemma detectBumps_only:
  assumes "detectBumps r1 r2 q1 q2 = (b1, b2)"
  shows "b1 = BumpedPeer1 \<or> b2 = BumpedPeer1 \<Longrightarrow> q1 \<in> {r1, r2} \<and> q1 \<noteq> goal"
    and "b1 = BumpedPeer2 \<or> b2 = BumpedPeer2 \<Longrightarrow> q2 \<in> {r1, r2} \<and> q2 \<noteq> goal"
proof -
  note b = assms [unfolded detectBumps_eq prod.inject, THEN conjunct1, symmetric]
    assms [unfolded detectBumps_eq prod.inject, THEN conjunct2, symmetric]
  show "b1 = BumpedPeer1 \<or> b2 = BumpedPeer1 \<Longrightarrow> q1 \<in> {r1, r2} \<and> q1 \<noteq> goal"
    unfolding b by (simp add: bump_defs split: if_splits)
  show "b1 = BumpedPeer2 \<or> b2 = BumpedPeer2 \<Longrightarrow> q2 \<in> {r1, r2} \<and> q2 \<noteq> goal"
    unfolding b by (simp add: bump_defs split: if_splits)
qed

lemma is_int64_uint16 [simp]: "is_int64 (uint (w :: 16 word))"
proof -
  have "uint w < 65536" using uint_lt2p [of w] by simp
  moreover have "0 \<le> uint w" by simp
  ultimately show ?thesis unfolding is_int64_def by (intro conjI) linarith+
qed

lemma own_move_board_ok:
  assumes "board_ok s" and "m \<in> set (own_moves d1 d2 s)" and "is_int64 d1" "is_int64 d2"
  shows "board_ok (State_Move m s)"
proof -
  let ?r1 = "pm_Result (Pawn1 m)" and ?r2 = "pm_Result (Pawn2 m)"
  let ?b1 = "pm_Bump (Pawn1 m)" and ?b2 = "pm_Bump (Pawn2 m)"
  note legal = own_moves_legal [OF assms(2)]
  have r: "in_bounds ?r1" "in_bounds ?r2"
    using legal_moveD(4,5) [OF legal] assms(1) legal_move_int64 [OF legal _ _ assms(3,4)]
    by (auto simp: in_bounds_def board_ok_def)
  have b: "detectBumps ?r1 ?r2 (PeerPawn1Pos s) (PeerPawn2Pos s) = (?b1, ?b2)"
    using legal by (rule legal_move_detectBumps)
  have ok: "in_bounds (PeerPawn1Pos s)" "in_bounds (PeerPawn2Pos s)"
    and ap: "apart (PeerPawn1Pos s) (PeerPawn2Pos s)"
    using assms(1) by (simp_all add: board_ok_def)
  note self = detectBumps_self [OF b] and peer = detectBumps_peer [OF b ap]
  have zero: "in_bounds 0" "apart 0 x" "apart x 0" for x
    by (simp_all add: in_bounds_def is_int64_def goal_def apart_def may_share_def)
  have own: "apart (Pawn1Pos (State_Move m s)) ?r2"
    using self zero by (simp add: State_Move_sel) (auto simp: apart_def may_share_def)
  have peers: "apart (PeerPawn1Pos (State_Move m s)) (PeerPawn2Pos (State_Move m s))"
    using ap zero by (simp add: State_Move_sel)
  have land: "apart r (PeerPawn1Pos (State_Move m s))" "apart r (PeerPawn2Pos (State_Move m s))"
    if "r \<in> {?r1, ?r2}" for r
    using that peer zero by (auto simp: State_Move_sel apart_def)
  then have "apart (Pawn1Pos (State_Move m s)) (PeerPawn1Pos (State_Move m s))"
    "apart (Pawn1Pos (State_Move m s)) (PeerPawn2Pos (State_Move m s))"
    using zero by (simp_all add: State_Move_sel(1))
  with land own peers r ok zero(1) show ?thesis
    by (simp add: board_ok_def State_Move_sel)
qed

lemma peer_move_board_ok:
  assumes "board_ok s" and "m \<in> set (peer_moves d1 d2 s)" and "is_int64 d1" "is_int64 d2"
  shows "board_ok (State_PeerMove m s)"
proof -
  let ?p = "positions.truncate s"
  have "board_ok (State_Move m (mirror ?p))"
    using own_move_board_ok [of "mirror ?p" m d1 d2] assms by simp
  then have "board_ok (mirror (State_Move m (mirror ?p)))" by simp
  then have "board_ok (positions.truncate (State_PeerMove m s))"
    by (simp only: mirror_Move mirror_mirror truncate_Move)
  then show ?thesis by (simp only: board_ok_truncate)
qed

text \<open>Own moves keep the board well-formed and send home whoever they land on. From a
  well-formed board, playing any generated move gives a well-formed board: positions stay
  within range and no two pawns share a square except start and goal. A peer pawn outside
  start and goal that is landed on is back at the start; one that is not landed on has not
  moved; and a pawn of ours on the goal stays there.\<close>

theorem own_move_effect:
  assumes "board_ok s" and "m \<in> set (own_moves d1 d2 s)" and "is_int64 d1" "is_int64 d2"
  shows "board_ok (State_Move m s)
    \<and> (PeerPawn1Pos (State_Move m s) =
         (if PeerPawn1Pos s \<in> {pm_Result (Pawn1 m), pm_Result (Pawn2 m)} \<and> PeerPawn1Pos s \<noteq> goal
          then 0 else PeerPawn1Pos s))
    \<and> (PeerPawn2Pos (State_Move m s) =
         (if PeerPawn2Pos s \<in> {pm_Result (Pawn1 m), pm_Result (Pawn2 m)} \<and> PeerPawn2Pos s \<noteq> goal
          then 0 else PeerPawn2Pos s))
    \<and> (Pawn1Pos s = goal \<longrightarrow> Pawn1Pos (State_Move m s) = goal)
    \<and> (Pawn2Pos s = goal \<longrightarrow> Pawn2Pos (State_Move m s) = goal)"
proof (intro conjI)
  let ?r1 = "pm_Result (Pawn1 m)" and ?r2 = "pm_Result (Pawn2 m)"
  let ?b1 = "pm_Bump (Pawn1 m)" and ?b2 = "pm_Bump (Pawn2 m)"
  let ?q1 = "PeerPawn1Pos s" and ?q2 = "PeerPawn2Pos s"
  note legal = own_moves_legal [OF assms(2)]
  have b: "detectBumps ?r1 ?r2 ?q1 ?q2 = (?b1, ?b2)"
    using legal by (rule legal_move_detectBumps)
  have ap: "apart ?q1 ?q2" using assms(1) by (simp add: board_ok_def)
  note self = detectBumps_self [OF b] and peer = detectBumps_peer [OF b ap]
  note only = detectBumps_only [OF b]
  show "board_ok (State_Move m s)" by (rule own_move_board_ok [OF assms])
  show "PeerPawn1Pos (State_Move m s) = (if ?q1 \<in> {?r1, ?r2} \<and> ?q1 \<noteq> goal then 0 else ?q1)"
    using peer(1) only(1) by (auto simp: State_Move_sel may_share_def)
  show "PeerPawn2Pos (State_Move m s) = (if ?q2 \<in> {?r1, ?r2} \<and> ?q2 \<noteq> goal then 0 else ?q2)"
    using peer(2) only(2) by (auto simp: State_Move_sel may_share_def)
  show "Pawn1Pos s = goal \<longrightarrow> Pawn1Pos (State_Move m s) = goal"
    using legal_moveD(6) [OF legal] self by (auto simp: State_Move_sel)
  show "Pawn2Pos s = goal \<longrightarrow> Pawn2Pos (State_Move m s) = goal"
    using legal_moveD(7) [OF legal] by (simp add: State_Move_sel)
qed

text \<open>A board with a bump to make, for the instances.\<close>

definition example_board :: positions where
  "example_board = \<lparr>Pawn1Pos = 48, Pawn2Pos = 51, PeerPawn1Pos = 50, PeerPawn2Pos = 101\<rparr>"

definition example_move :: move where
  "example_move =
     \<lparr>Pawn1 = \<lparr>pm_Expr = Some (binop Add (V 48) (V 2)), pm_Result = 50, pm_Bump = BumpedPeer1\<rparr>,
      Pawn2 = \<lparr>pm_Expr = Some (binop Add (V 51) (V 3)), pm_Result = 54, pm_Bump = NoBump\<rparr>\<rparr>"

lemma example_move_generated: "example_move \<in> set (own_moves 2 3 example_board)"
proof -
  have "list_ex (\<lambda>m. m = example_move) (own_moves 2 3 example_board)" by code_simp
  then show ?thesis by (simp add: list_ex_iff)
qed

lemma example_board_ok: "board_ok example_board"
  by (simp add: example_board_def board_ok_def in_bounds_def is_int64_def goal_def apart_def)

theorem own_move_effect_witness:
  "board_ok (State_Move example_move example_board)
   \<and> PeerPawn1Pos (State_Move example_move example_board) = 0
   \<and> PeerPawn2Pos (State_Move example_move example_board) = 101"
  using own_move_effect [OF example_board_ok example_move_generated]
  by (simp add: is_int64_def example_board_def example_move_def goal_def)

text \<open>C7: a peer cannot cheat the board. Whatever bytes a move was decoded from, if it passes
  \<open>validateMove\<close> against a roll of the die then it changes the board as one of the moves the
  rules allow the peer here would, and the board stays well-formed.\<close>

theorem validated_move_is_legal:
  assumes "board_ok s" and "2 \<le> length rolls" and "validateMove rolls s m = None"
  shows "\<exists>m' \<in> set (peer_moves (uint (rolls ! 0)) (uint (rolls ! 1)) s).
      State_PeerMove m s = State_PeerMove m' s
      \<and> legal_move (PeerPawn1Pos s) (PeerPawn2Pos s) (uint (rolls ! 0)) (uint (rolls ! 1))
           (Pawn1Pos s) (Pawn2Pos s) m'
      \<and> board_ok (State_PeerMove m s)"
proof -
  let ?d1 = "uint (rolls ! 0)" and ?d2 = "uint (rolls ! 1)"
  from assms(2,3) obtain m' where m': "m' \<in> set (peer_moves ?d1 ?d2 s)" and eff: "same_effect m' m"
    by (auto simp: validateMove_None_iff peer_moves_def)
  from eff have eq: "State_PeerMove m s = State_PeerMove m' s" by (simp add: State_PeerMove_same_effect)
  have "board_ok (State_PeerMove m' s)"
    by (rule peer_move_board_ok [OF assms(1) m']) simp_all
  with m' eq show ?thesis
    by (auto simp: peer_moves_def dest: generateMoves_legal)
qed

theorem validated_move_is_legal_witness:
  "validateMove [2, 3] (mirror example_board) example_move = None
   \<and> board_ok (State_PeerMove example_move (mirror example_board))"
proof -
  have v: "validateMove [2, 3] (mirror example_board) example_move = None" by code_simp
  have b: "board_ok (mirror example_board)" by (simp add: example_board_ok)
  from validated_move_is_legal [OF b _ v] v show ?thesis by auto
qed

text \<open>C21: an honest move is always accepted. Every move that one side can generate passes the
  other side's validation, on the mirrored board and with the same dice, also when only its
  results and bumps survive the transport; and both sides then hold mirrored boards again.\<close>

theorem generated_move_validates:
  assumes "m \<in> set (own_moves (uint r1) (uint r2) s)" and "same_effect m m'"
  shows "validateMove [r1, r2] (mirror s) m' = None
    \<and> State_PeerMove m' (mirror s) = mirror (State_Move m s)"
proof
  have "m \<in> set (generateMoves (Pawn1Pos s) (Pawn2Pos s) (uint r1) (uint r2) (PeerPawn1Pos s) (PeerPawn2Pos s))"
    using assms(1) by (simp add: own_moves_def)
  with assms(2) show "validateMove [r1, r2] (mirror s) m' = None"
    by (auto simp: validateMove_None_iff)
  show "State_PeerMove m' (mirror s) = mirror (State_Move m s)"
    by (simp add: mirror_Move State_PeerMove_same_effect [OF assms(2)])
qed

theorem generated_move_validates_witness:
  "validateMove [2, 3] (mirror example_board) example_move = None
   \<and> State_PeerMove example_move (mirror example_board) = mirror (State_Move example_move example_board)"
proof -
  have "example_move \<in> set (own_moves (uint (2 :: 16 word)) (uint (3 :: 16 word)) example_board)"
    using example_move_generated by simp
  from generated_move_validates [OF this same_effect_refl] show ?thesis .
qed

end
