(* ===== verification/FF_Session.thy ===== *)
theory FF_Session
  imports FF_Game Dice_Roller
begin

text \<open>
  Playing a game (\<open>factorfight/game.go\<close>, \<open>Session\<close>): one turn of ours, one turn of the peer's,
  the loop of \<open>Play\<close>, and the initiative roll. The peer and the strategy are the operations
  of a \<open>session\<close>; the world they act on is threaded through. A turn mutates the state it is
  given also when it fails, so the state is returned beside the error. The loop has no bound
  in the code: it takes fuel, one unit per round, and \<open>None\<close> means that the fuel ran out.
\<close>

section \<open>Sessions\<close>

record 'w session =
  Session_Roller :: roller
  Session_dice :: "'w dice_env"
  SendMove :: "'w \<Rightarrow> move \<Rightarrow> go_error option \<times> 'w"
  RecvMove :: "'w \<Rightarrow> move res \<times> 'w"
  ChooseMove :: "game_state \<Rightarrow> move list \<Rightarrow> move res"

text \<open>\<open>NewSession\<close>: a ten-sided roller over the peer's dice.\<close>

definition NewSession ::
    "'w dice_env \<Rightarrow> ('w \<Rightarrow> move \<Rightarrow> go_error option \<times> 'w) \<Rightarrow> ('w \<Rightarrow> move res \<times> 'w)
     \<Rightarrow> (game_state \<Rightarrow> move list \<Rightarrow> move res) \<Rightarrow> 'w session res" where
  "NewSession dice send recv strategy =
     (case NewRoller 10 of
        Inl e \<Rightarrow> Inl (wrapf ''error creating roller: %w'' e)
      | Inr r \<Rightarrow> Inr \<lparr>Session_Roller = r, Session_dice = dice, SendMove = send, RecvMove = recv,
                       ChooseMove = strategy\<rparr>)"

definition Session_RollSync ::
    "(bytes \<Rightarrow> bytes) \<Rightarrow> 'w session \<Rightarrow> nat \<Rightarrow> 'w \<Rightarrow> 16 word list res \<times> 'w" where
  "Session_RollSync sha S n w = RollSync sha (Session_Roller S) (Session_dice S) n w"

section \<open>Turns\<close>

definition OtherTurn ::
    "(bytes \<Rightarrow> bytes) \<Rightarrow> 'w session \<Rightarrow> game_state \<Rightarrow> int \<Rightarrow> 'w \<Rightarrow> go_error option \<times> game_state \<times> 'w" where
  "OtherTurn sha S st turnNum w =
     (case Session_RollSync sha S 2 w of
        (Inl e, w1) \<Rightarrow> (Some (wrapf ''error rolling: %w'' e), st, w1)
      | (Inr rolls, w1) \<Rightarrow>
     (case RecvMove S w1 of
        (Inl e, w2) \<Rightarrow> (Some (wrapf ''error receiving turn: %w'' e), st, w2)
      | (Inr peerMove, w2) \<Rightarrow>
     (case validateMove rolls st peerMove of
        Some e \<Rightarrow> (Some e, st, w2)
      | None \<Rightarrow> (None, State_PeerMove peerMove (AddGameLogEntry peerMove turnNum True rolls st), w2))))"

text \<open>
  Our own move is not validated here: a strategy may return any move at all. The state is
  updated before the move is sent.
\<close>

definition TakeTurn ::
    "(bytes \<Rightarrow> bytes) \<Rightarrow> 'w session \<Rightarrow> game_state \<Rightarrow> int \<Rightarrow> 'w \<Rightarrow> go_error option \<times> game_state \<times> 'w" where
  "TakeTurn sha S st turnNum w =
     (case Session_RollSync sha S 2 w of
        (Inl e, w1) \<Rightarrow> (Some (wrapf ''error rolling: %w'' e), st, w1)
      | (Inr rolls, w1) \<Rightarrow>
     (if length rolls < 2 then (Some (Panic ''index out of range''), st, w1)
      else
        let d1 = uint (rolls ! 0); d2 = uint (rolls ! 1);
            moves = generateMoves (Pawn1Pos st) (Pawn2Pos st) d1 d2 (PeerPawn1Pos st) (PeerPawn2Pos st)
        in
     (if moves = [] then (Some (Errorf ''no valid moves''), st, w1)
      else
     (case ChooseMove S st moves of
        Inl e \<Rightarrow> (Some e, st, w1)
      | Inr m \<Rightarrow>
          let st' = State_Move m (AddGameLogEntry m turnNum False [rolls ! 0, rolls ! 1] st) in
          (case SendMove S w1 m of
             (Some e, w2) \<Rightarrow> (Some (wrapf ''error sending turn: %w'' e), st', w2)
           | (None, w2) \<Rightarrow> (None, st', w2))))))"

section \<open>The game loop\<close>

text \<open>\<open>Play\<close> returns the result, the log, and possibly a \<open>GameError\<close> around log and cause.\<close>

datatype game_error = GameError (ge_GameLog: "log_entry list") (ge_Err: go_error)
  | PlainError go_error

type_synonym play_result = "bool \<times> log_entry list \<times> game_error option"

fun play_loop ::
    "(bytes \<Rightarrow> bytes) \<Rightarrow> 'w session \<Rightarrow> nat \<Rightarrow> game_state \<Rightarrow> int \<Rightarrow> 'w \<Rightarrow> (play_result \<times> 'w) option" where
  "play_loop sha S 0 st turnNum w = None"
| "play_loop sha S (Suc fuel) st turnNum w =
     (case TakeTurn sha S st turnNum w of
        (Some e, st1, w1) \<Rightarrow>
          Some ((False, GameLog st1, Some (GameError (GameLog st1) (wrapf ''error taking turn: %w'' e))), w1)
      | (None, st1, w1) \<Rightarrow>
     (if State_Win st1 then Some ((True, GameLog st1, None), w1)
      else
     (case OtherTurn sha S st1 turnNum w1 of
        (Some e, st2, w2) \<Rightarrow>
          Some ((False, GameLog st2,
                 Some (GameError (GameLog st2) (wrapf ''error doing other player's first turn: %w'' e))), w2)
      | (None, st2, w2) \<Rightarrow>
     (if State_Lose st2 then Some ((False, GameLog st2, None), w2)
      else play_loop sha S fuel st2 (int64 (turnNum + 1)) w2))))"

definition Play ::
    "(bytes \<Rightarrow> bytes) \<Rightarrow> 'w session \<Rightarrow> nat \<Rightarrow> bool \<Rightarrow> 'w \<Rightarrow> (play_result \<times> 'w) option" where
  "Play sha S fuel goFirst w =
     (if \<not> goFirst then
        (case OtherTurn sha S initial_state 0 w of
           (Some e, st1, w1) \<Rightarrow>
             Some ((False, GameLog st1,
                    Some (GameError (GameLog st1) (wrapf ''error doing other player's first turn: %w'' e))), w1)
         | (None, st1, w1) \<Rightarrow> play_loop sha S fuel st1 0 w1)
      else play_loop sha S fuel initial_state 0 w)"

definition RollInitiative ::
    "(bytes \<Rightarrow> bytes) \<Rightarrow> 'w session \<Rightarrow> bool \<Rightarrow> 'w \<Rightarrow> bool res \<times> 'w" where
  "RollInitiative sha S high w =
     (case Session_RollSync sha S 1 w of
        (Inl e, w1) \<Rightarrow> (Inl (wrapf ''error rolling: %w'' e), w1)
      | (Inr rolls, w1) \<Rightarrow>
          (if length rolls \<noteq> 1 then (Inl (Errorf ''unexpected number of rolls: %d''), w1)
           else if high then (Inr (rolls ! 0 > 5), w1)
           else (Inr (rolls ! 0 \<le> 5), w1)))"

definition PlayWithInitiative ::
    "(bytes \<Rightarrow> bytes) \<Rightarrow> 'w session \<Rightarrow> nat \<Rightarrow> bool \<Rightarrow> 'w \<Rightarrow> (play_result \<times> 'w) option" where
  "PlayWithInitiative sha S fuel high w =
     (case RollInitiative sha S high w of
        (Inl e, w1) \<Rightarrow> Some ((False, [], Some (PlainError (wrapf ''error rolling initiative: %w'' e))), w1)
      | (Inr first, w1) \<Rightarrow> Play sha S fuel first w1)"

section \<open>Rolls in a session\<close>

lemma Roll_InrD: "Roll sha d env w = (Inr rs, w') \<Longrightarrow> \<exists>h. roll d h = Inr rs"
  by (auto simp: Roll_def split: prod.splits sum.splits option.splits)

lemma RollSync_InrD:
  assumes "RollSync sha d env n w = (Inr rs, w')" and "NewRoller s = Inr d"
  shows "length rs = n \<and> (\<forall>r \<in> set rs. 1 \<le> unat r \<and> unat r \<le> unat s)"
proof -
  from assms(1) obtain rs8 where g: "Roll_Get n (Inr rs8) = Inr rs"
    and r8: "Roll sha d env w = (Inr rs8, w')"
    by (auto simp: RollSync_def Roll_Get_def split: prod.splits sum.splits if_splits)
  from Roll_InrD [OF r8] obtain h where h: "roll d h = Inr rs8" ..
  from g have n: "n \<le> 8" and rs: "rs = take n rs8" by (auto simp: Roll_Get_def split: if_splits)
  have "set rs \<subseteq> set rs8" unfolding rs by (rule set_take_subset)
  with roll_faces [OF assms(2) h] roll_Inr_length [OF h] n rs show ?thesis by auto
qed

text \<open>A session that \<open>NewSession\<close> made has the ten-sided die.\<close>

definition wf_session :: "'w session \<Rightarrow> bool" where
  "wf_session S \<longleftrightarrow> Session_Roller S = die10"

lemma NewSession_Inr: "\<exists>S. NewSession dice send recv strategy = Inr S \<and> wf_session S"
  by (simp add: NewSession_def wf_session_def)

lemma Session_RollSync_faces:
  assumes "Session_RollSync sha S n w = (Inr rs, w')" and "wf_session S"
  shows "length rs = n" and "r \<in> set rs \<Longrightarrow> unat r \<in> {1..10}"
  using assms RollSync_InrD [OF _ NewRoller_10, of sha "Session_dice S" n w rs w']
  by (simp_all add: Session_RollSync_def wf_session_def)

lemma Session_RollSync_InrD:
  assumes "Session_RollSync sha S 2 w = (Inr rolls, w')" and "wf_session S"
  obtains r1 r2 where "rolls = [r1, r2]" "1 \<le> uint r1" "uint r1 \<le> 10" "1 \<le> uint r2" "uint r2 \<le> 10"
proof -
  note len = Session_RollSync_faces(1) [OF assms] and r = Session_RollSync_faces(2) [OF assms]
  from len obtain r1 r2 where rs: "rolls = [r1, r2]"
    by (auto simp: numeral_2_eq_2 length_Suc_conv)
  with r have "1 \<le> unat r1 \<and> unat r1 \<le> 10 \<and> 1 \<le> unat r2 \<and> unat r2 \<le> 10" by simp
  then have "int 1 \<le> int (unat r1)" "int (unat r1) \<le> int 10" "int 1 \<le> int (unat r2)" "int (unat r2) \<le> int 10"
    unfolding zle_int by auto
  then have "1 \<le> uint r1" "uint r1 \<le> 10" "1 \<le> uint r2" "uint r2 \<le> 10"
    unfolding of_nat_unat by simp_all
  with rs show thesis by (rule that)
qed


section \<open>Legal games\<close>

text \<open>
  The rules of the game as a relation on logs: players alternate, each entry starts where the
  last one ended and before the game is over, its dice are faces of the die, its move has the
  effect of one the mover may make, and it leads to the state the move leads to.
\<close>

definition game_over :: "'a positions_scheme \<Rightarrow> bool" where
  "game_over s \<longleftrightarrow> State_Win s \<or> State_Lose s"

definition is_face :: "16 word \<Rightarrow> bool" where
  "is_face r \<longleftrightarrow> 1 \<le> uint r \<and> uint r \<le> 10"

definition entry_moves :: "log_entry \<Rightarrow> move list" where
  "entry_moves e =
     (if IsPeer e then peer_moves (uint (fst (Rolls e))) (uint (snd (Rolls e))) (FromState e)
      else own_moves (uint (fst (Rolls e))) (uint (snd (Rolls e))) (FromState e))"

definition entry_ok :: "log_entry \<Rightarrow> bool" where
  "entry_ok e \<longleftrightarrow>
     is_face (fst (Rolls e)) \<and> is_face (snd (Rolls e))
     \<and> list_ex (\<lambda>m. same_effect m (entry_Move e)) (entry_moves e)
     \<and> entry_State e =
         (if IsPeer e then State_PeerMove (entry_Move e) (FromState e)
          else State_Move (entry_Move e) (FromState e))"

inductive legal_game :: "bool \<Rightarrow> log_entry list \<Rightarrow> positions \<Rightarrow> bool \<Rightarrow> bool" for peer_first where
  start: "legal_game peer_first [] (positions.truncate initial_state) peer_first"
| turn: "legal_game peer_first l s p \<Longrightarrow> \<not> game_over s \<Longrightarrow> FromState e = s \<Longrightarrow> IsPeer e = p
    \<Longrightarrow> entry_ok e \<Longrightarrow> legal_game peer_first (l @ [e]) (entry_State e) (\<not> p)"

inductive_cases legal_game_NilE: "legal_game peer_first [] s p"
inductive_cases legal_game_snocE: "legal_game peer_first (l @ [e]) s p"

definition game_inv :: "bool \<Rightarrow> bool \<Rightarrow> game_state \<Rightarrow> bool" where
  "game_inv peer_first p st \<longleftrightarrow> legal_game peer_first (GameLog st) (positions.truncate st) p"

lemma game_over_truncate [simp]: "game_over (positions.truncate s) = game_over s"
  by (simp add: game_over_def)

lemma own_moves_same_effect_board_ok:
  assumes "board_ok s" "m' \<in> set (own_moves (uint (r1 :: 16 word)) (uint (r2 :: 16 word)) s)" "same_effect m' m"
  shows "board_ok (State_Move m s)"
  using own_move_board_ok [OF assms(1,2)] by (simp add: State_Move_same_effect [OF assms(3)])

lemma peer_moves_same_effect_board_ok:
  assumes "board_ok s" "m' \<in> set (peer_moves (uint (r1 :: 16 word)) (uint (r2 :: 16 word)) s)" "same_effect m' m"
  shows "board_ok (State_PeerMove m s)"
  using peer_move_board_ok [OF assms(1,2)] by (simp add: State_PeerMove_same_effect [OF assms(3)])

lemma entry_ok_board_ok: "entry_ok e \<Longrightarrow> board_ok (FromState e) \<Longrightarrow> board_ok (entry_State e)"
  by (auto simp: entry_ok_def entry_moves_def list_ex_iff split: if_splits
        intro: own_moves_same_effect_board_ok peer_moves_same_effect_board_ok)

lemma State_Move_Lose: "State_Lose (State_Move m s) \<Longrightarrow> State_Lose s"
  by (auto simp: State_Lose_def State_Move_sel goal_def split: if_splits)

lemma State_PeerMove_Win: "State_Win (State_PeerMove m s) \<Longrightarrow> State_Win s"
  by (auto simp: State_Win_def State_PeerMove_sel goal_def split: if_splits)

lemma legal_game_inv:
  "legal_game f l s p \<Longrightarrow> board_ok s \<and> \<not> (State_Win s \<and> State_Lose s)"
proof (induction rule: legal_game.induct)
  case start
  have "board_ok (positions.truncate initial_state)" by simp
  moreover have "\<not> State_Win initial_state" by (simp add: State_Win_def initial_state_def goal_def)
  ultimately show ?case by simp
next
  case (turn l s p e)
  then have b: "board_ok (entry_State e)" by (auto intro: entry_ok_board_ok)
  have "\<not> (State_Win (entry_State e) \<and> State_Lose (entry_State e))"
    using turn by (auto simp: entry_ok_def game_over_def split: if_splits dest: State_Move_Lose State_PeerMove_Win)
  with b show ?case ..
qed

lemma legal_game_last: "legal_game f l s p \<Longrightarrow> l \<noteq> [] \<Longrightarrow> entry_State (last l) = s"
  by (cases rule: legal_game.cases) auto

lemma legal_game_over_log: "legal_game f l s p \<Longrightarrow> State_Win s \<or> State_Lose s \<Longrightarrow> l \<noteq> []"
  by (auto elim!: legal_game_NilE simp: State_Win_def State_Lose_def initial_state_def positions.truncate_def goal_def)

lemma game_inv_board_ok: "game_inv f p st \<Longrightarrow> board_ok st"
  unfolding game_inv_def using legal_game_inv board_ok_truncate by blast

lemma GameLog_AddGameLogEntry:
  "GameLog (AddGameLogEntry m n p [r1, r2] st) = GameLog st @
     [\<lparr>Player = (if p then ''Peer'' else ''Self''), entry_Move = m, TurnNum = n, IsPeer = p,
       FromState = positions.truncate st,
       entry_State = positions.truncate (if p then State_PeerMove m st else State_Move m st),
       Rolls = (r1, r2)\<rparr>]"
  by (simp add: AddGameLogEntry_def Let_def)

lemma truncate_AddGameLogEntry [simp]:
  "positions.truncate (AddGameLogEntry m n p rolls st) = positions.truncate st"
  by (simp add: AddGameLogEntry_def Let_def positions.truncate_def)

text \<open>Logging a legal move and making it keeps the log legal.\<close>

lemma game_inv_own_move:
  assumes "game_inv f False st" "\<not> game_over st" "is_face r1" "is_face r2"
    and "m \<in> set (own_moves (uint r1) (uint r2) st)"
  shows "game_inv f True (State_Move m (AddGameLogEntry m n False [r1, r2] st))"
proof -
  let ?e = "\<lparr>Player = ''Self'', entry_Move = m, TurnNum = n, IsPeer = False,
       FromState = positions.truncate st, entry_State = positions.truncate (State_Move m st),
       Rolls = (r1, r2)\<rparr>"
  have "list_ex (\<lambda>m'. same_effect m' m) (own_moves (uint r1) (uint r2) st)"
    unfolding list_ex_iff using assms(5) same_effect_refl by blast
  then have "entry_ok ?e" using assms by (simp add: entry_ok_def entry_moves_def)
  from legal_game.turn [of f "GameLog st" "positions.truncate st" False ?e] this assms(1,2)
  show ?thesis by (simp add: game_inv_def GameLog_AddGameLogEntry)
qed

lemma game_inv_peer_move:
  assumes "game_inv f True st" "\<not> game_over st" "is_face r1" "is_face r2"
    and "validateMove [r1, r2] st m = None"
  shows "game_inv f False (State_PeerMove m (AddGameLogEntry m n True [r1, r2] st))"
proof -
  let ?e = "\<lparr>Player = ''Peer'', entry_Move = m, TurnNum = n, IsPeer = True,
       FromState = positions.truncate st, entry_State = positions.truncate (State_PeerMove m st),
       Rolls = (r1, r2)\<rparr>"
  have "list_ex (\<lambda>m'. same_effect m' m) (peer_moves (uint r1) (uint r2) st)"
    using assms(5) validateMove_None_iff [of "[r1, r2]" st m] by (auto simp: list_ex_iff peer_moves_def)
  then have "entry_ok ?e" using assms by (simp add: entry_ok_def entry_moves_def)
  from legal_game.turn [of f "GameLog st" "positions.truncate st" True ?e] this assms(1,2)
  show ?thesis by (simp add: game_inv_def GameLog_AddGameLogEntry)
qed


text \<open>Nobody reaches the goal with both pawns in the first turn.\<close>

lemma one_die_from_start: "list_all (\<lambda>d. list_all (\<lambda>pm. pm_Result pm \<noteq> goal) (pawnMoves 0 [d])) [1..10]"
  by code_simp

lemma first_move_no_goal:
  assumes "m \<in> set (generateMoves 0 0 d1 d2 q1 q2)" and "1 \<le> d1" "d1 \<le> 10" "1 \<le> d2" "d2 \<le> 10"
  shows "\<not> (pm_Result (Pawn1 m) = goal \<and> pm_Result (Pawn2 m) = goal)"
proof -
  have one: "pm_Result pm \<noteq> goal" if "pm \<in> set (pawnMoves 0 [d])" "1 \<le> d" "d \<le> 10" for pm d
    using one_die_from_start that by (auto simp: list_all_iff)
  have zero: "pm_Result pm \<noteq> goal" if "pm \<in> set (pawnMoves 0 [])" for pm
    using pawnMoves_no_dice [OF that] by (simp add: goal_def)
  from assms(1) obtain al m1 m2 where al: "al \<in> set (allAllocations d1 d2 0 0)"
    and m1: "m1 \<in> set (pawnMoves 0 (alloc1 al))" and m2: "m2 \<in> set (pawnMoves 0 (alloc2 al))"
    and m: "m \<in> set (combineMoves 0 0 q1 q2 m1 m2)"
    by (auto simp: set_generateMoves)
  from al consider "alloc1 al = []" | "alloc2 al = []" | "alloc1 al = [d1]" | "alloc1 al = [d2]"
    by (auto simp: allAllocations_def split: if_splits)
  then have "pm_Result m1 \<noteq> goal \<or> pm_Result m2 \<noteq> goal"
    by cases (use m1 m2 zero one assms(2-5) in auto)
  with m show ?thesis by (auto simp: set_combineMoves)
qed

lemma first_peer_turn_not_over:
  assumes "validateMove [r1, r2] initial_state m = None" "is_face r1" "is_face r2"
  shows "\<not> game_over (State_PeerMove m (AddGameLogEntry m n True [r1, r2] initial_state))"
proof -
  let ?st = "AddGameLogEntry m n True [r1, r2] initial_state"
  from assms(1) obtain m' where m': "m' \<in> set (generateMoves 0 0 (uint r1) (uint r2) 0 0)" and e: "same_effect m' m"
    by (auto simp: validateMove_None_iff initial_state_def)
  have "\<not> (pm_Result (Pawn1 m) = goal \<and> pm_Result (Pawn2 m) = goal)"
    using first_move_no_goal [OF m'] assms(2,3) e by (simp add: is_face_def same_effect_def)
  then have "\<not> State_Lose (State_PeerMove m ?st)"
    by (auto simp: State_Lose_def State_PeerMove_sel goal_def split: if_splits)
  moreover have "\<not> State_Win (State_PeerMove m ?st)"
  proof
    assume "State_Win (State_PeerMove m ?st)"
    then have "State_Win ?st" by (rule State_PeerMove_Win)
    then show False by (simp add: State_Win_def AddGameLogEntry_def Let_def initial_state_def goal_def)
  qed
  ultimately show ?thesis by (simp add: game_over_def)
qed

section \<open>Strategies\<close>

text \<open>What \<open>TakeTurn\<close> relies on: a strategy picks one of the moves it is offered.\<close>

locale strategy =
  fixes pick :: "game_state \<Rightarrow> move list \<Rightarrow> move res"
  assumes pick_mem: "moves \<noteq> [] \<Longrightarrow> \<exists>m \<in> set moves. pick st moves = Inr m"
begin

lemma chosen_own_move:
  assumes "own_moves d1 d2 st \<noteq> []"
  obtains m where "pick st (own_moves d1 d2 st) = Inr m" "m \<in> set (own_moves d1 d2 st)"
  using pick_mem [OF assms, of st] by blast

lemma TakeTurn_steps:
  assumes "wf_session S" "ChooseMove S = pick" "game_inv f False st" "\<not> game_over st"
  shows "(\<exists>e. fst (Session_RollSync sha S 2 w) = Inl e
            \<and> TakeTurn sha S st n w = (Some (wrapf ''error rolling: %w'' e), st, snd (Session_RollSync sha S 2 w)))
    \<or> (\<exists>r1 r2 m w1. Session_RollSync sha S 2 w = (Inr [r1, r2], w1) \<and> is_face r1 \<and> is_face r2
        \<and> m \<in> set (own_moves (uint r1) (uint r2) st) \<and> pick st (own_moves (uint r1) (uint r2) st) = Inr m
        \<and> TakeTurn sha S st n w =
            (map_option (wrapf ''error sending turn: %w'') (fst (SendMove S w1 m)),
             State_Move m (AddGameLogEntry m n False [r1, r2] st), snd (SendMove S w1 m)))"
proof (cases "Session_RollSync sha S 2 w")
  case (Pair res w1)
  show ?thesis
  proof (cases res)
    case (Inl e)
    with Pair show ?thesis by (simp add: TakeTurn_def)
  next
    case (Inr rolls)
    with Pair have "Session_RollSync sha S 2 w = (Inr rolls, w1)" by simp
    from Session_RollSync_InrD [OF this assms(1)] obtain r1 r2 where rs: "rolls = [r1, r2]"
      and f: "is_face r1" "is_face r2" unfolding is_face_def by metis
    have ok: "board_ok st" using assms(3) by (rule game_inv_board_ok)
    have "own_moves (uint r1) (uint r2) st \<noteq> []"
      using generateMoves_progress [of "Pawn1Pos st" "Pawn2Pos st" "uint r1" "uint r2"] ok f assms(4)
      by (auto simp: own_moves_def board_ok_def in_bounds_def is_face_def game_over_def State_Win_def)
    then obtain m where m: "pick st (own_moves (uint r1) (uint r2) st) = Inr m"
      "m \<in> set (own_moves (uint r1) (uint r2) st)" by (rule chosen_own_move)
    have "TakeTurn sha S st n w =
            (map_option (wrapf ''error sending turn: %w'') (fst (SendMove S w1 m)),
             State_Move m (AddGameLogEntry m n False [r1, r2] st), snd (SendMove S w1 m))"
      using Pair Inr rs m \<open>own_moves _ _ st \<noteq> []\<close> assms(2)
      by (simp add: TakeTurn_def own_moves_def Let_def split: prod.split option.split)
    with Pair Inr rs f m show ?thesis by blast
  qed
qed

end

lemma OtherTurn_steps:
  assumes "wf_session S" "OtherTurn sha S st n w = (err, st', w')"
  shows "err \<noteq> None \<and> st' = st
    \<or> (\<exists>r1 r2 m. err = None \<and> is_face r1 \<and> is_face r2 \<and> validateMove [r1, r2] st m = None
         \<and> st' = State_PeerMove m (AddGameLogEntry m n True [r1, r2] st))"
proof (cases "Session_RollSync sha S 2 w")
  case (Pair res w1)
  show ?thesis
  proof (cases res)
    case (Inl e)
    with Pair assms(2) show ?thesis by (auto simp: OtherTurn_def)
  next
    case (Inr rolls)
    with Pair have "Session_RollSync sha S 2 w = (Inr rolls, w1)" by simp
    from Session_RollSync_InrD [OF this assms(1)] obtain r1 r2 where rs: "rolls = [r1, r2]"
      and f: "is_face r1" "is_face r2" unfolding is_face_def by metis
    show ?thesis
      using Pair Inr rs f assms(2)
      by (cases "RecvMove S w1") (auto simp: OtherTurn_def split: sum.splits option.splits)
  qed
qed

lemma OtherTurn_inv:
  assumes "wf_session S" "OtherTurn sha S st n w = (err, st', w')" "game_inv f True st" "\<not> game_over st"
  shows "if err = None then game_inv f False st' \<and> \<not> State_Win st' else st' = st"
proof -
  from OtherTurn_steps [OF assms(1,2)]
  consider "err \<noteq> None" "st' = st" | r1 r2 m where "err = None" "is_face r1" "is_face r2"
    "validateMove [r1, r2] st m = None" "st' = State_PeerMove m (AddGameLogEntry m n True [r1, r2] st)"
    by blast
  then show ?thesis
  proof cases
    case 1
    then show ?thesis by auto
  next
    case 2
    have "\<not> State_Win (AddGameLogEntry m n True [r1, r2] st)"
      using assms(4) truncate_Win(1) [of "AddGameLogEntry m n True [r1, r2] st"] truncate_Win(1) [of st]
      by (simp add: game_over_def)
    with 2 game_inv_peer_move [OF assms(3,4) 2(2-4)] show ?thesis
      by (auto dest: State_PeerMove_Win)
  qed
qed

text \<open>What \<open>Play\<close> returns: a legal log, and with it the result it stands for.\<close>

definition play_ok :: "bool \<Rightarrow> play_result \<Rightarrow> bool" where
  "play_ok peer_first r \<longleftrightarrow>
     (case r of (won, log, err) \<Rightarrow>
       (\<exists>s p. legal_game peer_first log s p \<and>
         (case err of None \<Rightarrow> game_over s \<and> won = State_Win s
          | Some (GameError l e) \<Rightarrow> l = log \<and> \<not> won
          | Some (PlainError e) \<Rightarrow> False)))"

lemma play_okI:
  assumes "game_inv f p st"
  shows "play_ok f (False, GameLog st, Some (GameError (GameLog st) e))"
    and "game_over st \<Longrightarrow> won = State_Win st \<Longrightarrow> play_ok f (won, GameLog st, None)"
  using assms by (auto simp: play_ok_def game_inv_def intro: exI [of _ "positions.truncate st"])

lemma play_okD:
  assumes "play_ok f (won, log, err)"
  obtains s p where "legal_game f log s p" "board_ok s" "\<not> (State_Win s \<and> State_Lose s)"
    "err = None \<Longrightarrow> game_over s \<and> won = State_Win s"
    "err \<noteq> None \<Longrightarrow> \<not> won \<and> (\<exists>e. err = Some (GameError log e))"
proof -
  from assms obtain s p where g: "legal_game f log s p"
    and r: "case err of None \<Rightarrow> game_over s \<and> won = State_Win s
          | Some (GameError l e) \<Rightarrow> l = log \<and> \<not> won | Some (PlainError e) \<Rightarrow> False"
    by (auto simp: play_ok_def)
  have "\<not> won \<and> (\<exists>e. err = Some (GameError log e))" if "err \<noteq> None"
  proof -
    from that obtain x where "err = Some x" by blast
    with r show ?thesis by (cases x) simp_all
  qed
  with legal_game_inv [OF g] r show thesis by (intro that [OF g]) auto
qed

context strategy begin

lemma TakeTurn_inv:
  assumes "wf_session S" "ChooseMove S = pick" "game_inv f False st" "\<not> game_over st"
    and "TakeTurn sha S st n w = (err, st', w')"
  shows "(if err = None then game_inv f True st' else (\<exists>p. game_inv f p st')) \<and> \<not> State_Lose st'"
proof -
  from TakeTurn_steps [OF assms(1-4), of sha w n]
  have "(\<exists>e. err = Some e \<and> st' = st) \<or> (\<exists>r1 r2 m. is_face r1 \<and> is_face r2
    \<and> m \<in> set (own_moves (uint r1) (uint r2) st)
    \<and> st' = State_Move m (AddGameLogEntry m n False [r1, r2] st))"
    unfolding assms(5) prod.inject by blast
  then consider "err \<noteq> None" "st' = st" | r1 r2 m where "is_face r1" "is_face r2"
    "m \<in> set (own_moves (uint r1) (uint r2) st)"
    "st' = State_Move m (AddGameLogEntry m n False [r1, r2] st)"
    by blast
  then show ?thesis
  proof cases
    case 1
    with assms(3,4) show ?thesis by (auto simp: game_over_def)
  next
    case 2
    have "\<not> State_Lose (AddGameLogEntry m n False [r1, r2] st)"
      using assms(4) truncate_Win(2) [of "AddGameLogEntry m n False [r1, r2] st"] truncate_Win(2) [of st]
      by (simp add: game_over_def)
    with 2 game_inv_own_move [OF assms(3,4) 2(1-3)] show ?thesis
      by (auto dest: State_Move_Lose)
  qed
qed

lemma play_loop_ok:
  assumes "wf_session S" "ChooseMove S = pick"
  shows "game_inv f False st \<Longrightarrow> \<not> game_over st \<Longrightarrow> play_loop sha S fuel st n w = Some (r, w')
    \<Longrightarrow> play_ok f r"
proof (induction fuel arbitrary: st n w)
  case (Suc fuel)
  obtain err st1 w1 where t: "TakeTurn sha S st n w = (err, st1, w1)" by (cases "TakeTurn sha S st n w") auto
  note inv = TakeTurn_inv [OF assms Suc.prems(1,2) t]
  show ?case
  proof (cases "err \<noteq> None \<or> State_Win st1")
    case True
    with Suc.prems(3) t inv show ?thesis by (auto simp: game_over_def intro: play_okI split: if_splits)
  next
    case False
    then have inv1: "game_inv f True st1" and no: "\<not> game_over st1" using inv by (auto simp: game_over_def)
    obtain err2 st2 w2 where o: "OtherTurn sha S st1 n w1 = (err2, st2, w2)"
      by (cases "OtherTurn sha S st1 n w1") auto
    note inv2 = OtherTurn_inv [OF assms(1) o inv1 no]
    show ?thesis
    proof (cases "err2 \<noteq> None \<or> State_Lose st2")
      case True
      with Suc.prems(3) t o False inv1 inv2 show ?thesis
        by (auto simp: game_over_def intro: play_okI split: if_splits)
    next
      case cont: False
      then have "game_inv f False st2" "\<not> game_over st2" using inv2 by (auto simp: game_over_def)
      with Suc.IH Suc.prems(3) t o False cont show ?thesis by auto
    qed
  qed
qed simp

lemma Play_ok:
  assumes "wf_session S" "ChooseMove S = pick" "Play sha S fuel goFirst w = Some (r, w')"
  shows "play_ok (\<not> goFirst) r"
proof (cases goFirst)
  case True
  have "game_inv False False initial_state" "\<not> game_over initial_state"
    using legal_game.start [of False]
    by (simp_all add: game_inv_def game_over_def State_Win_def State_Lose_def initial_state_def goal_def)
  from play_loop_ok [OF assms(1,2) this] assms(3) True show ?thesis by (simp add: Play_def)
next
  case False
  have i: "game_inv True True initial_state"
    using legal_game.start [of True] by (simp add: game_inv_def initial_state_def)
  have no: "\<not> game_over initial_state"
    by (simp add: game_over_def State_Win_def State_Lose_def initial_state_def goal_def)
  obtain err st1 w1 where o: "OtherTurn sha S initial_state 0 w = (err, st1, w1)"
    by (cases "OtherTurn sha S initial_state 0 w") auto
  note inv = OtherTurn_inv [OF assms(1) o i no]
  from OtherTurn_steps [OF assms(1) o] have no1: "err = None \<Longrightarrow> \<not> game_over st1"
    by (auto dest: first_peer_turn_not_over)
  show ?thesis
  proof (cases err)
    case None
    with inv no1 have "game_inv True False st1" "\<not> game_over st1" by simp_all
    from play_loop_ok [OF assms(1,2) this] assms(3) False o None show ?thesis by (simp add: Play_def)
  next
    case (Some e)
    with inv i assms(3) False o show ?thesis by (auto simp: Play_def intro: play_okI)
  qed
qed

end

section \<open>Logs that can be printed\<close>

text \<open>
  \<open>GameLog.String\<close> calls a method on the expressions of every logged move. Our own moves have
  them, being generated; where the received ones do too, the log of a game can be printed.
\<close>

definition receives_exprs :: "'w session \<Rightarrow> bool" where
  "receives_exprs S \<longleftrightarrow> (\<forall>w m w'. RecvMove S w = (Inr m, w') \<longrightarrow> has_exprs m)"

lemma printable_AddGameLogEntry [simp]:
  "printable (GameLog (AddGameLogEntry m n p rolls st)) \<longleftrightarrow> printable (GameLog st) \<and> has_exprs m"
  by (auto simp: AddGameLogEntry_def Let_def printable_def)

lemma OtherTurn_printable:
  assumes "receives_exprs S" "OtherTurn sha S st n w = (err, st', w')" "printable (GameLog st)"
  shows "printable (GameLog st')"
proof -
  have "has_exprs m" if "RecvMove S v = (Inr m, v')" for m v v'
    using assms(1) that unfolding receives_exprs_def by blast
  with assms(2,3) show ?thesis
    by (auto simp: OtherTurn_def split: prod.splits sum.splits option.splits)
qed

context strategy begin

lemma TakeTurn_printable:
  assumes "ChooseMove S = pick" "TakeTurn sha S st n w = (err, st', w')" "printable (GameLog st)"
  shows "printable (GameLog st')"
proof -
  have "has_exprs m"
    if "generateMoves p1 p2 d1 d2 q1 q2 \<noteq> []" "pick st (generateMoves p1 p2 d1 d2 q1 q2) = Inr m"
    for m p1 p2 d1 d2 q1 q2
    using pick_mem [OF that(1), of st] that(2) by (auto intro: generateMoves_has_exprs)
  with assms show ?thesis
    by (auto simp: TakeTurn_def Let_def split: prod.splits sum.splits option.splits if_splits)
qed

lemma play_loop_printable:
  assumes "receives_exprs S" "ChooseMove S = pick"
  shows "printable (GameLog st) \<Longrightarrow> play_loop sha S fuel st n w = Some ((won, log, err), w') \<Longrightarrow> printable log"
proof (induction fuel arbitrary: st n w)
  case (Suc fuel)
  obtain err1 st1 w1 where t: "TakeTurn sha S st n w = (err1, st1, w1)" by (cases "TakeTurn sha S st n w") auto
  obtain err2 st2 w2 where o: "OtherTurn sha S st1 n w1 = (err2, st2, w2)"
    by (cases "OtherTurn sha S st1 n w1") auto
  note p1 = TakeTurn_printable [OF assms(2) t Suc.prems(1)]
  note p2 = OtherTurn_printable [OF assms(1) o p1]
  from Suc.prems(2) Suc.IH [OF p2] p1 p2 t o show ?case
    by (auto split: option.splits if_splits)
qed simp

lemma Play_printable:
  assumes "receives_exprs S" "ChooseMove S = pick"
    and "Play sha S fuel goFirst w = Some ((won, log, err), w')"
  shows "printable log"
proof -
  have init: "printable (GameLog initial_state)" by (simp add: printable_def initial_state_def)
  obtain err1 st1 w1 where o: "OtherTurn sha S initial_state 0 w = (err1, st1, w1)"
    by (cases "OtherTurn sha S initial_state 0 w") auto
  note p1 = OtherTurn_printable [OF assms(1) o init]
  from assms(3) o init p1 show ?thesis
    by (auto simp: Play_def intro: play_loop_printable [OF assms(1,2)] split: option.splits if_splits)
qed

end

text \<open>The default strategy is one: it returns the head or an element met later.\<close>

lemma closest_fold_mem: "foldl closest_step b ms \<in> insert b (set ms)"
proof (induction ms arbitrary: b)
  case (Cons m ms)
  have "closest_step b m \<in> {b, m}" by (simp add: closest_step_def Let_def)
  with Cons [of "closest_step b m"] show ?case by auto
qed simp

interpretation closest: strategy ClosestMove_ChooseMove
proof unfold_locales
  fix moves :: "move list" and st
  assume "moves \<noteq> []"
  then show "\<exists>m \<in> set moves. ClosestMove_ChooseMove st moves = Inr m"
    using closest_fold_mem [of "hd moves" moves] by (auto simp: ClosestMove_ChooseMove_def)
qed

end
