(* ===== verification/Srv_FactorFight.thy ===== *)
theory Srv_FactorFight
  imports Srv_Known Srv_Services FF_Session
begin

text \<open>
  A FactorFight game between two servers (\<open>server/factorfight/\<close>): moves and dice messages as
  protobuf messages (\<open>convert.go\<close>), the peer that signs what it sends and verifies what it
  receives (\<open>peer.go\<close>), and the two ends of a game (\<open>service.go\<close>). The stream, \<open>proto.Marshal\<close>
  and the random source are parameters. A protobuf \<open>int32\<close> is a 32-bit word read as signed.
\<close>

section \<open>Protobuf messages\<close>

record pb_pawn_move =
  pb_Result :: "32 word"
  pb_Bump :: "32 word"
  pb_Expr :: string

record pb_move =
  pb_Pawn1 :: "pb_pawn_move option"
  pb_Pawn2 :: "pb_pawn_move option"

record pb_dice =
  pb_MsgType :: "32 word"
  pb_Data :: bytes

text \<open>The \<open>oneof\<close> of \<open>FactorFightMessage\<close>; it may be unset.\<close>

datatype ff_message =
    FF_Move pb_move
  | FF_DiceMsg pb_dice
  | FF_Unset

record signed_ff =
  ff_Message :: "ff_message option"
  ff_Signature :: "ordered_signature option"

section \<open>Conversions\<close>

definition toProtoPawn :: "pawn_move \<Rightarrow> pb_pawn_move res" where
  "toProtoPawn p =
     (case Expr_String (pm_Expr p) of
        Inl e \<Rightarrow> Inl e
      | Inr s \<Rightarrow> Inr \<lparr>pb_Result = word_of_int (pm_Result p), pb_Bump = word_of_int (pm_Bump p), pb_Expr = s\<rparr>)"

definition convertInternalFactorfightMoveToProto :: "move \<Rightarrow> pb_move res" where
  "convertInternalFactorfightMoveToProto m =
     (case toProtoPawn (Pawn1 m) of
        Inl e \<Rightarrow> Inl e
      | Inr p1 \<Rightarrow>
          (case toProtoPawn (Pawn2 m) of
             Inl e \<Rightarrow> Inl e
           | Inr p2 \<Rightarrow> Inr \<lparr>pb_Pawn1 = Some p1, pb_Pawn2 = Some p2\<rparr>))"

text \<open>The getters of a nil message return zero; the expression is dropped.\<close>

definition fromProtoPawn :: "pb_pawn_move option \<Rightarrow> pawn_move" where
  "fromProtoPawn p =
     \<lparr>pm_Expr = Some (Expr '''' None None None),
      pm_Result = (case p of None \<Rightarrow> 0 | Some p \<Rightarrow> sint (pb_Result p)),
      pm_Bump = (case p of None \<Rightarrow> 0 | Some p \<Rightarrow> sint (pb_Bump p))\<rparr>"

definition convertfactorfightpbMoveToInternal :: "pb_move \<Rightarrow> move" where
  "convertfactorfightpbMoveToInternal m =
     \<lparr>Pawn1 = fromProtoPawn (pb_Pawn1 m), Pawn2 = fromProtoPawn (pb_Pawn2 m)\<rparr>"

text \<open>\<open>copy\<close> into a zeroed array of 32 bytes: longer data is cut, shorter data padded.\<close>

definition fix32 :: "bytes \<Rightarrow> bytes" where
  "fix32 d = take 32 (d @ replicate 32 0)"

definition convertdicepbMessageToInternal :: "pb_dice \<Rightarrow> message" where
  "convertdicepbMessageToInternal m = \<lparr>msg_Type = ucast (pb_MsgType m), msg_Data = fix32 (pb_Data m)\<rparr>"

definition convertInternalDiceMessageToProto :: "message \<Rightarrow> pb_dice" where
  "convertInternalDiceMessageToProto m = \<lparr>pb_MsgType = ucast (msg_Type m), pb_Data = msg_Data m\<rparr>"

lemma length_fix32 [simp]: "length (fix32 d) = 32"
  by (simp add: fix32_def)

lemma fix32_id [simp]: "length d = 32 \<Longrightarrow> fix32 d = d"
  by (simp add: fix32_def)

lemma msg_type_wire [simp]: "ucast (ucast (msg_Type m) :: 32 word) = msg_Type m"
  by (rule bit_eqI) (auto simp: bit_simps dest: bit_imp_le_length)

text \<open>C40: dice messages survive the wire, and nothing else arrives. Converting a dice message to
  protobuf and back gives the same message, and whatever protobuf message a peer sends, the
  receiver gets a message with exactly 32 bytes of data.\<close>

theorem dice_message_conversion:
  "wf_message (convertdicepbMessageToInternal pb)
   \<and> (wf_message m \<longleftrightarrow> convertdicepbMessageToInternal (convertInternalDiceMessageToProto m) = m)"
  using msg_type_wire [of m]
  by (cases m) (auto simp: wf_message_def convertdicepbMessageToInternal_def convertInternalDiceMessageToProto_def
      dest!: arg_cong [where f = length])

lemma sint_word_of_int_iff: "sint (word_of_int x :: 32 word) = x \<longleftrightarrow> is_int32 x"
proof -
  have "sint (word_of_int x :: 32 word) = signed_take_bit 31 x"
    by (simp add: signed_of_int)
  then show ?thesis
    using signed_take_bit_int_eq_self_iff [of 31 x] by (simp add: is_int32_def)
qed

text \<open>C35: moves survive the wire only in 32 bits. Sending a move and converting it back gives a
  move with the same effect exactly when the results and the bumps fit in 32 bits; the code
  sends every legal position, and positions are 64-bit integers.\<close>

theorem move_conversion_iff:
  assumes "convertInternalFactorfightMoveToProto m = Inr pb"
  shows "same_effect (convertfactorfightpbMoveToInternal pb) m
    \<longleftrightarrow> is_int32 (pm_Result (Pawn1 m)) \<and> is_int32 (pm_Bump (Pawn1 m))
      \<and> is_int32 (pm_Result (Pawn2 m)) \<and> is_int32 (pm_Bump (Pawn2 m))"
proof -
  from assms obtain s1 s2 where "pb = \<lparr>pb_Pawn1 = Some \<lparr>pb_Result = word_of_int (pm_Result (Pawn1 m)),
        pb_Bump = word_of_int (pm_Bump (Pawn1 m)), pb_Expr = s1\<rparr>,
      pb_Pawn2 = Some \<lparr>pb_Result = word_of_int (pm_Result (Pawn2 m)),
        pb_Bump = word_of_int (pm_Bump (Pawn2 m)), pb_Expr = s2\<rparr>\<rparr>"
    by (auto simp: convertInternalFactorfightMoveToProto_def toProtoPawn_def split: sum.splits)
  then show ?thesis
    by (auto simp: convertfactorfightpbMoveToInternal_def fromProtoPawn_def same_effect_def sint_word_of_int_iff)
qed

definition deep_move :: move where
  "deep_move =
     \<lparr>Pawn1 = \<lparr>pm_Expr = Some (V 1), pm_Result = - 3000000000, pm_Bump = NoBump\<rparr>,
      Pawn2 = \<lparr>pm_Expr = Some (V 1), pm_Result = 5, pm_Bump = NoBump\<rparr>\<rparr>"

theorem move_conversion_iff_witness:
  "\<not> same_effect (convertfactorfightpbMoveToInternal (projr (convertInternalFactorfightMoveToProto deep_move))) deep_move"
proof -
  have "convertInternalFactorfightMoveToProto deep_move = Inr (projr (convertInternalFactorfightMoveToProto deep_move))"
    by (simp add: convertInternalFactorfightMoveToProto_def toProtoPawn_def deep_move_def Expr_String_def)
  from move_conversion_iff [OF this] show ?thesis by (simp add: deep_move_def is_int32_def)
qed

section \<open>The peer of a stream\<close>

record ff_peer =
  fp_signer :: id_signer
  fp_verifier :: "verifier option"
  fp_lastHash :: bytes
  fp_sequence :: "64 word"

definition createFactorfightPeer :: "id_signer \<Rightarrow> verifier option \<Rightarrow> ff_peer" where
  "createFactorfightPeer signer verifier =
     \<lparr>fp_signer = signer, fp_verifier = verifier, fp_lastHash = [], fp_sequence = 0\<rparr>"

text \<open>The stream, its messages' encoding and the random source; \<open>proto.Marshal\<close> also takes nil.\<close>

record 'w ff_net =
  ff_verify :: "'w verify_env"
  ff_Marshal :: "ff_message option \<Rightarrow> bytes res"
  stream_Recv :: "'w \<Rightarrow> signed_ff res \<times> 'w"
  stream_Send :: "'w \<Rightarrow> signed_ff \<Rightarrow> go_error option \<times> 'w"
  ff_rand :: "'w \<Rightarrow> bytes \<times> 'w"

text \<open>
  What \<open>SendMove\<close> and \<open>Send\<close> share: the sequence number grows before the message is signed, the
  last hash is kept when it has been, and only then the stream is used.
\<close>

definition sign_next :: "'w ff_net \<Rightarrow> ff_peer \<Rightarrow> ff_message \<Rightarrow> signed_ff res \<times> ff_peer" where
  "sign_next N p m =
     (case ff_Marshal N (Some m) of
        Inl e \<Rightarrow> (Inl (wrapf ''failed to serialize message for hash chain: %w'' e), p)
      | Inr b \<Rightarrow>
          let sha = ve_sha (ff_verify N); p1 = p\<lparr>fp_sequence := fp_sequence p + 1\<rparr> in
          (case CreateSignedOrderedMessage sha (ve_ed (ff_verify N)) (\<lambda>m. ff_Marshal N (Some m))
                  (fp_signer p) m (fp_lastHash p) (fp_sequence p1) of
             Inl e \<Rightarrow> (Inl e, p1)
           | Inr (m', sg) \<Rightarrow>
               (Inr \<lparr>ff_Message = Some m', ff_Signature = Some sg\<rparr>, p1\<lparr>fp_lastHash := sha b\<rparr>)))"

definition peer_send_message :: "'w ff_net \<Rightarrow> ff_peer \<Rightarrow> ff_message \<Rightarrow> 'w \<Rightarrow> go_error option \<times> ff_peer \<times> 'w" where
  "peer_send_message N p m w =
     (case sign_next N p m of
        (Inl e, p1) \<Rightarrow> (Some e, p1, w)
      | (Inr sm, p1) \<Rightarrow> (case stream_Send N w sm of (e, w1) \<Rightarrow> (e, p1, w1)))"

definition peer_SendMove :: "'w ff_net \<Rightarrow> ff_peer \<Rightarrow> move \<Rightarrow> 'w \<Rightarrow> go_error option \<times> ff_peer \<times> 'w" where
  "peer_SendMove N p m w =
     (case convertInternalFactorfightMoveToProto m of
        Inl e \<Rightarrow> (Some e, p, w)
      | Inr pm \<Rightarrow> peer_send_message N p (FF_Move pm) w)"

definition ff_peer_Send :: "'w ff_net \<Rightarrow> ff_peer \<Rightarrow> message \<Rightarrow> 'w \<Rightarrow> go_error option \<times> ff_peer \<times> 'w" where
  "ff_peer_Send N p m w = peer_send_message N p (FF_DiceMsg (convertInternalDiceMessageToProto m)) w"

text \<open>
  What \<open>RecvMove\<close> and \<open>Recv\<close> share after the stream: the signature, then the selection of
  \<open>msg.Message.Message\<close>, which panics when the outer message is nil.
\<close>

definition accept_message :: "'w ff_net \<Rightarrow> ff_peer \<Rightarrow> signed_ff \<Rightarrow> 'w \<Rightarrow> ff_message res \<times> ff_peer \<times> 'w" where
  "accept_message N p sm w =
     (case VerifyOrderedSignatureProto (ff_verify N) (ff_Marshal N) (fp_verifier p) (ff_Message sm) (ff_Signature sm) w of
        (Some e, vo, w1) \<Rightarrow> (Inl (wrapf ''signature verification failed: %w'' e), p\<lparr>fp_verifier := vo\<rparr>, w1)
      | (None, vo, w1) \<Rightarrow>
          (case ff_Message sm of
             None \<Rightarrow> (Inl (Panic ''nil pointer dereference''), p\<lparr>fp_verifier := vo\<rparr>, w1)
           | Some m \<Rightarrow> (Inr m, p\<lparr>fp_verifier := vo\<rparr>, w1)))"

definition peer_recv_message :: "'w ff_net \<Rightarrow> ff_peer \<Rightarrow> 'w \<Rightarrow> ff_message res \<times> ff_peer \<times> 'w" where
  "peer_recv_message N p w =
     (case stream_Recv N w of
        (Inl e, w1) \<Rightarrow> (Inl e, p, w1)
      | (Inr sm, w1) \<Rightarrow> accept_message N p sm w1)"

definition peer_RecvMove :: "'w ff_net \<Rightarrow> ff_peer \<Rightarrow> 'w \<Rightarrow> move res \<times> ff_peer \<times> 'w" where
  "peer_RecvMove N p w =
     (case peer_recv_message N p w of
        (Inl e, p1, w1) \<Rightarrow> (Inl e, p1, w1)
      | (Inr (FF_Move m), p1, w1) \<Rightarrow> (Inr (convertfactorfightpbMoveToInternal m), p1, w1)
      | (Inr _, p1, w1) \<Rightarrow> (Inl (Errorf ''expected move, got different message type''), p1, w1))"

definition ff_peer_Recv :: "'w ff_net \<Rightarrow> ff_peer \<Rightarrow> 'w \<Rightarrow> message res \<times> ff_peer \<times> 'w" where
  "ff_peer_Recv N p w =
     (case peer_recv_message N p w of
        (Inl e, p1, w1) \<Rightarrow> (Inl e, p1, w1)
      | (Inr (FF_DiceMsg m), p1, w1) \<Rightarrow> (Inr (convertdicepbMessageToInternal m), p1, w1)
      | (Inr _, p1, w1) \<Rightarrow> (Inl (Errorf ''expected dice message, got different type''), p1, w1))"

section \<open>A session over a stream\<close>

text \<open>\<open>Dice()\<close> returns the peer itself: moves and dice messages share one hash chain.\<close>

definition ff_dice_env :: "'w ff_net \<Rightarrow> (ff_peer \<times> 'w) dice_env" where
  "ff_dice_env N =
     \<lparr>rand_Read = (\<lambda>(p, w). let (b, w1) = ff_rand N w in (b, (p, w1))),
      peer_Send = (\<lambda>(p, w) m. ff_peer_Send N p m w),
      peer_Recv = (\<lambda>(p, w). ff_peer_Recv N p w)\<rparr>"

definition ff_session ::
    "'w ff_net \<Rightarrow> (game_state \<Rightarrow> move list \<Rightarrow> move res) \<Rightarrow> (ff_peer \<times> 'w) session res" where
  "ff_session N pick =
     NewSession (ff_dice_env N) (\<lambda>(p, w) m. peer_SendMove N p m w) (\<lambda>(p, w). peer_RecvMove N p w) pick"

section \<open>The two ends of a game\<close>

text \<open>\<open>OnGameComplete\<close> acts on the world.\<close>

record 'w ff_config =
  cfg_Strategy :: "(game_state \<Rightarrow> move list \<Rightarrow> move res) option"
  OnGameComplete :: "(bool \<Rightarrow> log_entry list \<Rightarrow> 'w \<Rightarrow> 'w) option"

definition resolveStrategy ::
    "(game_state \<Rightarrow> move list \<Rightarrow> move res) option \<Rightarrow> game_state \<Rightarrow> move list \<Rightarrow> move res" where
  "resolveStrategy s = (case s of Some pick \<Rightarrow> pick | None \<Rightarrow> ClosestMove_ChooseMove)"

definition DefaultVerifierTTL :: int where "DefaultVerifierTTL = 300000000000"

definition CreateSignerVerifierPair :: "key_manager \<Rightarrow> string \<Rightarrow> (id_signer \<times> verifier) res" where
  "CreateSignerVerifierPair km serverAddr =
     (case identity_NewSigner (km_privateKey km) serverAddr of
        Inl e \<Rightarrow> Inl e
      | Inr s \<Rightarrow> Inr (s, NewVerifier DefaultVerifierTTL))"

definition complete :: "'w ff_config \<Rightarrow> bool \<Rightarrow> log_entry list \<Rightarrow> 'w \<Rightarrow> 'w" where
  "complete cfg won log w = (case OnGameComplete cfg of None \<Rightarrow> w | Some f \<Rightarrow> f won log w)"

text \<open>The server's end, \<open>Service.Play\<close>; \<open>None\<close> means that the fuel ran out.\<close>

definition Service_Play ::
    "'w ff_net \<Rightarrow> 'w ff_config \<Rightarrow> key_manager \<Rightarrow> string \<Rightarrow> nat \<Rightarrow> 'w \<Rightarrow> (game_error option \<times> 'w) option" where
  "Service_Play N cfg km serverAddr fuel w =
     (case CreateSignerVerifierPair km serverAddr of
        Inl e \<Rightarrow> Some (Some (PlainError e), w)
      | Inr (signer, verifier) \<Rightarrow>
     (case ff_session N (resolveStrategy (cfg_Strategy cfg)) of
        Inl e \<Rightarrow> Some (Some (PlainError e), w)
      | Inr S \<Rightarrow>
     (case PlayWithInitiative (ve_sha (ff_verify N)) S fuel True
             (createFactorfightPeer signer (Some verifier), w) of
        None \<Rightarrow> None
      | Some ((won, log, Some e), (p, w1)) \<Rightarrow> Some (Some e, w1)
      | Some ((won, log, None), (p, w1)) \<Rightarrow> Some (None, complete cfg won log w1))))"

text \<open>
  The challenger's end, \<open>Service.Challenge\<close>: the key that the target reports is cached under the
  target's address. \<open>open_stream\<close> is the call of \<open>Play\<close> on the connection.
\<close>

definition Service_Challenge ::
    "'w ff_net \<Rightarrow> ('w \<Rightarrow> go_error option \<times> 'w) \<Rightarrow> ('w \<Rightarrow> go_error option \<times> 'w) \<Rightarrow> 'w ff_config \<Rightarrow> key_manager
     \<Rightarrow> string \<Rightarrow> nat \<Rightarrow> string \<Rightarrow> 'w \<Rightarrow> ((challenge_response option \<times> game_error option) \<times> 'w) option" where
  "Service_Challenge N open_stream close_send cfg km serverAddr fuel target w =
     (case open_stream w of
        (Some e, w1) \<Rightarrow> Some ((None, Some (PlainError e)), w1)
      | (None, w1) \<Rightarrow>
     (case ve_GetIdentity (ff_verify N) target w1 of
        (Inl e, w2) \<Rightarrow> Some ((None, Some (PlainError (wrapf ''failed to get peer identity: %w'' e))), w2)
      | (Inr peerIdentity, w2) \<Rightarrow>
     (case CreateSignerVerifierPair km serverAddr of
        Inl e \<Rightarrow> Some ((None, Some (PlainError e)), w2)
      | Inr (signer, verifier) \<Rightarrow>
          let (v, w3) = AddPeerIdentity (ff_verify N) verifier target (PublicKey peerIdentity) w2 in
     (case ff_session N (resolveStrategy (cfg_Strategy cfg)) of
        Inl e \<Rightarrow> Some ((None, Some (PlainError e)), w3)
      | Inr S \<Rightarrow>
     (case PlayWithInitiative (ve_sha (ff_verify N)) S fuel False
             (createFactorfightPeer signer (Some v), w3) of
        None \<Rightarrow> None
      | Some ((won, log, Some e), (p, w4)) \<Rightarrow> Some ((None, Some e), w4)
      | Some ((won, log, None), (p, w4)) \<Rightarrow>
          (case close_send (complete cfg won log w4) of
             (e, w5) \<Rightarrow> Some ((Some \<lparr>resp_Win = Some won, resp_Message = ''''\<rparr>, map_option PlainError e), w5)))))))"

section \<open>Honest peers understand each other\<close>

text \<open>The signed messages of a list, as one peer makes them, and what another makes of them.\<close>

fun sign_all :: "'w ff_net \<Rightarrow> ff_peer \<Rightarrow> ff_message list \<Rightarrow> signed_ff list \<times> ff_peer" where
  "sign_all N p [] = ([], p)"
| "sign_all N p (m # ms) =
     (case sign_next N p m of
        (Inl e, p1) \<Rightarrow> ([], p1)
      | (Inr sm, p1) \<Rightarrow> (let (sms, p2) = sign_all N p1 ms in (sm # sms, p2)))"

fun accept_all :: "'w ff_net \<Rightarrow> ff_peer \<Rightarrow> signed_ff list \<Rightarrow> 'w \<Rightarrow> ff_message list res \<times> ff_peer \<times> 'w" where
  "accept_all N p [] w = (Inr [], p, w)"
| "accept_all N p (sm # sms) w =
     (case accept_message N p sm w of
        (Inl e, p1, w1) \<Rightarrow> (Inl e, p1, w1)
      | (Inr m, p1, w1) \<Rightarrow>
          (case accept_all N p1 sms w1 of
             (Inl e, p2, w2) \<Rightarrow> (Inl e, p2, w2)
           | (Inr ms, p2, w2) \<Rightarrow> (Inr (m # ms), p2, w2)))"

lemma sign_next_ok:
  assumes "ed_correct (ve_ed (ff_verify N)) priv" "identity_NewSigner priv addr = Inr (fp_signer p)"
    and "ff_Marshal N (Some m) = Inr b"
  shows "\<exists>sg. sign_next N p m =
      (Inr \<lparr>ff_Message = Some m,
            ff_Signature = Some \<lparr>sig_Signature = sg, SignerAddress = addr, PreviousHash = fp_lastHash p,
                                 os_Sequence = fp_sequence p + 1\<rparr>\<rparr>,
       p\<lparr>fp_sequence := fp_sequence p + 1, fp_lastHash := ve_sha (ff_verify N) b\<rparr>)
    \<and> sg = ed_Sign (ve_ed (ff_verify N)) priv (ve_sha (ff_verify N) b)
    \<and> ed_Verify (ve_ed (ff_verify N)) (drop 32 priv) (ve_sha (ff_verify N) b) sg"
  using assms identity_NewSigner_InrD [OF assms(2)]
  by (auto simp: sign_next_def CreateSignedOrderedMessage_def SignOrderedMessage_def identity_Sign_def
      ed25519_Sign_def ed_correct_def Let_def)

text \<open>
  What a receiver's verifier has to hold for the sender's next message to be accepted until the
  moment \<open>t\<close>: its key, and its last hash and sequence number.
\<close>

definition chain_known :: "int \<Rightarrow> string \<Rightarrow> hash_manager \<Rightarrow> ff_peer \<Rightarrow> bool" where
  "chain_known t addr hm p \<longleftrightarrow>
     (if fp_sequence p = 0 then fp_lastHash p = []
      else \<exists>e. hm_chains hm addr = Some e \<and> ce_Hash e = fp_lastHash p
             \<and> ce_Sequence e = fp_sequence p \<and> t \<le> ce_ExpiresAt e)"

definition in_step :: "'w verify_env \<Rightarrow> int \<Rightarrow> string \<Rightarrow> bytes \<Rightarrow> verifier \<Rightarrow> ff_peer \<Rightarrow> bool" where
  "in_step env t addr pub v p \<longleftrightarrow> key_known env t addr pub (identityCache v) \<and> chain_known t addr (hashChain v) p"

lemma chain_known_next:
  assumes "chain_known t addr hm p" "now \<le> t" "fp_sequence p + 1 \<noteq> 0"
  shows "VerifyAndAdd hm addr (fp_lastHash p) cur (fp_sequence p + 1) now now'
    = (None, hm_add hm addr cur (fp_sequence p + 1) now')"
  using assms by (auto simp: VerifyAndAdd_def chain_known_def split: if_splits)

definition live_until :: "int \<Rightarrow> verifier \<Rightarrow> bool" where
  "live_until ttl v \<longleftrightarrow> hm_ttl (hashChain v) = ttl \<and> ttl \<le> ic_ttl (identityCache v)"

lemma accept_next:
  assumes key: "ed_correct (ve_ed (ff_verify N)) priv" "identity_NewSigner priv addr = Inr (fp_signer p)"
      "\<forall>m. ed_Sign (ve_ed (ff_verify N)) priv m \<noteq> []" "addr \<noteq> ''''"
    and marshal: "ff_Marshal N (Some m) = Inr b"
    and clock: "\<forall>w. t \<le> fst (ve_now (ff_verify N) w) \<and> fst (ve_now (ff_verify N) w) \<le> t + ttl"
    and step: "in_step (ff_verify N) (t + ttl) addr (drop 32 priv) v p" "fp_sequence p + 1 \<noteq> 0" "live_until ttl v"
    and q: "fp_verifier q = Some v"
  obtains sm p1 v1 w1 where "sign_next N p m = (Inr sm, p1)" "fp_sequence p1 = fp_sequence p + 1"
    "fp_signer p1 = fp_signer p" "accept_message N q sm w = (Inr m, q\<lparr>fp_verifier := Some v1\<rparr>, w1)"
    "live_until ttl v1" "in_step (ff_verify N) (t + ttl) addr (drop 32 priv) v1 p1"
proof -
  let ?env = "ff_verify N" and ?T = "t + ttl"
  obtain sg where s: "sign_next N p m =
      (Inr \<lparr>ff_Message = Some m,
            ff_Signature = Some \<lparr>sig_Signature = sg, SignerAddress = addr, PreviousHash = fp_lastHash p,
                                 os_Sequence = fp_sequence p + 1\<rparr>\<rparr>,
       p\<lparr>fp_sequence := fp_sequence p + 1, fp_lastHash := ve_sha ?env b\<rparr>)"
    and ne: "sg \<noteq> []" and ok: "ed_Verify (ve_ed ?env) (drop 32 priv) (ve_sha ?env b) sg"
    using sign_next_ok [OF key(1,2) marshal] key(3) by auto
  have len: "length (drop 32 priv) = 32" using key(1) by (simp add: ed_correct_def)
  let ?os = "\<lparr>sig_Signature = sg, SignerAddress = addr, PreviousHash = fp_lastHash p, os_Sequence = fp_sequence p + 1\<rparr>"
  from step have k: "key_known ?env ?T (SignerAddress ?os) (drop 32 priv) (identityCache v)"
      "ttl \<le> ic_ttl (identityCache v)" and ch: "chain_known ?T addr (hashChain v) p"
    by (simp_all add: in_step_def live_until_def)
  obtain cm w2 where v: "VerifyOrderedSignature ?env v b (Some ?os) w = chain_check ?env (v\<lparr>identityCache := cm\<rparr>) b ?os w2"
    "key_known ?env ?T addr (drop 32 priv) cm" "ttl \<le> ic_ttl cm"
    by (rule verify_with_key [OF k clock, of b w]) (use ne key(4) step(2) len ok in simp_all)
  define now where "now = fst (ve_now ?env (snd (ve_now ?env w2)))"
  let ?hm = "hm_add (hashChain v) addr (ve_sha ?env b) (fp_sequence p + 1) now"
  let ?w3 = "snd (ve_now ?env (snd (ve_now ?env w2)))"
  have chain: "chain_check ?env (v\<lparr>identityCache := cm\<rparr>) b ?os w2 = (None, \<lparr>identityCache = cm, hashChain = ?hm\<rparr>, ?w3)"
    using chain_known_next [OF ch, of "fst (ve_now ?env w2)"] clock step(2)
    by (cases v) (simp add: chain_check_def split_def Let_def now_def)
  have acc: "accept_message N q \<lparr>ff_Message = Some m, ff_Signature = Some ?os\<rparr> w
      = (Inr m, q\<lparr>fp_verifier := Some \<lparr>identityCache = cm, hashChain = ?hm\<rparr>\<rparr>, ?w3)"
    using q marshal by (simp add: accept_message_def VerifyOrderedSignatureProto_def v(1) chain)
  have "t \<le> now" using clock by (simp add: now_def)
  with step(2,3) v(2,3) have "live_until ttl \<lparr>identityCache = cm, hashChain = ?hm\<rparr>"
    "in_step ?env ?T addr (drop 32 priv) \<lparr>identityCache = cm, hashChain = ?hm\<rparr>
      (p\<lparr>fp_sequence := fp_sequence p + 1, fp_lastHash := ve_sha ?env b\<rparr>)"
    by (simp_all add: live_until_def in_step_def chain_known_def hm_add_def)
  with s acc show thesis by (intro that) simp_all
qed

text \<open>A fresh verifier, with the key in its cache or to be had, is in step with a fresh peer.\<close>

lemma fresh_in_step:
  assumes "clock_from t env" and "0 < ttl"
  shows "reports_key env addr pub \<Longrightarrow>
      in_step env (t + ttl) addr pub (NewVerifier ttl) (createFactorfightPeer signer ver)"
    and "AddPeerIdentity env (NewVerifier ttl) addr pub w0 = (v, w) \<Longrightarrow>
      in_step env (t + ttl) addr pub v (createFactorfightPeer signer ver) \<and> live_until ttl v"
    and "live_until ttl (NewVerifier ttl)"
  using assms
  by (auto simp: AddPeerIdentity_def NewVerifier_def NewHashChainManager_def NewIdentityCacheManager_def clock_from_def
      SetPublicKey_def cache_expires_def in_step_def key_known_def chain_known_def live_until_def
      createFactorfightPeer_def split_def Let_def)

lemma next_sequence:
  assumes "unat (s :: 64 word) + 1 < 18446744073709551616"
  shows "unat (s + 1) = unat s + 1" "s + 1 \<noteq> 0"
proof -
  show "unat (s + 1) = unat s + 1" using assms by (simp add: unat_word_ariths)
  then show "s + 1 \<noteq> 0" by (metis Suc_eq_plus1 nat.distinct(1) unsigned_0)
qed

lemma accept_all_signed:
  assumes "ed_correct (ve_ed (ff_verify N)) priv" "\<forall>m. ed_Sign (ve_ed (ff_verify N)) priv m \<noteq> []" "addr \<noteq> ''''"
    and "\<forall>w. t \<le> fst (ve_now (ff_verify N) w) \<and> fst (ve_now (ff_verify N) w) \<le> t + ttl"
    and "\<forall>m \<in> set ms. \<exists>b. ff_Marshal N (Some m) = Inr b"
    and "identity_NewSigner priv addr = Inr (fp_signer p)"
    and "live_until ttl v" "in_step (ff_verify N) (t + ttl) addr (drop 32 priv) v p" "fp_verifier q = Some v"
    and "unat (fp_sequence p) + length ms < 18446744073709551616"
  shows "\<exists>q' w'. accept_all N q (fst (sign_all N p ms)) w = (Inr ms, q', w')"
  using assms(5-)
proof (induction ms arbitrary: p v q w)
  case (Cons m ms)
  from Cons.prems(1) obtain b where b: "ff_Marshal N (Some m) = Inr b" by auto
  have seqno: "unat (fp_sequence p + 1) = unat (fp_sequence p) + 1" "fp_sequence p + 1 \<noteq> 0"
    using next_sequence [of "fp_sequence p"] Cons.prems(6) by simp_all
  obtain sm p1 v1 w1 where 1: "sign_next N p m = (Inr sm, p1)" "fp_sequence p1 = fp_sequence p + 1"
      "fp_signer p1 = fp_signer p" "accept_message N q sm w = (Inr m, q\<lparr>fp_verifier := Some v1\<rparr>, w1)"
      "live_until ttl v1" "in_step (ff_verify N) (t + ttl) addr (drop 32 priv) v1 p1"
    by (rule accept_next [OF assms(1) Cons.prems(2) assms(2,3) b assms(4) Cons.prems(4) seqno(2) Cons.prems(3,5)])
  have "\<exists>q' w'. accept_all N (q\<lparr>fp_verifier := Some v1\<rparr>) (fst (sign_all N p1 ms)) w1 = (Inr ms, q', w')"
    using Cons.prems 1 seqno by (intro Cons.IH) simp_all
  with 1 show ?case by (auto simp: split_def Let_def)
qed simp

text \<open>Honest messages always get through. Every list of messages that one server's peer signs
  is accepted in full and in order by a peer that cached the signer's key, as the challenger
  does, when all of it happens within the lifetime of a chain entry: signing never disturbs a
  game between honest servers.\<close>

theorem honest_stream_accepted:
  assumes key: "ed_correct (ve_ed (ff_verify N)) priv" "\<forall>m. ed_Sign (ve_ed (ff_verify N)) priv m \<noteq> []"
      "identity_NewSigner priv addr = Inr signer" "addr \<noteq> ''''"
    and marshal: "\<forall>m \<in> set ms. \<exists>b. ff_Marshal N (Some m) = Inr b"
    and clock: "\<forall>w. t \<le> fst (ve_now (ff_verify N) w) \<and> fst (ve_now (ff_verify N) w) \<le> t + ttl" "0 < ttl"
    and cached: "AddPeerIdentity (ff_verify N) (NewVerifier ttl) addr (publicKey signer) w0 = (v, w)"
    and short: "length ms < 18446744073709551616"
  shows "\<exists>q' w'. accept_all N (createFactorfightPeer own (Some v))
      (fst (sign_all N (createFactorfightPeer signer ver) ms)) w = (Inr ms, q', w')"
proof (rule accept_all_signed [OF key(1,2,4) clock(1) marshal])
  let ?p = "createFactorfightPeer signer ver"
  have pub: "publicKey signer = drop 32 priv"
    using key(1,3) by (auto simp: identity_NewSigner_def PrivateKey_Public_def ed_correct_def)
  show "identity_NewSigner priv addr = Inr (fp_signer ?p)" using key(3) by (simp add: createFactorfightPeer_def)
  have "clock_from t (ff_verify N)" using clock(1) by (simp add: clock_from_def)
  from fresh_in_step(2) [OF this clock(2) cached [unfolded pub]]
  show "live_until ttl v" "in_step (ff_verify N) (t + ttl) addr (drop 32 priv) v ?p" by simp_all
  show "fp_verifier (createFactorfightPeer own (Some v)) = Some v" by (simp add: createFactorfightPeer_def)
  show "unat (fp_sequence ?p) + length ms < 18446744073709551616" using short by (simp add: createFactorfightPeer_def)
qed

text \<open>A signed message without content crashes the receiver. When the peer of a stream signs
  the empty encoding and leaves the message unset, the signature is accepted and selecting the
  message's kind dereferences nil.\<close>

theorem unset_message_panics:
  assumes "fp_verifier q = Some v" "ff_Marshal N None = Inr b" "ff_Message sm = None"
    and "fst (VerifyOrderedSignature (ff_verify N) v b (ff_Signature sm) w) = None"
  shows "fst (accept_message N q sm w) = Inl (Panic ''nil pointer dereference'')"
proof -
  obtain v' w' where "VerifyOrderedSignature (ff_verify N) v b (ff_Signature sm) w = (None, v', w')"
    using assms(4) by (metis prod.collapse)
  moreover from this obtain sg where "ff_Signature sm = Some sg"
    by (cases "ff_Signature sm") (auto simp: VerifyOrderedSignature_def)
  ultimately show ?thesis using assms(1-3) by (simp add: accept_message_def VerifyOrderedSignatureProto_def)
qed

text \<open>Instances: a constant clock, every message encoded as one byte, nil as none.\<close>

definition still_env :: "unit verify_env" where
  "still_env =
     \<lparr>ve_now = (\<lambda>w. (7, w)), ve_dial = (\<lambda>tls a w. (None, w)),
      ve_GetIdentity = (\<lambda>a w. (Inr (example_identity 5 a a), w)), ve_store = None, ve_ed = example_ed,
      ve_sha = (\<lambda>b. b)\<rparr>"

definition still_net :: "unit ff_net" where
  "still_net =
     \<lparr>ff_verify = still_env, ff_Marshal = (\<lambda>m. Inr (if m = None then [] else [1])),
      stream_Recv = (\<lambda>w. (Inl (Errorf ''EOF''), w)), stream_Send = (\<lambda>w m. (None, w)),
      ff_rand = (\<lambda>w. (replicate 32 0, w))\<rparr>"

definition still_signer :: id_signer where
  "still_signer = \<lparr>privateKey = example_priv 5, publicKey = replicate 32 5, signer_address = ''bob:1''\<rparr>"

definition still_verifier :: verifier where
  "still_verifier = fst (AddPeerIdentity still_env (NewVerifier 10) ''bob:1'' (publicKey still_signer) ())"

theorem honest_stream_accepted_witness:
  "fst (accept_all still_net (createFactorfightPeer still_signer (Some still_verifier))
     (fst (sign_all still_net (createFactorfightPeer still_signer None) [FF_Unset, FF_DiceMsg \<lparr>pb_MsgType = 1, pb_Data = [2]\<rparr>]))
     ()) = Inr [FF_Unset, FF_DiceMsg \<lparr>pb_MsgType = 1, pb_Data = [2]\<rparr>]"
proof -
  have 1: "identity_NewSigner (example_priv 5) ''bob:1'' = Inr still_signer" by code_simp
  have 2: "AddPeerIdentity (ff_verify still_net) (NewVerifier 10) ''bob:1'' (publicKey still_signer) ()
      = (still_verifier, ())" by (simp add: still_verifier_def still_net_def prod_eq_iff)
  have 3: "ed_correct (ve_ed (ff_verify still_net)) (example_priv 5)"
    "\<forall>m. ed_Sign (ve_ed (ff_verify still_net)) (example_priv 5) m \<noteq> []"
    "\<forall>w. 0 \<le> fst (ve_now (ff_verify still_net) w) \<and> fst (ve_now (ff_verify still_net) w) \<le> 0 + 10"
    "\<forall>m \<in> set ms. \<exists>b. ff_Marshal still_net (Some m) = Inr b" for ms
    by (simp_all add: still_net_def still_env_def) (simp add: example_ed_def example_priv_def)
  let ?ms = "[FF_Unset, FF_DiceMsg \<lparr>pb_MsgType = 1, pb_Data = [2]\<rparr>]"
  obtain q' w' where "accept_all still_net (createFactorfightPeer still_signer (Some still_verifier))
      (fst (sign_all still_net (createFactorfightPeer still_signer None) ?ms)) () = (Inr ?ms, q', w')"
    using honest_stream_accepted [OF 3(1,2) 1 _ 3(4,3) _ 2, of ?ms still_signer None] by auto
  then show ?thesis by (simp only: fst_conv)
qed

theorem unset_message_panics_witness:
  "fst (accept_message still_net (createFactorfightPeer still_signer (Some still_verifier))
     \<lparr>ff_Message = None, ff_Signature = Some (example_osig 5 ''bob:1'' [] [] 1)\<rparr> ())
     = Inl (Panic ''nil pointer dereference'')"
proof -
  have "fst (VerifyOrderedSignature (ff_verify still_net) still_verifier []
      (Some (example_osig 5 ''bob:1'' [] [] 1)) ()) = None" by code_simp
  then show ?thesis
    by (intro unset_message_panics [where v = still_verifier and b = "[]"])
      (simp_all add: createFactorfightPeer_def still_net_def)
qed

end
