(* ===== verification/FF_Play.thy ===== *)
theory FF_Play
  imports FF_Session Dice_Protocol
begin

text \<open>
  What a game of Factor Fight guarantees, for any peer: the log and the result that \<open>Play\<close>
  returns, that it returns, that a turn of ours fails only when the roll or the peer does,
  and that the two players of one game agree on its outcome. The instances run whole games
  against a scripted peer.
\<close>

section \<open>A scripted peer\<close>

text \<open>
  A peer for instances: its dice side answers with our own messages, so our secrets decide the
  rolls, and its moves come from a list.
\<close>

record script =
  s_secrets :: "bytes list"
  s_echo :: "message list"
  s_moves :: "move list"
  s_sent :: "move list"

definition script_dice :: "script dice_env" where
  "script_dice =
     \<lparr>rand_Read = (\<lambda>w. case s_secrets w of
                         [] \<Rightarrow> (replicate 32 0, w)
                       | s # ss \<Rightarrow> (s, w\<lparr>s_secrets := ss\<rparr>)),
      peer_Send = (\<lambda>w m. (None, w\<lparr>s_echo := s_echo w @ [m]\<rparr>)),
      peer_Recv = (\<lambda>w. case s_echo w of
                         [] \<Rightarrow> (Inl (Errorf ''EOF''), w)
                       | m # ms \<Rightarrow> (Inr m, w\<lparr>s_echo := ms\<rparr>))\<rparr>"

definition script_session :: "(game_state \<Rightarrow> move list \<Rightarrow> move res) \<Rightarrow> script session" where
  "script_session pick =
     \<lparr>Session_Roller = die10, Session_dice = script_dice,
      SendMove = (\<lambda>w m. (None, w\<lparr>s_sent := s_sent w @ [m]\<rparr>)),
      RecvMove = (\<lambda>w. case s_moves w of
                        [] \<Rightarrow> (Inl (Errorf ''EOF''), w)
                      | m # ms \<Rightarrow> (Inr m, w\<lparr>s_moves := ms\<rparr>)),
      ChooseMove = pick\<rparr>"

lemma script_session_sel [simp]:
  "Session_Roller (script_session pick) = die10" "ChooseMove (script_session pick) = pick"
  "Session_dice (script_session pick) = script_dice"
  "SendMove (script_session pick) w m = (None, w\<lparr>s_sent := s_sent w @ [m]\<rparr>)"
  "s_moves w = [] \<Longrightarrow> RecvMove (script_session pick) w = (Inl (Errorf ''EOF''), w)"
  "s_moves w = m # ms \<Longrightarrow> RecvMove (script_session pick) w = (Inr m, w\<lparr>s_moves := ms\<rparr>)"
  by (simp_all add: script_session_def)

lemma NewSession_script:
  "NewSession script_dice (SendMove (script_session pick)) (RecvMove (script_session pick)) pick
     = Inr (script_session pick)"
  by (simp add: NewSession_def script_session_def)

lemma wf_script_session [simp]: "wf_session (script_session pick)"
  by (simp add: wf_session_def)

section \<open>Termination\<close>

lemma play_loop_more_fuel:
  "play_loop sha S fuel st n w = Some r \<Longrightarrow> play_loop sha S (fuel + k) st n w = Some r"
proof (induction fuel arbitrary: st n w)
  case (Suc fuel)
  obtain err st1 w1 where t: "TakeTurn sha S st n w = (err, st1, w1)" by (cases "TakeTurn sha S st n w") auto
  obtain err2 st2 w2 where o: "OtherTurn sha S st1 n w1 = (err2, st2, w2)"
    by (cases "OtherTurn sha S st1 n w1") auto
  show ?case
    using Suc.prems Suc.IH [of st2 "int64 (n + 1)" w2] t o
    by (simp split: option.splits if_splits)
qed simp

text \<open>A peer whose moves are bounded: a measure of the world that a received move decreases.\<close>

definition moves_bounded :: "(bytes \<Rightarrow> bytes) \<Rightarrow> 'w session \<Rightarrow> ('w \<Rightarrow> nat) \<Rightarrow> bool" where
  "moves_bounded sha S left_moves \<longleftrightarrow>
     (\<forall>w m w'. RecvMove S w = (Inr m, w') \<longrightarrow> left_moves w' < left_moves w)
     \<and> (\<forall>w m. left_moves (snd (SendMove S w m)) \<le> left_moves w)
     \<and> (\<forall>w. left_moves (snd (Session_RollSync sha S 2 w)) \<le> left_moves w)"

lemma TakeTurn_left_moves:
  assumes "moves_bounded sha S mu" "TakeTurn sha S st n w = (err, st', w')"
  shows "mu w' \<le> mu w"
proof -
  obtain x w1 where r: "Session_RollSync sha S 2 w = (x, w1)" by fastforce
  with assms(1) have 1: "mu w1 \<le> mu w" unfolding moves_bounded_def by (metis snd_conv)
  have 2: "mu (snd (SendMove S w1 m)) \<le> mu w1" for m using assms(1) by (simp add: moves_bounded_def)
  have "w' = w1 \<or> (\<exists>m. w' = snd (SendMove S w1 m))"
    using assms(2) r
    by (auto simp: TakeTurn_def Let_def split: sum.splits if_splits option.splits prod.splits)
      (metis snd_conv)+
  with 1 2 show ?thesis using le_trans by blast
qed

lemma OtherTurn_left_moves:
  assumes "moves_bounded sha S mu" "OtherTurn sha S st n w = (None, st', w')"
  shows "mu w' < mu w"
proof -
  obtain x w1 where r: "Session_RollSync sha S 2 w = (x, w1)" by fastforce
  with assms(1) have 1: "mu w1 \<le> mu w" unfolding moves_bounded_def by (metis snd_conv)
  obtain m where "RecvMove S w1 = (Inr m, w')"
    using assms(2) r by (auto simp: OtherTurn_def split: sum.splits option.splits prod.splits)
  with assms(1) have "mu w' < mu w1" unfolding moves_bounded_def by blast
  with 1 show ?thesis by simp
qed

lemma play_loop_returns:
  assumes "moves_bounded sha S mu"
  shows "mu w < fuel \<Longrightarrow> play_loop sha S fuel st n w \<noteq> None"
proof (induction fuel arbitrary: st n w)
  case (Suc fuel)
  obtain err st1 w1 where t: "TakeTurn sha S st n w = (err, st1, w1)" by (cases "TakeTurn sha S st n w") auto
  obtain err2 st2 w2 where o: "OtherTurn sha S st1 n w1 = (err2, st2, w2)"
    by (cases "OtherTurn sha S st1 n w1") auto
  show ?case
  proof (cases err2)
    case None
    with OtherTurn_left_moves [OF assms] TakeTurn_left_moves [OF assms t] o Suc.prems
    have "mu w2 < fuel" by fastforce
    with Suc.IH have "play_loop sha S fuel st2 (int64 (n + 1)) w2 \<noteq> None" .
    with t o None show ?thesis by (auto split: option.split)
  next
    case (Some e)
    with t o show ?thesis by (auto split: option.split)
  qed
qed simp

text \<open>C23: \<open>Play\<close> returns. When the peer can only deliver \<open>n\<close> more moves (its stream is
  finite, the context ends, the connection closes), the game ends by victory, defeat or
  error within \<open>n + 1\<close> rounds: every larger amount of fuel gives the same result.\<close>

theorem Play_returns:
  assumes "moves_bounded sha S left_moves"
  shows "\<exists>r. \<forall>fuel > left_moves w. Play sha S fuel goFirst w = Some r"
proof -
  have loop: "\<exists>r. \<forall>fuel > left_moves w. play_loop sha S fuel st n w' = Some r"
    if "left_moves w' \<le> left_moves w" for st n w'
  proof -
    from that have "left_moves w' < Suc (left_moves w)" by simp
    from play_loop_returns [OF assms this] obtain r where
      r: "play_loop sha S (Suc (left_moves w)) st n w' = Some r" by blast
    have "play_loop sha S fuel st n w' = Some r" if "left_moves w < fuel" for fuel
      using play_loop_more_fuel [OF r, of "fuel - Suc (left_moves w)"] that by simp
    then show ?thesis by blast
  qed
  show ?thesis
  proof (cases goFirst)
    case True
    with loop [of w] show ?thesis by (simp add: Play_def)
  next
    case False
    obtain err st1 w1 where o: "OtherTurn sha S initial_state 0 w = (err, st1, w1)"
      by (cases "OtherTurn sha S initial_state 0 w") auto
    show ?thesis
    proof (cases err)
      case None
      with OtherTurn_left_moves [OF assms] o have "left_moves w1 \<le> left_moves w" by fastforce
      with loop [of w1] False o None show ?thesis by (simp add: Play_def)
    qed (use False o in \<open>auto simp: Play_def\<close>)
  qed
qed


lemma script_dice_moves [simp]:
  "rand_Read script_dice w = (x, w1) \<Longrightarrow> s_moves w1 = s_moves w"
  "peer_Send script_dice w m = (e, w1) \<Longrightarrow> s_moves w1 = s_moves w"
  "peer_Recv script_dice w = (r, w1) \<Longrightarrow> s_moves w1 = s_moves w"
  by (auto simp: script_dice_def split: list.splits)

lemma script_exchange_moves: "exchangeMessages script_dice w s c = (r, w1) \<Longrightarrow> s_moves w1 = s_moves w"
  by (auto simp: exchangeMessages_def split: prod.splits option.splits sum.splits if_splits)

lemma script_confirm_moves: "confirmRoll script_dice w rs = (e, w1) \<Longrightarrow> s_moves w1 = s_moves w"
  by (auto simp: confirmRoll_def Let_def split: prod.splits option.splits sum.splits if_splits)

lemma script_roll_moves: "Session_RollSync sha (script_session pick) n w = (r, w1) \<Longrightarrow> s_moves w1 = s_moves w"
  by (auto simp: Session_RollSync_def RollSync_def Roll_def startExchange_def
      split: prod.splits option.splits sum.splits if_splits
      dest!: script_exchange_moves script_confirm_moves)

lemma script_moves_bounded: "moves_bounded sha (script_session pick) (\<lambda>w. length (s_moves w))"
proof -
  have "length (s_moves w') < length (s_moves w)"
    if "RecvMove (script_session pick) w = (Inr m, w')" for w m w'
    using that by (cases "s_moves w") auto
  moreover have "length (s_moves (snd (Session_RollSync sha (script_session pick) 2 w))) = length (s_moves w)" for w
    using script_roll_moves [of sha pick 2 w] by (cases "Session_RollSync sha (script_session pick) 2 w") simp
  ultimately show ?thesis by (simp add: moves_bounded_def)
qed

definition no_moves_script :: script where
  "no_moves_script = \<lparr>s_secrets = [], s_echo = [], s_moves = [], s_sent = []\<rparr>"

theorem Play_returns_witness:
  "\<exists>r. Play example_hash (script_session ClosestMove_ChooseMove) 1 True no_moves_script = Some r"
  using Play_returns [OF script_moves_bounded, of no_moves_script example_hash ClosestMove_ChooseMove True]
  by (auto simp: no_moves_script_def)

section \<open>A turn of ours\<close>

text \<open>A turn of ours cannot get stuck. In every position a game can be in, whatever
  strategy chooses among the offered moves, \<open>TakeTurn\<close> fails exactly when the roll with the
  peer fails or the move cannot be sent: it never panics and never runs out of moves.\<close>

theorem TakeTurn_fails_iff:
  assumes "wf_session S" "strategy (ChooseMove S)"
    and "game_inv peer_first False st" "\<not> game_over st"
  shows "fst (TakeTurn sha S st n w) \<noteq> None \<longleftrightarrow>
    (case Session_RollSync sha S 2 w of
       (Inl e, w1) \<Rightarrow> True
     | (Inr rolls, w1) \<Rightarrow>
        (\<exists>m e. ChooseMove S st (own_moves (uint (rolls ! 0)) (uint (rolls ! 1)) st) = Inr m
           \<and> fst (SendMove S w1 m) = Some e))"
proof -
  from strategy.TakeTurn_steps [OF assms(2,1) refl assms(3,4), of sha w n]
  consider e w1 where "Session_RollSync sha S 2 w = (Inl e, w1)"
      "fst (TakeTurn sha S st n w) = Some (wrapf ''error rolling: %w'' e)"
    | r1 r2 m w1 where "Session_RollSync sha S 2 w = (Inr [r1, r2], w1)"
      "ChooseMove S st (own_moves (uint r1) (uint r2) st) = Inr m"
      "fst (TakeTurn sha S st n w) = map_option (wrapf ''error sending turn: %w'') (fst (SendMove S w1 m))"
    by (metis fst_conv prod.collapse)
  then show ?thesis
  proof cases
    case 1
    then show ?thesis by simp
  next
    case 2
    then show ?thesis by simp
  qed
qed

lemma game_inv_initial: "game_inv peer_first peer_first initial_state" "\<not> game_over initial_state"
  using legal_game.start [of peer_first]
  by (simp_all add: game_inv_def game_over_def State_Win_def State_Lose_def initial_state_def goal_def)

theorem TakeTurn_fails_iff_witness:
  "fst (TakeTurn example_hash (script_session ClosestMove_ChooseMove) initial_state 0 no_moves_script) = None"
proof -
  let ?S = "script_session ClosestMove_ChooseMove"
  have s: "strategy (ChooseMove ?S)" by (simp add: closest.strategy_axioms)
  have "fst (Session_RollSync example_hash ?S 2 no_moves_script) = Inr [1, 1]"
    by code_simp
  with TakeTurn_fails_iff [OF wf_script_session s game_inv_initial, of example_hash 0 no_moves_script]
  show ?thesis by (auto split: prod.splits)
qed

section \<open>The log and the result\<close>

text \<open>C2: whatever the peer does, \<open>Play\<close> returns the log of a legal game. Players alternate
  from the one that goes first, no turn follows the end of the game, and every entry has the
  faces of its dice, a move with the effect of one its mover may make there, and the state it
  leads to. Without an error the game is over and the result says who won; with an error the
  log is in the error too, and the game does not count as won.\<close>

theorem Play_log_is_legal:
  assumes "NewSession dice send recv pick = Inr S" "strategy pick"
    and "Play sha S fuel goFirst w = Some ((won, log, err), w')"
  shows "\<exists>s p. legal_game (\<not> goFirst) log s p \<and> board_ok s
    \<and> (err = None \<longrightarrow> (won \<and> State_Win s \<and> \<not> State_Lose s \<or> \<not> won \<and> State_Lose s \<and> \<not> State_Win s))
    \<and> (err \<noteq> None \<longrightarrow> \<not> won \<and> (\<exists>e. err = Some (GameError log e)))"
proof -
  from assms(1) have "wf_session S" "ChooseMove S = pick"
    by (auto simp: NewSession_def wf_session_def)
  from strategy.Play_ok [OF assms(2) this assms(3)]
  have "play_ok (\<not> goFirst) (won, log, err)" .
  then obtain s p where "legal_game (\<not> goFirst) log s p" "board_ok s" "\<not> (State_Win s \<and> State_Lose s)"
    "err = None \<Longrightarrow> game_over s \<and> won = State_Win s"
    "err \<noteq> None \<Longrightarrow> \<not> won \<and> (\<exists>e. err = Some (GameError log e))" by (rule play_okD) blast
  then show ?thesis unfolding game_over_def by blast
qed

text \<open>
  A whole game in five turns: the peer begins and takes both its pawns to the goal with the
  rolls 10 10, 1 10 and 10 1, while we roll 1 1 twice.
\<close>

definition secret_for :: "nat \<Rightarrow> nat \<Rightarrow> bytes" where
  "secret_for r1 r2 = replicate 28 0 @ [of_nat (r2 - 1), 0, of_nat (r1 - 1), 0]"

definition plain_move :: "int \<Rightarrow> bump_status \<Rightarrow> int \<Rightarrow> bump_status \<Rightarrow> move" where
  "plain_move r1 b1 r2 b2 =
     \<lparr>Pawn1 = \<lparr>pm_Expr = Some (V r1), pm_Result = r1, pm_Bump = b1\<rparr>,
      Pawn2 = \<lparr>pm_Expr = Some (V r2), pm_Result = r2, pm_Bump = b2\<rparr>\<rparr>"

definition quick_secrets :: "bytes list" where
  "quick_secrets = [secret_for 10 10, secret_for 1 1, secret_for 1 10, secret_for 1 1, secret_for 10 1]"

definition quick_moves :: "move list" where
  "quick_moves = [plain_move 100 NoBump 0 BumpedPeer2, plain_move 101 NoBump 10 NoBump,
     plain_move 101 NoBump 101 NoBump]"

definition quick_script :: script where
  "quick_script = \<lparr>s_secrets = quick_secrets, s_echo = [], s_moves = quick_moves, s_sent = []\<rparr>"

definition loser :: "script session" where "loser = script_session ClosestMove_ChooseMove"

text \<open>The strategy of the winner: the moves above, and the default one otherwise.\<close>

definition quick_pick :: "game_state \<Rightarrow> move list \<Rightarrow> move res" where
  "quick_pick st moves =
     (case find (\<lambda>m. same_effect m (quick_moves ! (length (GameLog st) div 2))) moves of
        Some m \<Rightarrow> Inr m
      | None \<Rightarrow> ClosestMove_ChooseMove st moves)"

interpretation quick: strategy quick_pick
proof unfold_locales
  fix moves :: "move list" and st
  assume "moves \<noteq> []"
  then show "\<exists>m \<in> set moves. quick_pick st moves = Inr m"
    using closest.pick_mem [of moves st]
    by (auto simp: quick_pick_def find_Some_iff split: option.split)
qed

definition winner :: "script session" where "winner = script_session quick_pick"


text \<open>The moves of the loser and of the winner, and the states of both after each turn.\<close>

definition loser_moves :: "move list" where
  "loser_moves =
     [\<lparr>Pawn1 = \<lparr>pm_Expr = Some (binop Add (V 0) (V 1)), pm_Result = 1, pm_Bump = NoBump\<rparr>,
       Pawn2 = \<lparr>pm_Expr = Some (binop Add (V 0) (V 1)), pm_Result = 1, pm_Bump = BumpedSelf\<rparr>\<rparr>,
      \<lparr>Pawn1 = \<lparr>pm_Expr = Some (binop Add (V 0) (V 1)), pm_Result = 1, pm_Bump = NoBump\<rparr>,
       Pawn2 = \<lparr>pm_Expr = Some (binop Add (V 1) (V 1)), pm_Result = 2, pm_Bump = NoBump\<rparr>\<rparr>]"

definition winner_moves :: "move list" where
  "winner_moves =
     [\<lparr>Pawn1 = \<lparr>pm_Expr = Some (binop Mul (binop Add (V 0) (V 10)) (V 10)), pm_Result = 100, pm_Bump = NoBump\<rparr>,
       Pawn2 = \<lparr>pm_Expr = Some (V 0), pm_Result = 0, pm_Bump = BumpedPeer2\<rparr>\<rparr>,
      \<lparr>Pawn1 = \<lparr>pm_Expr = Some (binop Add (V 100) (V 1)), pm_Result = 101, pm_Bump = NoBump\<rparr>,
       Pawn2 = \<lparr>pm_Expr = Some (binop Add (V 0) (V 10)), pm_Result = 10, pm_Bump = NoBump\<rparr>\<rparr>,
      \<lparr>Pawn1 = \<lparr>pm_Expr = Some (V 101), pm_Result = 101, pm_Bump = NoBump\<rparr>,
       Pawn2 = \<lparr>pm_Expr = Some (binop Add (binop Mul (V 10) (V 10)) (V 1)), pm_Result = 101, pm_Bump = NoBump\<rparr>\<rparr>]"

definition own_turn :: "move \<Rightarrow> int \<Rightarrow> 16 word list \<Rightarrow> game_state \<Rightarrow> game_state" where
  "own_turn m n rolls st = State_Move m (AddGameLogEntry m n False rolls st)"

definition peer_turn :: "move \<Rightarrow> int \<Rightarrow> 16 word list \<Rightarrow> game_state \<Rightarrow> game_state" where
  "peer_turn m n rolls st = State_PeerMove m (AddGameLogEntry m n True rolls st)"

definition "L1 = peer_turn (quick_moves ! 0) 0 [10, 10] initial_state"
definition "L2 = own_turn (loser_moves ! 0) 0 [1, 1] L1"
definition "L3 = peer_turn (quick_moves ! 1) 0 [1, 10] L2"
definition "L4 = own_turn (loser_moves ! 1) 1 [1, 1] L3"
definition "L5 = peer_turn (quick_moves ! 2) 1 [10, 1] L4"

definition "W1 = own_turn (winner_moves ! 0) 0 [10, 10] initial_state"
definition "W2 = peer_turn (loser_moves ! 0) 0 [1, 1] W1"
definition "W3 = own_turn (winner_moves ! 1) 1 [1, 10] W2"
definition "W4 = peer_turn (loser_moves ! 1) 1 [1, 1] W3"
definition "W5 = own_turn (winner_moves ! 2) 2 [10, 1] W4"

definition quick_world :: "move list \<Rightarrow> nat \<Rightarrow> nat \<Rightarrow> move list \<Rightarrow> script" where
  "quick_world ms i j sent =
     \<lparr>s_secrets = drop i quick_secrets, s_echo = [], s_moves = drop j ms, s_sent = sent\<rparr>"

lemma loser_turn1: "OtherTurn example_hash loser initial_state 0 (quick_world quick_moves 0 0 []) =
    (None, L1, quick_world quick_moves 1 1 [])" by code_simp
lemma loser_turn2: "TakeTurn example_hash loser L1 0 (quick_world quick_moves 1 1 []) =
    (None, L2, quick_world quick_moves 2 1 (take 1 loser_moves))" by code_simp
lemma loser_turn3: "OtherTurn example_hash loser L2 0 (quick_world quick_moves 2 1 (take 1 loser_moves)) =
    (None, L3, quick_world quick_moves 3 2 (take 1 loser_moves))" by code_simp
lemma loser_turn4: "TakeTurn example_hash loser L3 1 (quick_world quick_moves 3 2 (take 1 loser_moves)) =
    (None, L4, quick_world quick_moves 4 2 loser_moves)" by code_simp
lemma loser_turn5: "OtherTurn example_hash loser L4 1 (quick_world quick_moves 4 2 loser_moves) =
    (None, L5, quick_world quick_moves 5 3 loser_moves)" by code_simp

lemma winner_turn1: "TakeTurn example_hash winner initial_state 0 (quick_world loser_moves 0 0 []) =
    (None, W1, quick_world loser_moves 1 0 (take 1 winner_moves))" by code_simp
lemma winner_turn2: "OtherTurn example_hash winner W1 0 (quick_world loser_moves 1 0 (take 1 winner_moves)) =
    (None, W2, quick_world loser_moves 2 1 (take 1 winner_moves))" by code_simp
lemma winner_turn3: "TakeTurn example_hash winner W2 1 (quick_world loser_moves 2 1 (take 1 winner_moves)) =
    (None, W3, quick_world loser_moves 3 1 (take 2 winner_moves))" by code_simp
lemma winner_turn4: "OtherTurn example_hash winner W3 1 (quick_world loser_moves 3 1 (take 2 winner_moves)) =
    (None, W4, quick_world loser_moves 4 2 (take 2 winner_moves))" by code_simp
lemma winner_turn5: "TakeTurn example_hash winner W4 2 (quick_world loser_moves 4 2 (take 2 winner_moves)) =
    (None, W5, quick_world loser_moves 5 2 winner_moves)" by code_simp

lemma quick_over:
  "\<not> State_Win L2" "\<not> State_Lose L3" "\<not> State_Win L4" "State_Lose L5"
  "\<not> State_Win W1" "\<not> State_Lose W2" "\<not> State_Win W3" "\<not> State_Lose W4" "State_Win W5"
  by code_simp+

lemma int64_small [simp]: "int64 1 = 1" "int64 2 = 2"
  by (simp_all add: int64_def)

lemma loser_plays: "Play example_hash loser (Suc (Suc 0)) False (quick_world quick_moves 0 0 []) =
    Some ((False, GameLog L5, None), quick_world quick_moves 5 3 loser_moves)"
  by (simp add: Play_def loser_turn1 loser_turn2 loser_turn3 loser_turn4 loser_turn5 quick_over
      del: One_nat_def)

lemma winner_plays: "Play example_hash winner (Suc (Suc (Suc 0))) True (quick_world loser_moves 0 0 []) =
    Some ((True, GameLog W5, None), quick_world loser_moves 5 2 winner_moves)"
  by (simp add: Play_def winner_turn1 winner_turn2 winner_turn3 winner_turn4 winner_turn5 quick_over
      del: One_nat_def)


theorem Play_log_is_legal_witness:
  "\<exists>s p. legal_game True (GameLog L5) s p \<and> board_ok s \<and> State_Lose s \<and> \<not> State_Win s"
  using Play_log_is_legal [OF NewSession_script closest.strategy_axioms loser_plays [unfolded loser_def]]
  by simp

section \<open>The two players agree\<close>

text \<open>
  One half turn as its mover and as the other player logged it: the dice agree (the rolls were
  confirmed) and the move that was received has the effect of the one that was sent.
\<close>

definition same_turn :: "log_entry \<Rightarrow> log_entry \<Rightarrow> bool" where
  "same_turn e e' \<longleftrightarrow>
     IsPeer e' = (\<not> IsPeer e) \<and> Rolls e = Rolls e' \<and> same_effect (entry_Move e) (entry_Move e')"

lemma entry_State_mirror:
  assumes "same_turn e e'" "entry_ok e" "entry_ok e'" "FromState e' = mirror (FromState e)"
  shows "entry_State e' = mirror (entry_State e)"
proof -
  from assms(1) have eff: "same_effect (entry_Move e) (entry_Move e')" by (simp add: same_turn_def)
  show ?thesis
  proof (cases "IsPeer e")
    case True
    then have "mirror (entry_State e') = State_PeerMove (entry_Move e') (mirror (mirror (FromState e)))"
      using assms by (simp add: same_turn_def entry_ok_def mirror_Move)
    also have "\<dots> = entry_State e"
      using True assms(2) State_PeerMove_same_effect [OF eff, of "FromState e"] by (simp add: entry_ok_def)
    finally show ?thesis by (metis mirror_mirror)
  next
    case False
    with assms show ?thesis
      by (simp add: same_turn_def entry_ok_def mirror_Move State_PeerMove_same_effect [OF eff])
  qed
qed

lemma legal_games_mirror:
  "legal_game f l s p \<Longrightarrow> legal_game f' l' s' p' \<Longrightarrow> list_all2 same_turn l l' \<Longrightarrow> s' = mirror s"
proof (induction l arbitrary: l' s p s' p' rule: rev_induct)
  case Nil
  then have "s = positions.truncate initial_state" "s' = positions.truncate initial_state"
    by (auto elim: legal_game_NilE)
  then show ?case by (simp add: initial_state_def positions.truncate_def mirror_def)
next
  case (snoc e l)
  from snoc.prems(3) obtain e' k where l': "l' = k @ [e']" "list_all2 same_turn l k" "same_turn e e'"
    by (auto simp: list_all2_append1 list_all2_Cons1)
  from snoc.prems(1) obtain q where 1: "legal_game f l (FromState e) q" "entry_ok e" "s = entry_State e"
    by (auto elim: legal_game_snocE)
  from snoc.prems(2) l' obtain q' where 2: "legal_game f' k (FromState e') q'" "entry_ok e'" "s' = entry_State e'"
    by (auto elim: legal_game_snocE)
  from snoc.IH [OF 1(1) 2(1) l'(2)] have "FromState e' = mirror (FromState e)" .
  with entry_State_mirror [OF l'(3) 1(2) 2(2)] 1 2 show ?case by simp
qed

text \<open>C3: two players of one game agree on who won. Let two sessions, one going first and one
  second, have played with the same rolls and each have received the moves the other sent,
  as their logs show. Then their final boards mirror each other; if both finished without
  error then exactly one of them won.\<close>

theorem players_agree:
  assumes "NewSession dA sA rA pickA = Inr A" "strategy pickA"
    and "NewSession dB sB rB pickB = Inr B" "strategy pickB"
    and "Play shaA A fuelA first wA = Some ((wonA, logA, errA), wA')"
    and "Play shaB B fuelB (\<not> first) wB = Some ((wonB, logB, errB), wB')"
    and "list_all2 same_turn logA logB"
  shows "(\<exists>s pA pB. legal_game (\<not> first) logA s pA \<and> legal_game first logB (mirror s) pB)
    \<and> \<not> (wonA \<and> wonB) \<and> (errA = None \<and> errB = None \<longrightarrow> wonA = (\<not> wonB))"
proof -
  have "wf_session A" "ChooseMove A = pickA" "wf_session B" "ChooseMove B = pickB"
    using assms(1,3) by (auto simp: NewSession_def wf_session_def)
  with strategy.Play_ok [OF assms(2) _ _ assms(5)] strategy.Play_ok [OF assms(4) _ _ assms(6)]
  have ok: "play_ok (\<not> first) (wonA, logA, errA)" "play_ok first (wonB, logB, errB)" by simp_all
  from ok(1) obtain s pA where a: "legal_game (\<not> first) logA s pA" "\<not> (State_Win s \<and> State_Lose s)"
    and ra: "errA = None \<Longrightarrow> game_over s \<and> wonA = State_Win s" "errA \<noteq> None \<Longrightarrow> \<not> wonA"
    by (rule play_okD) blast
  from ok(2) obtain t pB where b: "legal_game first logB t pB"
    and rb: "errB = None \<Longrightarrow> game_over t \<and> wonB = State_Win t" "errB \<noteq> None \<Longrightarrow> \<not> wonB"
    by (rule play_okD) blast
  have t: "t = mirror s" by (rule legal_games_mirror [OF a(1) b assms(7)])
  then have "State_Win t = State_Lose s" by simp
  with a(2) ra rb have "\<not> (wonA \<and> wonB) \<and> (errA = None \<and> errB = None \<longrightarrow> wonA = (\<not> wonB))"
    by (auto simp: game_over_def)
  with a(1) b t show ?thesis by blast
qed

theorem players_agree_witness:
  "list_all2 same_turn (GameLog W5) (GameLog L5)
   \<and> (\<exists>s pA pB. legal_game False (GameLog W5) s pA \<and> legal_game True (GameLog L5) (mirror s) pB)"
proof -
  have "list_all2 same_turn (GameLog W5) (GameLog L5)" by code_simp
  moreover from players_agree [OF NewSession_script quick.strategy_axioms NewSession_script
      closest.strategy_axioms winner_plays [unfolded winner_def] _ this]
    loser_plays [unfolded loser_def]
  have "\<exists>s pA pB. legal_game False (GameLog W5) s pA \<and> legal_game True (GameLog L5) (mirror s) pB"
    by simp
  ultimately show ?thesis by blast
qed

text \<open>The initiative is decided alike on both sides. When both players have the same roll
  and one wants it high and the other low, exactly one of them goes first; five of the ten
  faces favour each.\<close>

theorem initiative_exactly_one_first:
  assumes "Session_RollSync shaA A 1 wA = (Inr rs, wA')" "Session_RollSync shaB B 1 wB = (Inr rs, wB')"
    and "wf_session A"
  shows "\<exists>first. RollInitiative shaA A True wA = (Inr first, wA')
    \<and> RollInitiative shaB B False wB = (Inr (\<not> first), wB')
    \<and> first = (rs ! 0 \<in> {6, 7, 8, 9, 10}) \<and> (\<not> first) = (rs ! 0 \<in> {1, 2, 3, 4, 5})"
proof -
  from Session_RollSync_faces [OF assms(1,3)] obtain r where rs: "rs = [r]" and face: "unat r \<in> {1..10}"
    by (auto simp: length_Suc_conv)
  from face have "unat r \<in> {1, 2, 3, 4, 5, 6, 7, 8, 9, 10}" by simp presburger
  then have "of_nat (unat r) \<in> (of_nat :: nat \<Rightarrow> 16 word) ` {1, 2, 3, 4, 5, 6, 7, 8, 9, 10}"
    by (rule imageI)
  then have r: "r \<in> {1, 2, 3, 4, 5, 6, 7, 8, 9, 10}" by simp
  have w: "(5 < r) = (r \<in> {6, 7, 8, 9, 10})" "(\<not> 5 < r) = (r \<in> {1, 2, 3, 4, 5})"
    using r by (elim insertE; simp)+
  have run: "RollInitiative shaA A True wA = (Inr (5 < r), wA')"
    "RollInitiative shaB B False wB = (Inr (\<not> 5 < r), wB')" "rs ! 0 = r"
    using assms(1,2) rs by (simp_all add: RollInitiative_def not_less)
  show ?thesis
    unfolding run by (intro exI [of _ "5 < r"] conjI refl w)
qed

theorem initiative_exactly_one_first_witness:
  "RollInitiative example_hash loser True quick_script
     = (Inr True, quick_script\<lparr>s_secrets := tl quick_secrets\<rparr>)
   \<and> RollInitiative example_hash winner False quick_script
     = (Inr False, quick_script\<lparr>s_secrets := tl quick_secrets\<rparr>)"
proof -
  have "Session_RollSync example_hash loser 1 quick_script = (Inr [10], quick_script\<lparr>s_secrets := tl quick_secrets\<rparr>)"
    "Session_RollSync example_hash winner 1 quick_script = (Inr [10], quick_script\<lparr>s_secrets := tl quick_secrets\<rparr>)"
    by code_simp+
  from initiative_exactly_one_first [OF this] show ?thesis by (auto simp: loser_def)
qed


section \<open>The default strategy\<close>

definition strategy_board :: game_state where
  "strategy_board = initial_state\<lparr>Pawn1Pos := 10, Pawn2Pos := 20\<rparr>"

text \<open>The default strategy does not pick the move closest to the goal, as it says it does.
  With pawns on 10 and 20 and the roll 1 2, it is offered a move that takes a pawn to 60 and
  chooses one that leaves its pawns on 20 and 21: a later move replaces the best one when its
  second pawn is ahead of the best one's second pawn, however far back its first pawn is.\<close>

theorem closest_strategy_misses_closest:
  "\<exists>chosen better. ClosestMove_ChooseMove strategy_board (own_moves 1 2 strategy_board) = Inr chosen
     \<and> pm_Result (Pawn1 chosen) = 20 \<and> pm_Result (Pawn2 chosen) = 21
     \<and> better \<in> set (own_moves 1 2 strategy_board) \<and> pm_Result (Pawn2 better) = 60"
proof -
  have "case ClosestMove_ChooseMove strategy_board (own_moves 1 2 strategy_board) of
      Inl e \<Rightarrow> False | Inr m \<Rightarrow> pm_Result (Pawn1 m) = 20 \<and> pm_Result (Pawn2 m) = 21"
    by code_simp
  moreover have "list_ex (\<lambda>m. pm_Result (Pawn2 m) = 60) (own_moves 1 2 strategy_board)" by code_simp
  ultimately show ?thesis by (auto simp: list_ex_iff split: sum.splits)
qed

end
