(* ===== verification/Srv_Games.thy ===== *)
theory Srv_Games
  imports Srv_FactorFight FF_Play
begin

text \<open>
  What a served game amounts to: the service of \<open>server/factorfight/service.go\<close> over the session
  of \<open>factorfight/game.go\<close>, for any peer at the other end of the stream, and one complete game over
  a signed stream as an instance.
\<close>

section \<open>Served games are legal\<close>

text \<open>A session over a stream: with or without an error, its log is that of a legal game.\<close>

lemma PlayWithInitiative_legal:
  assumes "strategy pick" "ff_session N pick = Inr S"
    and "PlayWithInitiative sha S fuel high w = Some ((won, log, err), w1)"
  shows "case err of
      None \<Rightarrow> \<exists>peer_first s p. legal_game peer_first log s p \<and> (won \<longleftrightarrow> State_Win s) \<and> (\<not> won \<longleftrightarrow> State_Lose s)
    | Some (GameError l e) \<Rightarrow> \<exists>peer_first s p. legal_game peer_first l s p
    | Some (PlainError e) \<Rightarrow> True"
proof -
  have wf: "wf_session S" "ChooseMove S = pick"
    using assms(2) by (auto simp: ff_session_def NewSession_def wf_session_def)
  obtain res w2 where i: "RollInitiative sha S high w = (res, w2)" by (rule prod.exhaust)
  show ?thesis
  proof (cases res)
    case (Inl e)
    with i assms(3) show ?thesis by (auto simp: PlayWithInitiative_def)
  next
    case (Inr first)
    with i assms(3) have "Play sha S fuel first w2 = Some ((won, log, err), w1)"
      by (simp add: PlayWithInitiative_def)
    from strategy.Play_ok [OF assms(1) wf this] have "play_ok (\<not> first) (won, log, err)" .
    then obtain s p where g: "legal_game (\<not> first) log s p" and no: "\<not> (State_Win s \<and> State_Lose s)"
      and fin: "err = None \<Longrightarrow> game_over s \<and> won = State_Win s"
      and ge: "err \<noteq> None \<Longrightarrow> \<not> won \<and> (\<exists>e. err = Some (GameError log e))" by (rule play_okD) blast
    show ?thesis
    proof (cases err)
      case None
      with fin no have "won \<longleftrightarrow> State_Win s" "\<not> won \<longleftrightarrow> State_Lose s" by (auto simp: game_over_def)
      with g None show ?thesis by auto
    next
      case (Some x)
      with ge obtain e where "x = GameError log e" by blast
      with g Some show ?thesis by auto
    qed
  qed
qed

lemma ff_session_exists: "\<exists>S. ff_session N pick = Inr S"
  using NewSession_Inr unfolding ff_session_def by blast

lemma Service_Play_runs:
  assumes "Service_Play N cfg km serverAddr fuel w = Some (r, w')"
  obtains e where "r = Some (PlainError e)"
  | S w0 won log err p w1 where "ff_session N (resolveStrategy (cfg_Strategy cfg)) = Inr S"
      "PlayWithInitiative (ve_sha (ff_verify N)) S fuel True w0 = Some ((won, log, err), (p, w1))"
      "r = err" "w' = (if err = None then complete cfg won log w1 else w1)"
  using assms ff_session_exists [of N "resolveStrategy (cfg_Strategy cfg)"]
  by (auto simp: Service_Play_def split: sum.splits option.splits prod.splits)

lemma Service_Challenge_runs:
  assumes "Service_Challenge N open_stream close_send cfg km serverAddr fuel target w = Some ((resp, r), w')"
  obtains e where "resp = None" "r = Some (PlainError e)"
  | S w0 won log err p w1 where "ff_session N (resolveStrategy (cfg_Strategy cfg)) = Inr S"
      "PlayWithInitiative (ve_sha (ff_verify N)) S fuel False w0 = Some ((won, log, err), (p, w1))"
      "if err = None then resp = Some \<lparr>resp_Win = Some won, resp_Message = ''''\<rparr> \<and> w' = snd (close_send (complete cfg won log w1))
       else resp = None \<and> r = err \<and> w' = w1"
  using assms ff_session_exists [of N "resolveStrategy (cfg_Strategy cfg)"]
  by (auto simp: Service_Challenge_def Let_def split: sum.splits option.splits prod.splits)

text \<open>The callback has no part in the game.\<close>

lemma Service_Play_callback:
  assumes "resolveStrategy (cfg_Strategy cfg') = resolveStrategy (cfg_Strategy cfg)"
    and "Service_Play N cfg km serverAddr fuel w = Some (None, w')"
  shows "\<exists>won log w1. w' = complete cfg won log w1
    \<and> Service_Play N cfg' km serverAddr fuel w = Some (None, complete cfg' won log w1)"
  using assms by (auto simp: Service_Play_def split: sum.splits option.splits prod.splits) blast

text \<open>C11: the result that a server reports is that of a legal game. Let the server's own strategy
  pick one of the offered moves. Whatever the peer sends, when
  \<open>Service.Play\<close> ends without an error it has called \<open>OnGameComplete\<close> once, with the complete log
  of a legal game and with the right winner; when it ends with a game error, the log in it is
  that of a legal, unfinished or finished, game.\<close>

theorem served_games_are_legal:
  assumes "strategy (resolveStrategy (cfg_Strategy cfg))" "OnGameComplete cfg = Some f"
    and "Service_Play N cfg km serverAddr fuel w = Some (r, w')"
  shows "case r of
      None \<Rightarrow> \<exists>won log w1 peer_first s p. w' = f won log w1 \<and> legal_game peer_first log s p
        \<and> (won \<longleftrightarrow> State_Win s) \<and> (\<not> won \<longleftrightarrow> State_Lose s)
    | Some (GameError log e) \<Rightarrow> \<exists>peer_first s p. legal_game peer_first log s p
    | Some (PlainError e) \<Rightarrow> True"
  using assms(3)
proof (cases rule: Service_Play_runs)
  case (2 S w0 won log err p w1)
  show ?thesis
  proof (cases err)
    case None
    with PlayWithInitiative_legal [OF assms(1) 2(1,2)] obtain peer_first s q where
      "legal_game peer_first log s q" "won \<longleftrightarrow> State_Win s" "\<not> won \<longleftrightarrow> State_Lose s" by auto
    moreover have "w' = f won log w1" "r = None" using None 2(3,4) assms(2) by (simp_all add: complete_def)
    ultimately show ?thesis by (simp only: option.case) blast
  next
    case (Some x)
    with PlayWithInitiative_legal [OF assms(1) 2(1,2)] 2(3) show ?thesis by simp
  qed
qed simp

text \<open>
  An instance: \<open>bob:1\<close> answers our dice messages with the same messages, under his own signature,
  so that our secrets decide the rolls, and signs the moves of a list. The world keeps his end
  of the stream, and what \<open>OnGameComplete\<close> was called with.
\<close>

record bob_world =
  bob :: ff_peer
  bob_echo :: "ff_message list"
  bob_moves :: "move list"
  own_secrets :: "bytes list"
  reported :: "(bool \<times> log_entry list) option"

definition pb_encode :: "ff_message option \<Rightarrow> bytes res" where
  "pb_encode m = Inr (case m of Some (FF_DiceMsg d) \<Rightarrow> ucast (pb_MsgType d) # pb_Data d | _ \<Rightarrow> [])"

definition bob_env :: "bob_world verify_env" where
  "bob_env =
     \<lparr>ve_now = (\<lambda>w. (7, w)), ve_dial = (\<lambda>tls a w. (None, w)),
      ve_GetIdentity = (\<lambda>a w. (Inr (example_identity 5 a a), w)), ve_store = None, ve_ed = example_ed,
      ve_sha = example_hash\<rparr>"

definition bob_sends :: "bob_world \<Rightarrow> ff_message \<Rightarrow> signed_ff res \<times> bob_world" where
  "bob_sends w m =
     (case sign_next \<lparr>ff_verify = bob_env, ff_Marshal = pb_encode, stream_Recv = (\<lambda>w. (Inl (Errorf ''''), w)),
                      stream_Send = (\<lambda>w m. (None, w)), ff_rand = (\<lambda>w. ([], w))\<rparr> (bob w) m of
        (r, p) \<Rightarrow> (r, w\<lparr>bob := p\<rparr>))"

definition bob_net :: "bob_world ff_net" where
  "bob_net =
     \<lparr>ff_verify = bob_env, ff_Marshal = pb_encode,
      stream_Recv = (\<lambda>w. case bob_echo w of
          m # ms \<Rightarrow> bob_sends (w\<lparr>bob_echo := ms\<rparr>) m
        | [] \<Rightarrow> (case bob_moves w of
              [] \<Rightarrow> (Inl (Errorf ''EOF''), w)
            | m # ms \<Rightarrow> bob_sends (w\<lparr>bob_moves := ms\<rparr>)
                (FF_Move (projr (convertInternalFactorfightMoveToProto m))))),
      stream_Send = (\<lambda>w sm. case ff_Message sm of
          Some (FF_DiceMsg d) \<Rightarrow> (None, w\<lparr>bob_echo := bob_echo w @ [FF_DiceMsg d]\<rparr>)
        | _ \<Rightarrow> (None, w)),
      ff_rand = (\<lambda>w. case own_secrets w of [] \<Rightarrow> (replicate 32 0, w) | s # ss \<Rightarrow> (s, w\<lparr>own_secrets := ss\<rparr>))\<rparr>"

definition bob_config :: "bob_world ff_config" where
  "bob_config = \<lparr>cfg_Strategy = None, OnGameComplete = Some (\<lambda>won log w. w\<lparr>reported := Some (won, log)\<rparr>)\<rparr>"

definition bob_start :: bob_world where
  "bob_start =
     \<lparr>bob = createFactorfightPeer still_signer None, bob_echo = [], bob_moves = quick_moves,
      own_secrets = secret_for 1 1 # quick_secrets, reported = None\<rparr>"

definition bob_summary :: "(game_error option \<times> (bool \<times> nat) option) option" where
  "bob_summary =
     map_option (\<lambda>(r, w). (r, map_option (\<lambda>(won, log). (won, length log)) (reported w)))
       (Service_Play bob_net bob_config example_km ''home:1'' 2 bob_start)"

lemma bob_summary: "bob_summary = Some (None, Some (False, 5))"
  by code_simp

theorem served_games_are_legal_witness:
  "\<exists>peer_first log s p. legal_game peer_first log s p \<and> length log = 5 \<and> State_Lose s
     \<and> reported (snd (the (Service_Play bob_net bob_config example_km ''home:1'' 2 bob_start))) = Some (False, log)"
proof -
  obtain w' log where play: "Service_Play bob_net bob_config example_km ''home:1'' 2 bob_start = Some (None, w')"
    and rep: "reported w' = Some (False, log)" "length log = 5"
    using bob_summary by (auto simp: bob_summary_def)
  have pick: "strategy (resolveStrategy (cfg_Strategy bob_config))"
    using closest.strategy_axioms by (simp add: bob_config_def resolveStrategy_def)
  have f: "OnGameComplete bob_config = Some (\<lambda>won log w. w\<lparr>reported := Some (won, log)\<rparr>)"
    by (simp add: bob_config_def)
  from served_games_are_legal [OF pick f play] obtain won log' w1 peer_first s p where
    "w' = w1\<lparr>reported := Some (won, log')\<rparr>" "legal_game peer_first log' s p" "\<not> won \<longleftrightarrow> State_Lose s"
    by (simp only: option.case) blast
  with rep play show ?thesis by auto
qed

end
