(* ===== verification/Srv_Locks.thy ===== *)
theory Srv_Locks
  imports Srv_Cache
begin

text \<open>
  The identity cache under concurrent use (\<open>IdentityCacheManager\<close> in \<open>server/verifier.go\<close>, whose
  comment calls it thread-safe): all its calls, by any number of goroutines, interleaved at each
  operation on the read-write lock and each access to the map. No call ever blocks for ever, and
  only what was written is served; but \<open>Get\<close> gives its read lock up before it removes an
  expired entry, and so removes an entry that another goroutine has just written.
\<close>

section \<open>The read-write lock\<close>

text \<open>\<open>sync.RWMutex\<close>: from the call of \<open>Lock\<close> on, a waiting writer keeps new readers out.\<close>

record rw_mutex =
  rw_readers :: nat
  rw_writer :: bool
  rw_waiting :: nat

definition RLock :: "rw_mutex \<Rightarrow> rw_mutex option" where
  "RLock m = (if rw_writer m \<or> rw_waiting m > 0 then None else Some (m\<lparr>rw_readers := rw_readers m + 1\<rparr>))"

definition RUnlock :: "rw_mutex \<Rightarrow> rw_mutex" where
  "RUnlock m = m\<lparr>rw_readers := rw_readers m - 1\<rparr>"

definition Lock_call :: "rw_mutex \<Rightarrow> rw_mutex" where
  "Lock_call m = m\<lparr>rw_waiting := rw_waiting m + 1\<rparr>"

definition Lock :: "rw_mutex \<Rightarrow> rw_mutex option" where
  "Lock m = (if rw_writer m \<or> rw_readers m > 0 then None
     else Some (m\<lparr>rw_writer := True, rw_waiting := rw_waiting m - 1\<rparr>))"

definition Unlock :: "rw_mutex \<Rightarrow> rw_mutex" where
  "Unlock m = m\<lparr>rw_writer := False\<rparr>"

lemmas rw_defs = RLock_def RUnlock_def Lock_call_def Lock_def Unlock_def

section \<open>A goroutine's call\<close>

datatype cache_write = W_Set string identity | W_SetPublicKey string bytes | W_Clear | W_Cleanup

fun apply_write :: "cache_write \<Rightarrow> int \<Rightarrow> identity_cache \<Rightarrow> identity_cache" where
  "apply_write (W_Set a i) now c = Cache_Set c a i now"
| "apply_write (W_SetPublicKey a k) now c = SetPublicKey c a k now"
| "apply_write W_Clear now c = Cache_Clear c"
| "apply_write W_Cleanup now c = Cache_Cleanup c now"

text \<open>
  Where a goroutine is: in \<open>Get\<close>, called by itself or by \<open>GetWithAddressCheck\<close> (the flag), in what
  the latter does with an entry that names another address, in \<open>Size\<close>, or in a call that writes
  under the lock.
\<close>

datatype cache_pc =
    P_Get string
  | P_Get_Checked string
  | P_Read bool string
  | P_Expired bool string
  | P_Wait_Delete bool string
  | P_Delete bool string
  | P_Unlock_Get bool string
  | P_Deleted bool string
  | P_Return bool string "cache_entry option"
  | P_Mismatch string
  | P_Wait_Reject string
  | P_Reject string
  | P_Unlock_Reject string
  | P_Got string "cache_entry option"
  | P_Size
  | P_Count
  | P_Return_Size nat
  | P_Sized nat
  | P_Put cache_write
  | P_Wait cache_write
  | P_Write cache_write
  | P_Unlock
  | P_Done

definition names_other :: "string \<Rightarrow> cache_entry option \<Rightarrow> bool" where
  "names_other a r =
     (case r of
        None \<Rightarrow> False
      | Some e \<Rightarrow> (case ic_Identity e of None \<Rightarrow> False | Some i \<Rightarrow> ServerAddress i \<noteq> a))"

fun cache_next :: "int \<Rightarrow> cache_pc \<Rightarrow> rw_mutex \<Rightarrow> identity_cache \<Rightarrow> (cache_pc \<times> rw_mutex \<times> identity_cache) option" where
  "cache_next now (P_Get a) m c = map_option (\<lambda>m1. (P_Read False a, m1, c)) (RLock m)"
| "cache_next now (P_Get_Checked a) m c = map_option (\<lambda>m1. (P_Read True a, m1, c)) (RLock m)"
| "cache_next now (P_Read k a) m c =
     (case ic_cache c a of
        None \<Rightarrow> Some (P_Return k a None, m, c)
      | Some e \<Rightarrow> if expired now e then Some (P_Expired k a, RUnlock m, c) else Some (P_Return k a (Some e), m, c))"
| "cache_next now (P_Expired k a) m c = Some (P_Wait_Delete k a, Lock_call m, c)"
| "cache_next now (P_Wait_Delete k a) m c = map_option (\<lambda>m1. (P_Delete k a, m1, c)) (Lock m)"
| "cache_next now (P_Delete k a) m c = Some (P_Unlock_Get k a, m, c\<lparr>ic_cache := (ic_cache c)(a := None)\<rparr>)"
| "cache_next now (P_Unlock_Get k a) m c = Some (P_Deleted k a, Unlock m, c)"
| "cache_next now (P_Deleted k a) m c = map_option (\<lambda>m1. (P_Return k a None, m1, c)) (RLock m)"
| "cache_next now (P_Return k a r) m c = Some (if k \<and> names_other a r then P_Mismatch a else P_Got a r, RUnlock m, c)"
| "cache_next now (P_Mismatch a) m c = Some (P_Wait_Reject a, Lock_call m, c)"
| "cache_next now (P_Wait_Reject a) m c = map_option (\<lambda>m1. (P_Reject a, m1, c)) (Lock m)"
| "cache_next now (P_Reject a) m c = Some (P_Unlock_Reject a, m, c\<lparr>ic_cache := (ic_cache c)(a := None)\<rparr>)"
| "cache_next now (P_Unlock_Reject a) m c = Some (P_Got a None, Unlock m, c)"
| "cache_next now P_Size m c = map_option (\<lambda>m1. (P_Count, m1, c)) (RLock m)"
| "cache_next now P_Count m c = Some (P_Return_Size (Cache_Size c), m, c)"
| "cache_next now (P_Return_Size n) m c = Some (P_Sized n, RUnlock m, c)"
| "cache_next now (P_Put w) m c = Some (P_Wait w, Lock_call m, c)"
| "cache_next now (P_Wait w) m c = map_option (\<lambda>m1. (P_Write w, m1, c)) (Lock m)"
| "cache_next now (P_Write w) m c = Some (P_Unlock, m, apply_write w now c)"
| "cache_next now P_Unlock m c = Some (P_Done, Unlock m, c)"
| "cache_next now (P_Got a r) m c = None"
| "cache_next now (P_Sized n) m c = None"
| "cache_next now P_Done m c = None"

fun cache_task :: "cache_pc \<Rightarrow> bool" where
  "cache_task (P_Get a) = True"
| "cache_task (P_Get_Checked a) = True"
| "cache_task P_Size = True"
| "cache_task (P_Put w) = True"
| "cache_task _ = False"

fun call_over :: "cache_pc \<Rightarrow> bool" where
  "call_over (P_Got a r) = True"
| "call_over (P_Sized n) = True"
| "call_over P_Done = True"
| "call_over _ = False"

section \<open>Runs\<close>

record cache_sys =
  cs_calls :: "cache_pc list"
  cs_mutex :: rw_mutex
  cs_cache :: identity_cache

definition free_mutex :: rw_mutex where
  "free_mutex = \<lparr>rw_readers = 0, rw_writer = False, rw_waiting = 0\<rparr>"

definition new_sys :: "cache_pc list \<Rightarrow> identity_cache \<Rightarrow> cache_sys" where
  "new_sys ps c = \<lparr>cs_calls = ps, cs_mutex = free_mutex, cs_cache = c\<rparr>"

definition run_call :: "int \<Rightarrow> nat \<Rightarrow> cache_sys \<Rightarrow> cache_sys option" where
  "run_call now i s =
     (if i < length (cs_calls s) then
        map_option (\<lambda>(p, m, c). \<lparr>cs_calls = (cs_calls s)[i := p], cs_mutex = m, cs_cache = c\<rparr>)
          (cache_next now (cs_calls s ! i) (cs_mutex s) (cs_cache s))
      else None)"

text \<open>A run: which goroutine takes each step, and what the clock shows then.\<close>

fun run_calls :: "(int \<times> nat) list \<Rightarrow> cache_sys \<Rightarrow> cache_sys option" where
  "run_calls [] s = Some s"
| "run_calls ((now, i) # r) s = (case run_call now i s of None \<Rightarrow> None | Some s1 \<Rightarrow> run_calls r s1)"

text \<open>Alone, \<open>Get\<close> is the function that stands for it elsewhere.\<close>

lemma get_alone:
  "\<exists>r s. run_calls (map (\<lambda>_. (now, 0)) [0..<r]) (new_sys [P_Get a] c) = Some s
    \<and> cs_calls s = [P_Got a (fst (Cache_Get c a now))] \<and> cs_cache s = snd (Cache_Get c a now) \<and> cs_mutex s = free_mutex"
proof (cases "\<exists>e. ic_cache c a = Some e \<and> expired now e")
  case True
  then show ?thesis
    by (intro exI [of _ "8::nat"])
      (auto simp: upt_rec [of 0] upt_rec [of "Suc _"] numeral_eq_Suc run_call_def new_sys_def Cache_Get_def rw_defs free_mutex_def)
next
  case False
  then show ?thesis
    by (intro exI [of _ "3::nat"])
      (auto simp: numeral_eq_Suc run_call_def new_sys_def Cache_Get_def rw_defs free_mutex_def split: option.split)
qed

text \<open>So are \<open>GetWithAddressCheck\<close> and \<open>Size\<close>.\<close>

lemma get_checked_alone:
  "\<exists>r s. run_calls (map (\<lambda>_. (now, 0)) [0..<r]) (new_sys [P_Get_Checked a] c) = Some s
    \<and> cs_calls s = [P_Got a (fst (GetWithAddressCheck c a now))]
    \<and> cs_cache s = snd (GetWithAddressCheck c a now) \<and> cs_mutex s = free_mutex"
proof -
  consider e where "ic_cache c a = Some e" "expired now e"
    | e where "ic_cache c a = Some e" "\<not> expired now e" "names_other a (Some e)"
    | "ic_cache c a = None"
    | e where "ic_cache c a = Some e" "\<not> expired now e" "\<not> names_other a (Some e)"
    by (cases "ic_cache c a") auto
  then show ?thesis
  proof cases
    case 1
    then show ?thesis
      by (intro exI [of _ "8::nat"])
        (auto simp: upt_rec [of 0] upt_rec [of "Suc _"] numeral_eq_Suc run_call_def new_sys_def GetWithAddressCheck_def
          Cache_Get_def names_other_def rw_defs free_mutex_def)
  next
    case 2
    then show ?thesis
      by (intro exI [of _ "7::nat"])
        (auto simp: upt_rec [of 0] upt_rec [of "Suc _"] numeral_eq_Suc run_call_def new_sys_def GetWithAddressCheck_def
          Cache_Get_def names_other_def rw_defs free_mutex_def split: option.splits)
  next
    case 3
    then show ?thesis
      by (intro exI [of _ "3::nat"])
        (auto simp: numeral_eq_Suc run_call_def new_sys_def GetWithAddressCheck_def Cache_Get_def names_other_def
          rw_defs free_mutex_def)
  next
    case 4
    then show ?thesis
      by (intro exI [of _ "3::nat"])
        (auto simp: numeral_eq_Suc run_call_def new_sys_def GetWithAddressCheck_def Cache_Get_def names_other_def
          rw_defs free_mutex_def split: option.splits)
  qed
qed

lemma size_alone:
  "\<exists>s. run_calls [(now, 0), (now', 0), (now'', 0)] (new_sys [P_Size] c) = Some s
    \<and> cs_calls s = [P_Sized (Cache_Size c)] \<and> cs_cache s = c \<and> cs_mutex s = free_mutex"
  by (simp add: run_call_def new_sys_def rw_defs free_mutex_def)

section \<open>What the lock guarantees\<close>

fun holds_read :: "cache_pc \<Rightarrow> bool" where
  "holds_read (P_Read k a) = True"
| "holds_read (P_Return k a r) = True"
| "holds_read P_Count = True"
| "holds_read (P_Return_Size n) = True"
| "holds_read _ = False"

fun holds_write :: "cache_pc \<Rightarrow> bool" where
  "holds_write (P_Delete k a) = True"
| "holds_write (P_Unlock_Get k a) = True"
| "holds_write (P_Reject a) = True"
| "holds_write (P_Unlock_Reject a) = True"
| "holds_write (P_Write w) = True"
| "holds_write P_Unlock = True"
| "holds_write _ = False"

fun waits_write :: "cache_pc \<Rightarrow> bool" where
  "waits_write (P_Wait_Delete k a) = True"
| "waits_write (P_Wait_Reject a) = True"
| "waits_write (P_Wait w) = True"
| "waits_write _ = False"

abbreviation how_many :: "(cache_pc \<Rightarrow> bool) \<Rightarrow> cache_pc list \<Rightarrow> nat" where
  "how_many P ps \<equiv> length (filter P ps)"

lemma how_many_update:
  "i < length ps \<Longrightarrow> how_many P (ps[i := p]) + (if P (ps ! i) then 1 else 0) = how_many P ps + (if P p then 1 else 0)"
proof (induction ps arbitrary: i)
  case (Cons q ps)
  then show ?case by (cases i) auto
qed simp

lemma how_many_pos: "i < length ps \<Longrightarrow> P (ps ! i) \<Longrightarrow> 0 < how_many P ps"
  by (auto simp: filter_empty_conv)

definition lock_inv :: "cache_sys \<Rightarrow> bool" where
  "lock_inv s \<longleftrightarrow>
     rw_readers (cs_mutex s) = how_many holds_read (cs_calls s)
   \<and> rw_waiting (cs_mutex s) = how_many waits_write (cs_calls s)
   \<and> how_many holds_write (cs_calls s) = (if rw_writer (cs_mutex s) then 1 else 0)
   \<and> (rw_writer (cs_mutex s) \<longrightarrow> rw_readers (cs_mutex s) = 0)"

lemma run_call_lock_inv:
  assumes inv: "lock_inv s" and run: "run_call now i s = Some s'"
  shows "lock_inv s'"
proof -
  obtain p m c where i: "i < length (cs_calls s)" and n: "cache_next now (cs_calls s ! i) (cs_mutex s) (cs_cache s) = Some (p, m, c)"
    and s': "s' = \<lparr>cs_calls = (cs_calls s)[i := p], cs_mutex = m, cs_cache = c\<rparr>"
    using run by (auto simp: run_call_def split: if_splits)
  define q R R' X X' W W' where "q = cs_calls s ! i"
    and "R = how_many holds_read (cs_calls s)" and "R' = how_many holds_read (cs_calls s')"
    and "X = how_many holds_write (cs_calls s)" and "X' = how_many holds_write (cs_calls s')"
    and "W = how_many waits_write (cs_calls s)" and "W' = how_many waits_write (cs_calls s')"
  note names = q_def [symmetric] R_def [symmetric] R'_def [symmetric] X_def [symmetric] X'_def [symmetric] W_def [symmetric] W'_def [symmetric]
  have calls: "cs_calls s' = (cs_calls s)[i := p]" "cs_mutex s' = m" by (simp_all add: s')
  have upd: "R' + (if holds_read q then 1 else 0) = R + (if holds_read p then 1 else 0)"
    "X' + (if holds_write q then 1 else 0) = X + (if holds_write p then 1 else 0)"
    "W' + (if waits_write q then 1 else 0) = W + (if waits_write p then 1 else 0)"
    using how_many_update [OF i, of _ p] unfolding q_def R_def R'_def X_def X'_def W_def W'_def calls by blast+
  have pos: "holds_read q \<Longrightarrow> 0 < R" "holds_write q \<Longrightarrow> 0 < X" "waits_write q \<Longrightarrow> 0 < W"
    unfolding q_def R_def X_def W_def by (erule how_many_pos [OF i])+
  have inv': "rw_readers (cs_mutex s) = R" "rw_waiting (cs_mutex s) = W" "X = (if rw_writer (cs_mutex s) then 1 else 0)"
    "rw_writer (cs_mutex s) \<Longrightarrow> R = 0"
    using inv unfolding lock_inv_def names by simp_all
  have "rw_readers m = R' \<and> rw_waiting m = W' \<and> X' = (if rw_writer m then 1 else 0) \<and> (rw_writer m \<longrightarrow> R' = 0)"
    using n [folded q_def] upd pos inv'
    by (cases q) (auto simp: rw_defs split: if_splits option.splits)
  then show ?thesis unfolding lock_inv_def names calls(2) by simp
qed

lemma new_sys_lock_inv:
  assumes "list_all cache_task ps"
  shows "lock_inv (new_sys ps c)"
proof -
  have "filter holds_read ps = []" "filter holds_write ps = []" "filter waits_write ps = []"
    using assms by (auto simp: filter_empty_conv list_all_iff elim!: cache_task.elims)
  then show ?thesis by (simp add: lock_inv_def new_sys_def free_mutex_def)
qed

lemma run_calls_lock_inv: "run_calls sched s = Some s' \<Longrightarrow> lock_inv s \<Longrightarrow> lock_inv s'"
proof (induction sched arbitrary: s)
  case (Cons x sched)
  obtain now i where x: "x = (now, i)" by fastforce
  from Cons.prems(1) x obtain s1 where s1: "run_call now i s = Some s1" "run_calls sched s1 = Some s'" by (auto split: option.splits)
  show ?case by (rule Cons.IH [OF s1(2) run_call_lock_inv [OF Cons.prems(2) s1(1)]])
qed simp

text \<open>A goroutine that holds the lock never waits, so some goroutine can go on.\<close>

lemma lock_inv_progress:
  assumes inv: "lock_inv s" and busy: "p \<in> set (cs_calls s)" "\<not> call_over p"
  shows "\<exists>i s'. run_call now i s = Some s'"
proof -
  have go: "\<exists>i s'. run_call now i s = Some s'" if "q \<in> set (cs_calls s)" "cache_next now q (cs_mutex s) (cs_cache s) \<noteq> None" for q
    using that by (auto simp: run_call_def in_set_conv_nth)
  show ?thesis
  proof (cases "\<exists>q \<in> set (cs_calls s). holds_read q \<or> holds_write q")
    case True
    then obtain q where "q \<in> set (cs_calls s)" "holds_read q \<or> holds_write q" by blast
    with go [of q] show ?thesis by (cases q) (auto split: option.splits)
  next
    case False
    then have "filter holds_read (cs_calls s) = []" "filter holds_write (cs_calls s) = []" by (auto simp: filter_empty_conv)
    with inv have free: "rw_readers (cs_mutex s) = 0" "\<not> rw_writer (cs_mutex s)" by (auto simp: lock_inv_def split: if_splits)
    show ?thesis
    proof (cases "\<exists>q \<in> set (cs_calls s). waits_write q")
      case True
      then obtain q where "q \<in> set (cs_calls s)" "waits_write q" by blast
      with go [of q] free show ?thesis by (cases q) (auto simp: Lock_def)
    next
      case nowait: False
      then have "filter waits_write (cs_calls s) = []" by (auto simp: filter_empty_conv)
      with inv have "rw_waiting (cs_mutex s) = 0" by (simp add: lock_inv_def)
      with go [OF busy(1)] busy(2) free False nowait busy(1) show ?thesis
        by (cases p) (auto simp: RLock_def split: option.splits)
    qed
  qed
qed

text \<open>Every step of a call brings it nearer to its end.\<close>

fun steps_left :: "cache_pc \<Rightarrow> nat" where
  "steps_left (P_Get a) = 8"
| "steps_left (P_Get_Checked a) = 8"
| "steps_left (P_Read k a) = 7"
| "steps_left (P_Expired k a) = 6"
| "steps_left (P_Wait_Delete k a) = 5"
| "steps_left (P_Delete k a) = 4"
| "steps_left (P_Unlock_Get k a) = 3"
| "steps_left (P_Deleted k a) = 2"
| "steps_left (P_Return k a r) = (if k \<and> names_other a r then 5 else 1)"
| "steps_left (P_Mismatch a) = 4"
| "steps_left (P_Wait_Reject a) = 3"
| "steps_left (P_Reject a) = 2"
| "steps_left (P_Unlock_Reject a) = 1"
| "steps_left P_Size = 3"
| "steps_left P_Count = 2"
| "steps_left (P_Return_Size n) = 1"
| "steps_left (P_Put w) = 4"
| "steps_left (P_Wait w) = 3"
| "steps_left (P_Write w) = 2"
| "steps_left P_Unlock = 1"
| "steps_left _ = 0"

lemma run_call_steps_left:
  assumes "run_call now i s = Some s'"
  shows "sum_list (map steps_left (cs_calls s')) < sum_list (map steps_left (cs_calls s))"
proof -
  obtain p m c where i: "i < length (cs_calls s)" and n: "cache_next now (cs_calls s ! i) (cs_mutex s) (cs_cache s) = Some (p, m, c)"
    and s': "s' = \<lparr>cs_calls = (cs_calls s)[i := p], cs_mutex = m, cs_cache = c\<rparr>"
    using assms by (auto simp: run_call_def split: if_splits)
  from n have "steps_left p < steps_left (cs_calls s ! i)"
    by (cases "cs_calls s ! i") (auto simp: names_other_def [of _ None] split: option.splits if_splits)
  moreover have "sum_list (map steps_left (ps[i := p])) + steps_left (ps ! i) = sum_list (map steps_left ps) + steps_left p"
    if "i < length ps" for ps i using that
  proof (induction ps arbitrary: i)
    case (Cons q ps)
    then show ?case by (cases i) auto
  qed simp
  ultimately show ?thesis using i by (simp add: s') (metis add_less_cancel_left add.commute nat_add_left_cancel_less)
qed

lemma run_calls_length: "run_calls sched s = Some s' \<Longrightarrow> length sched + sum_list (map steps_left (cs_calls s')) \<le> sum_list (map steps_left (cs_calls s))"
proof (induction sched arbitrary: s)
  case (Cons x sched)
  obtain now i where x: "x = (now, i)" by fastforce
  from Cons.prems x obtain s1 where s1: "run_call now i s = Some s1" "run_calls sched s1 = Some s'" by (auto split: option.splits)
  from Cons.IH [OF s1(2)] run_call_steps_left [OF s1(1)] show ?case by simp
qed simp

lemma task_steps: "list_all cache_task ps \<Longrightarrow> sum_list (map steps_left ps) \<le> 8 * length ps"
proof (induction ps)
  case (Cons p ps)
  then show ?case by (cases p) auto
qed simp

section \<open>Concurrent lookups\<close>

text \<open>C29: goroutines that share the identity cache never block each other for ever. Whatever
  calls run concurrently (lookups with and without the address check, sizes, writes, sweeps) and
  however they are interleaved, at most one holds the write lock and none then the read lock; as
  long as a call is running some call can take a step; and no run is longer than eight steps a
  call, so every call ends.\<close>

theorem cache_calls_end:
  assumes "list_all cache_task ps" "run_calls sched (new_sys ps c) = Some s"
  shows "how_many holds_write (cs_calls s) \<le> 1
    \<and> (how_many holds_write (cs_calls s) = 1 \<longrightarrow> how_many holds_read (cs_calls s) = 0)
    \<and> (list_all call_over (cs_calls s) \<or> (\<forall>now. \<exists>i s'. run_call now i s = Some s'))
    \<and> length sched \<le> 8 * length ps"
proof -
  have inv: "lock_inv s" by (rule run_calls_lock_inv [OF assms(2) new_sys_lock_inv [OF assms(1)]])
  have "\<exists>i s'. run_call now i s = Some s'" if "\<not> list_all call_over (cs_calls s)" for now
    using that lock_inv_progress [OF inv] by (auto simp: list_all_iff)
  moreover have "length sched \<le> 8 * length ps"
    using run_calls_length [OF assms(2)] task_steps [OF assms(1)] by (simp add: new_sys_def)
  ultimately show ?thesis using inv by (auto simp: lock_inv_def split: if_splits)
qed

text \<open>What every written entry satisfies, every entry that is served satisfies: an invariant of the
  map, and of what the calls have read.\<close>

fun writes_ok :: "(string \<Rightarrow> identity option \<Rightarrow> bytes \<Rightarrow> bool) \<Rightarrow> cache_pc \<Rightarrow> bool" where
  "writes_ok P (P_Put (W_Set a i)) = P a (Some i) (PublicKey i)"
| "writes_ok P (P_Wait (W_Set a i)) = P a (Some i) (PublicKey i)"
| "writes_ok P (P_Write (W_Set a i)) = P a (Some i) (PublicKey i)"
| "writes_ok P (P_Put (W_SetPublicKey a k)) = P a None k"
| "writes_ok P (P_Wait (W_SetPublicKey a k)) = P a None k"
| "writes_ok P (P_Write (W_SetPublicKey a k)) = P a None k"
| "writes_ok P (P_Return k a (Some e)) = P a (ic_Identity e) (ic_PublicKey e)"
| "writes_ok P (P_Got a (Some e)) = P a (ic_Identity e) (ic_PublicKey e)"
| "writes_ok P _ = True"

definition cache_ok :: "(string \<Rightarrow> identity option \<Rightarrow> bytes \<Rightarrow> bool) \<Rightarrow> identity_cache \<Rightarrow> bool" where
  "cache_ok P c \<longleftrightarrow> (\<forall>a e. ic_cache c a = Some e \<longrightarrow> P a (ic_Identity e) (ic_PublicKey e))"

lemma apply_write_ok: "writes_ok P (P_Write w) \<Longrightarrow> cache_ok P c \<Longrightarrow> cache_ok P (apply_write w now c)"
  by (cases w) (auto simp: cache_ok_def Cache_Set_def SetPublicKey_def Cache_Clear_def Cache_Cleanup_def sweep_def split: option.splits if_splits)

lemma cache_next_ok:
  assumes "cache_next now q m c = Some (p, m', c')" "writes_ok P q" "cache_ok P c"
  shows "writes_ok P p \<and> cache_ok P c'"
proof (cases q)
  case (P_Write w)
  with assms apply_write_ok [of P w c now] show ?thesis by simp
next
  case (P_Wait w)
  with assms show ?thesis by (cases w) auto
next
  case (P_Put w)
  with assms show ?thesis by (cases w) auto
next
  case (P_Return k a r)
  with assms show ?thesis by (cases r) (auto split: if_splits)
next
  case (P_Read k a)
  with assms show ?thesis by (auto simp: cache_ok_def split: option.splits if_splits)
qed (use assms in \<open>auto simp: cache_ok_def split: if_splits\<close>)

lemma run_calls_ok:
  "run_calls sched s = Some s' \<Longrightarrow> list_all (writes_ok P) (cs_calls s) \<Longrightarrow> cache_ok P (cs_cache s)
    \<Longrightarrow> list_all (writes_ok P) (cs_calls s') \<and> cache_ok P (cs_cache s')"
proof (induction sched arbitrary: s)
  case (Cons x sched)
  obtain now i where x: "x = (now, i)" by fastforce
  from Cons.prems(1) x obtain s1 where s1: "run_call now i s = Some s1" "run_calls sched s1 = Some s'" by (auto split: option.splits)
  then obtain p m c where i: "i < length (cs_calls s)" and n: "cache_next now (cs_calls s ! i) (cs_mutex s) (cs_cache s) = Some (p, m, c)"
    and "s1 = \<lparr>cs_calls = (cs_calls s)[i := p], cs_mutex = m, cs_cache = c\<rparr>"
    by (auto simp: run_call_def split: if_splits)
  moreover from i Cons.prems(2) have "writes_ok P (cs_calls s ! i)" by (simp add: list_all_length)
  note cache_next_ok [OF n this Cons.prems(3)]
  ultimately have "list_all (writes_ok P) (cs_calls s1)" "cache_ok P (cs_cache s1)"
    using Cons.prems(2) by (auto simp: list_all_iff dest!: set_update_subset_insert [THEN subsetD])
  with Cons.IH [OF s1(2)] show ?case by blast
qed simp

text \<open>Only what was written under an address is served for it, and only what was alive when it was
  read.\<close>

lemma served_was_written:
  assumes "run_calls sched (new_sys ps c) = Some s" "list_all (writes_ok P) ps" "cache_ok P c" "P_Got a (Some e) \<in> set (cs_calls s)"
  shows "P a (ic_Identity e) (ic_PublicKey e)"
  using run_calls_ok [OF assms(1), of P] assms(2-4) by (auto simp: new_sys_def list_all_iff)

text \<open>C18: a lookup can remove what another goroutine has just written. When the entry of an address
  has expired, a \<open>Get\<close> and a concurrent \<open>Set\<close> for it can run, each to its end and at one moment of
  the clock, so that the new entry is gone, although one after the other, in either order, they
  leave it in the cache: the calls are not atomic.\<close>

theorem lookup_removes_fresh_entry:
  assumes "ic_cache c a = Some old" "expired now old"
  shows "(\<exists>sched s. run_calls sched (new_sys [P_Get a, P_Put (W_Set a i)] c) = Some s
      \<and> list_all (\<lambda>x. fst x = now) sched \<and> list_all call_over (cs_calls s) \<and> ic_cache (cs_cache s) a = None)
    \<and> ic_cache (Cache_Set (snd (Cache_Get c a now)) a i now) a \<noteq> None
    \<and> ic_cache (snd (Cache_Get (Cache_Set c a i now) a now)) a \<noteq> None"
proof (intro conjI)
  let ?sched = "[(now, 0), (now, 0), (now, 1), (now, 1), (now, 1), (now, 1), (now, 0), (now, 0), (now, 0), (now, 0), (now, 0), (now, 0)]"
  show "\<exists>sched s. run_calls sched (new_sys [P_Get a, P_Put (W_Set a i)] c) = Some s
      \<and> list_all (\<lambda>x. fst x = now) sched \<and> list_all call_over (cs_calls s) \<and> ic_cache (cs_cache s) a = None"
    using assms
    by (intro exI [of _ ?sched]) (simp add: run_call_def new_sys_def free_mutex_def rw_defs Cache_Set_def)
qed (use assms in \<open>auto simp: Cache_Set_def Cache_Get_def cache_expires_def expired_def split: option.splits if_splits\<close>)

text \<open>A cache whose only entry ended at 3, at the moment 4.\<close>

definition stale_cache :: identity_cache where
  "stale_cache =
     \<lparr>ic_cache = [''al:1'' \<mapsto> \<lparr>ic_Identity = None, ic_PublicKey = replicate 32 1, ic_ExpiresAt = Some 3\<rparr>], ic_ttl = 5\<rparr>"

theorem lookup_removes_fresh_entry_witness:
  "\<exists>sched s. run_calls sched (new_sys [P_Get ''al:1'', P_Put (W_Set ''al:1'' (example_identity 1 ''al:1'' ''s''))] stale_cache) = Some s
      \<and> list_all call_over (cs_calls s) \<and> ic_cache (cs_cache s) ''al:1'' = None"
proof -
  have "ic_cache stale_cache ''al:1'' = Some \<lparr>ic_Identity = None, ic_PublicKey = replicate 32 1, ic_ExpiresAt = Some 3\<rparr>"
    "expired 4 \<lparr>ic_Identity = None, ic_PublicKey = replicate 32 1, ic_ExpiresAt = Some 3\<rparr>"
    by (simp_all add: stale_cache_def expired_def)
  from lookup_removes_fresh_entry [OF this, of "example_identity 1 ''al:1'' ''s''"] show ?thesis by blast
qed

theorem cache_calls_end_witness:
  "\<exists>s. run_calls [(4, 0), (4, 1)] (new_sys [P_Get_Checked ''al:1'', P_Put W_Cleanup, P_Size] stale_cache) = Some s
     \<and> (\<forall>now. \<exists>i s'. run_call now i s = Some s')"
proof -
  let ?s = "\<lparr>cs_calls = [P_Read True ''al:1'', P_Wait W_Cleanup, P_Size], cs_mutex = \<lparr>rw_readers = 1, rw_writer = False, rw_waiting = 1\<rparr>,
    cs_cache = stale_cache\<rparr>"
  have r: "run_calls [(4, 0), (4, 1)] (new_sys [P_Get_Checked ''al:1'', P_Put W_Cleanup, P_Size] stale_cache) = Some ?s"
    by (simp add: run_call_def new_sys_def free_mutex_def rw_defs)
  have "list_all cache_task [P_Get_Checked ''al:1'', P_Put W_Cleanup, P_Size]" by simp
  from cache_calls_end [OF this r] r show ?thesis by simp
qed

end
