(* ===== verification/Two_Ends.thy ===== *)
theory Two_Ends
  imports Ztg_Prelude
begin

text \<open>
  Two programs at the ends of a stream, each sending and receiving in an order of its own. A
  receive waits until a message is in transit to its end, a send until there is room for another.
  The two orders never block each other when some interleaving of them runs to its end: steps of
  different ends commute, so that then every interleaving does.
\<close>

section \<open>Interleavings\<close>

datatype act = Sends | Receives

text \<open>What each end still does, and how many messages are in transit from the left to the right and
  from the right to the left, where there is room for \<open>cap\<close> each.\<close>

type_synonym ends = "act list \<times> act list \<times> nat \<times> nat"

inductive ends_step :: "nat \<Rightarrow> ends \<Rightarrow> ends \<Rightarrow> bool" for cap where
  left_sends: "m < cap \<Longrightarrow> ends_step cap (Sends # ls, rs, m, n) (ls, rs, Suc m, n)"
| left_receives: "ends_step cap (Receives # ls, rs, m, Suc n) (ls, rs, m, n)"
| right_sends: "n < cap \<Longrightarrow> ends_step cap (ls, Sends # rs, m, n) (ls, rs, m, Suc n)"
| right_receives: "ends_step cap (ls, Receives # rs, Suc m, n) (ls, rs, m, n)"

inductive_cases ends_stepE: "ends_step cap c d"

abbreviation ends_run :: "nat \<Rightarrow> ends \<Rightarrow> ends \<Rightarrow> bool" where
  "ends_run cap \<equiv> (ends_step cap)\<^sup>*\<^sup>*"

abbreviation all_done :: ends where
  "all_done \<equiv> ([], [], 0, 0)"

text \<open>Started with nothing in transit, the two ends can always go on until both are done and
  everything has arrived, however little room there is.\<close>

definition never_block :: "act list \<Rightarrow> act list \<Rightarrow> bool" where
  "never_block ls rs \<longleftrightarrow>
     (\<forall>cap c. 0 < cap \<longrightarrow> ends_run cap (ls, rs, 0, 0) c \<longrightarrow> c = all_done \<or> (\<exists>d. ends_step cap c d))"

text \<open>Two ends that both wait first block.\<close>

lemma waiting_ends_block: "\<not> never_block (Receives # ls) (Receives # rs)"
proof -
  have "\<not> ends_step 1 (Receives # ls, Receives # rs, 0, 0) d" for d by (auto elim: ends_stepE)
  then show ?thesis unfolding never_block_def by (metis list.distinct(1) prod.inject rtranclp.rtrancl_refl zero_less_one)
qed

section \<open>Steps of different ends commute\<close>

lemma ends_step_diamond:
  "ends_step cap c d \<Longrightarrow> ends_step cap c e \<Longrightarrow> d = e \<or> (\<exists>f. ends_step cap d f \<and> ends_step cap e f)"
  by (elim ends_stepE) (auto, (metis ends_step.intros Suc_lessD)+)

lemma step_before_end:
  "ends_run cap c all_done \<Longrightarrow> ends_step cap c d \<Longrightarrow> ends_run cap d all_done"
proof (induction arbitrary: d rule: converse_rtranclp_induct)
  case base
  then show ?case by (auto elim: ends_stepE)
next
  case (step c e)
  from ends_step_diamond [OF step.hyps(1) step.prems] show ?case
    using step.hyps(2) step.IH by (metis converse_rtranclp_into_rtranclp)
qed

lemma run_before_end: "ends_run cap c d \<Longrightarrow> ends_run cap c all_done \<Longrightarrow> ends_run cap d all_done"
  by (induction rule: rtranclp_induct) (auto intro: step_before_end)

section \<open>Ways to the end\<close>

definition finishes :: "ends \<Rightarrow> bool" where
  "finishes c \<longleftrightarrow> (\<forall>cap>0. ends_run cap c all_done)"

lemma finishes_never_block:
  assumes "finishes (ls, rs, 0, 0)"
  shows "never_block ls rs"
  unfolding never_block_def
proof (intro allI impI)
  fix cap c
  assume "0 < cap" "ends_run cap (ls, rs, 0, 0) c"
  then have "ends_run cap c all_done" using run_before_end assms unfolding finishes_def by blast
  then show "c = all_done \<or> (\<exists>d. ends_step cap c d)" by (cases rule: converse_rtranclpE) auto
qed

lemma finishes_done [simp]: "finishes ([], [], 0, 0)"
  by (simp add: finishes_def)

lemma finishes_before: "(\<And>cap. 0 < cap \<Longrightarrow> ends_step cap c d) \<Longrightarrow> finishes d \<Longrightarrow> finishes c"
  unfolding finishes_def by (meson converse_rtranclp_into_rtranclp)

lemmas finishes_by = finishes_before [OF left_sends] finishes_before [OF left_receives]
  finishes_before [OF right_sends] finishes_before [OF right_receives]

text \<open>One sends and the other receives, or both send and then receive.\<close>

lemma finishes_pass:
  assumes "finishes (ls, rs, 0, 0)"
  shows "finishes (Sends # ls, Receives # rs, 0, 0)" "finishes (Receives # ls, Sends # rs, 0, 0)"
  by (rule finishes_by(1), assumption, rule finishes_by(4), rule assms)
    (rule finishes_by(3), assumption, rule finishes_by(2), rule assms)

lemma finishes_exchange:
  assumes "finishes (ls, rs, 0, 0)"
  shows "finishes (Sends # Receives # ls, Sends # Receives # rs, 0, 0)"
proof -
  have "finishes (Receives # ls, Receives # rs, Suc 0, Suc 0)"
    by (rule finishes_by(2), rule finishes_by(4), rule assms)
  then have "finishes (Receives # ls, Sends # Receives # rs, Suc 0, 0)" by (rule finishes_by(3) [rotated])
  then show ?thesis by (rule finishes_by(1) [rotated])
qed

end
