(* ===== verification/Srv_Stream.thy ===== *)
theory Srv_Stream
  imports Srv_FactorFight Two_Ends
begin

text \<open>
  One end of a gRPC stream that delivers in order what the other end sends, for any type of signed
  message; what the library functions below it promise (\<open>sound_link\<close>); and servers with
  sound keys. The FactorFight and the HighRoll peers are put on such streams.
\<close>

section \<open>One end of a stream\<close>

text \<open>The secrets to come, how often the clock was read, what will arrive, what was sent, and the order
  in which messages were sent and received.\<close>

record 's stream_world =
  st_secrets :: "nat \<Rightarrow> bytes"
  st_reads :: nat
  st_in :: "'s list"
  st_out :: "'s list"
  st_acts :: "act list"

record 'm link =
  lk_ed :: ed25519
  lk_sha :: "bytes \<Rightarrow> bytes"
  lk_Marshal :: "'m option \<Rightarrow> bytes res"
  lk_clock :: "nat \<Rightarrow> int"

text \<open>
  The clock is read and the peer answers for its own address only. There is no SQL store: with
  one, verifying the first message of an honest peer also inserts its identity, and fails where
  the insertion does (a server name that is taken), so an honest game can then be refused.
\<close>

definition stream_env :: "'m link \<Rightarrow> identity \<Rightarrow> 's stream_world verify_env" where
  "stream_env K peer =
     \<lparr>ve_now = (\<lambda>w. (lk_clock K (st_reads w), w\<lparr>st_reads := Suc (st_reads w)\<rparr>)),
      ve_dial = (\<lambda>tls a w. (None, w)),
      ve_GetIdentity = (\<lambda>a w. (if a = ServerAddress peer then Inr peer else Inl (Errorf ''unavailable''), w)),
      ve_store = None, ve_ed = lk_ed K, ve_sha = lk_sha K\<rparr>"

lemma stream_env_sel [simp]:
  "ve_store (stream_env K peer) = None" "ve_ed (stream_env K peer) = lk_ed K" "ve_sha (stream_env K peer) = lk_sha K"
  "ve_now (stream_env K peer) w = (lk_clock K (st_reads w), w\<lparr>st_reads := Suc (st_reads w)\<rparr>)"
  by (simp_all add: stream_env_def)

text \<open>What the parameters promise: 32-byte hashes, an encoding for every message, and a clock that stays within the lifetime of a cache entry.\<close>

definition sound_link :: "'m link \<Rightarrow> int \<Rightarrow> int \<Rightarrow> bool" where
  "sound_link K t ttl \<longleftrightarrow>
     hash32 (lk_sha K) \<and> (\<forall>m. \<exists>b. lk_Marshal K m = Inr b)
     \<and> (\<forall>n. t \<le> lk_clock K n \<and> lk_clock K n \<le> t + ttl)"

definition signs_for :: "'m link \<Rightarrow> bytes \<Rightarrow> string \<Rightarrow> id_signer \<Rightarrow> bool" where
  "signs_for K priv addr s \<longleftrightarrow>
     ed_correct (lk_ed K) priv \<and> (\<forall>m. ed_Sign (lk_ed K) priv m \<noteq> []) \<and> identity_NewSigner priv addr = Inr s \<and> addr \<noteq> ''''"

text \<open>Verifying reads the clock and nothing else of the world.\<close>

definition same_stream :: "'s stream_world \<Rightarrow> 's stream_world \<Rightarrow> bool" where
  "same_stream w w' \<longleftrightarrow> st_secrets w' = st_secrets w \<and> st_in w' = st_in w \<and> st_out w' = st_out w \<and> st_acts w' = st_acts w"

lemma same_stream_refl [simp]: "same_stream w w" "same_stream w (w\<lparr>st_reads := n\<rparr>)"
  by (simp_all add: same_stream_def)

lemma same_stream_trans [trans]: "same_stream u v \<Longrightarrow> same_stream v w \<Longrightarrow> same_stream u w"
  by (simp add: same_stream_def)

lemma cached_peer_stream: "cached_peer (stream_env K peer) v a w = (r, v1, w1) \<Longrightarrow> same_stream w w1"
  by (auto simp: cached_peer_def split_def Let_def)

lemma fetch_stream:
  "getPeerIdentityFromStoreOrRemote (stream_env K peer) a w =
     (if a = ServerAddress peer then (Inr peer, w)
      else (Inl (wrapf ''failed to get identity from peer %s: %w'' (Errorf ''unavailable'')), w))"
  by (simp add: getPeerIdentityFromStoreOrRemote_def getPeerIdentity_def NewClient_def stream_env_def)

text \<open>Dice messages of 32 bytes survive the conversion.\<close>

lemma convert_dice [simp]:
  "wf_message m \<Longrightarrow> convertdicepbMessageToInternal (convertInternalDiceMessageToProto m) = m"
  using msg_type_wire [of m]
  by (cases m) (simp add: wf_message_def convertdicepbMessageToInternal_def convertInternalDiceMessageToProto_def)

section \<open>Servers\<close>

text \<open>A server: its key, its address, the identity it reports and its signer.\<close>

definition server_of :: "'m link \<Rightarrow> key_manager \<Rightarrow> string \<Rightarrow> identity \<Rightarrow> id_signer \<Rightarrow> bool" where
  "server_of K km addr i s \<longleftrightarrow>
     signs_for K (km_privateKey km) addr s \<and> ServerAddress i = addr \<and> PublicKey i = drop 32 (km_privateKey km)"

lemma server_pair:
  "server_of K km addr i s \<Longrightarrow> CreateSignerVerifierPair km addr = Inr (s, NewVerifier DefaultVerifierTTL)"
  by (simp add: server_of_def signs_for_def CreateSignerVerifierPair_def)

lemma server_reports_key:
  "server_of K km addr i s \<Longrightarrow> ServerAddress i = addr \<and> PublicKey i = drop 32 (km_privateKey km)"
  by (simp add: server_of_def)

lemma stream_clock: "sound_link K t ttl \<Longrightarrow> clock_from t (stream_env K i)"
  by (simp add: sound_link_def clock_from_def)

text \<open>Servers with example keys.\<close>

definition example_link :: "'m link" where
  "example_link = \<lparr>lk_ed = example_ed, lk_sha = example_hash,
     lk_Marshal = (\<lambda>m. Inr (case m of None \<Rightarrow> [] | Some _ \<Rightarrow> [2])), lk_clock = (\<lambda>n. 7)\<rparr>"

lemma example_link_sound: "sound_link example_link 0 DefaultVerifierTTL"
  by (simp add: sound_link_def example_link_def DefaultVerifierTTL_def)

definition keys_of :: "byte \<Rightarrow> string \<Rightarrow> key_manager" where
  "keys_of b addr = \<lparr>ownerPublicKey = replicate 32 9, km_privateKey = example_priv b, km_publicKey = replicate 32 b,
     serverAddress = addr, serverName = ''s'', ownerName = ''o'', isExample = False\<rparr>"

definition example_signer :: "byte \<Rightarrow> string \<Rightarrow> id_signer" where
  "example_signer b addr = \<lparr>privateKey = example_priv b, publicKey = replicate 32 b, signer_address = addr\<rparr>"

lemma example_server_of:
  "addr \<noteq> '''' \<Longrightarrow> server_of example_link (keys_of b addr) addr (example_identity b addr ''s'') (example_signer b addr)"
  using ed_correct_example [of b]
  by (simp add: server_of_def signs_for_def example_link_def keys_of_def example_identity_def example_signer_def
      identity_NewSigner_def PrivateKey_Public_def example_priv_def)
    (simp add: example_ed_def)

end
