(* ===== verification/Srv_HighRoll.thy ===== *)
theory Srv_HighRoll
  imports Srv_FactorFight
begin

text \<open>
  The HighRoll game (\<open>server/highroll/\<close>): two servers roll once over a stream of dice messages,
  each with a plain signature, and the challenger compares the first two rolls.
\<close>

section \<open>Conversions\<close>

text \<open>Copies of the functions of the FactorFight server.\<close>

definition hr_convertdicepbMessageToInternal :: "pb_dice \<Rightarrow> message" where
  "hr_convertdicepbMessageToInternal m = \<lparr>msg_Type = ucast (pb_MsgType m), msg_Data = fix32 (pb_Data m)\<rparr>"

definition hr_convertInternalDiceMessageToProto :: "message \<Rightarrow> pb_dice" where
  "hr_convertInternalDiceMessageToProto m = \<lparr>pb_MsgType = ucast (msg_Type m), pb_Data = msg_Data m\<rparr>"

lemma hr_conversions_same:
  "hr_convertdicepbMessageToInternal = convertdicepbMessageToInternal"
  "hr_convertInternalDiceMessageToProto = convertInternalDiceMessageToProto"
  by (auto simp: hr_convertdicepbMessageToInternal_def convertdicepbMessageToInternal_def
      hr_convertInternalDiceMessageToProto_def convertInternalDiceMessageToProto_def)

section \<open>The peer\<close>

record signed_dice =
  sd_Message :: "pb_dice option"
  sd_Signature :: "signature option"

text \<open>The fields \<open>lastHash\<close> and \<open>sequence\<close> of the code's peer are never used.\<close>

record hr_peer =
  hr_signer :: id_signer
  hr_verifier :: "verifier option"

definition hr_newPeer :: "id_signer \<Rightarrow> verifier option \<Rightarrow> hr_peer" where
  "hr_newPeer signer verifier = \<lparr>hr_signer = signer, hr_verifier = verifier\<rparr>"

record 'w hr_net =
  hr_verify :: "'w verify_env"
  hr_Marshal :: "pb_dice option \<Rightarrow> bytes res"
  hr_Recv :: "'w \<Rightarrow> signed_dice res \<times> 'w"
  hr_Send :: "'w \<Rightarrow> signed_dice \<Rightarrow> go_error option \<times> 'w"
  hr_rand :: "'w \<Rightarrow> bytes \<times> 'w"

definition hr_peer_Send :: "'w hr_net \<Rightarrow> hr_peer \<Rightarrow> message \<Rightarrow> 'w \<Rightarrow> go_error option \<times> 'w" where
  "hr_peer_Send N p m w =
     (case CreateSignedMessage (ve_sha (hr_verify N)) (ve_ed (hr_verify N)) (\<lambda>m. hr_Marshal N (Some m))
             (hr_signer p) (hr_convertInternalDiceMessageToProto m) of
        Inl e \<Rightarrow> (Some e, w)
      | Inr (pm, sg) \<Rightarrow> hr_Send N w \<lparr>sd_Message = Some pm, sd_Signature = Some sg\<rparr>)"

text \<open>The fields of the message are read after the signature check: a nil message panics.\<close>

definition hr_peer_Recv :: "'w hr_net \<Rightarrow> hr_peer \<Rightarrow> 'w \<Rightarrow> message res \<times> hr_peer \<times> 'w" where
  "hr_peer_Recv N p w =
     (case hr_Recv N w of
        (Inl e, w1) \<Rightarrow> (Inl e, p, w1)
      | (Inr sm, w1) \<Rightarrow>
     (case VerifySignatureProto (hr_verify N) (hr_Marshal N) (hr_verifier p) (sd_Message sm) (sd_Signature sm) w1 of
        (Some e, vo, w2) \<Rightarrow> (Inl (wrapf ''signature verification failed: %w'' e), p\<lparr>hr_verifier := vo\<rparr>, w2)
      | (None, vo, w2) \<Rightarrow>
          (case sd_Message sm of
             None \<Rightarrow> (Inl (Panic ''nil pointer dereference''), p\<lparr>hr_verifier := vo\<rparr>, w2)
           | Some m \<Rightarrow> (Inr (hr_convertdicepbMessageToInternal m), p\<lparr>hr_verifier := vo\<rparr>, w2))))"

definition hr_dice_env :: "'w hr_net \<Rightarrow> (hr_peer \<times> 'w) dice_env" where
  "hr_dice_env N =
     \<lparr>rand_Read = (\<lambda>(p, w). let (b, w1) = hr_rand N w in (b, (p, w1))),
      peer_Send = (\<lambda>(p, w) m. case hr_peer_Send N p m w of (e, w1) \<Rightarrow> (e, (p, w1))),
      peer_Recv = (\<lambda>(p, w). hr_peer_Recv N p w)\<rparr>"

section \<open>The service\<close>

definition DefaultDieSides :: int where "DefaultDieSides = 10"

definition hr_newRoller :: "int \<Rightarrow> roller res" where
  "hr_newRoller n = NewRoller (word_of_int (if n \<le> 0 then DefaultDieSides else n))"

text \<open>One roll over a fresh stream, and the first \<open>n\<close> of its results.\<close>

definition hr_roll :: "'w hr_net \<Rightarrow> key_manager \<Rightarrow> string \<Rightarrow> nat \<Rightarrow> 'w \<Rightarrow> 16 word list res \<times> 'w" where
  "hr_roll N km serverAddr n w =
     (case CreateSignerVerifierPair km serverAddr of
        Inl e \<Rightarrow> (Inl e, w)
      | Inr (signer, verifier) \<Rightarrow>
     (case hr_newRoller DefaultDieSides of
        Inl e \<Rightarrow> (Inl e, w)
      | Inr d \<Rightarrow>
          (case RollSync (ve_sha (hr_verify N)) d (hr_dice_env N) n (hr_newPeer signer (Some verifier), w) of
             (r, (p, w1)) \<Rightarrow> (r, w1))))"

definition HighRoll_Roll :: "'w hr_net \<Rightarrow> key_manager \<Rightarrow> string \<Rightarrow> 'w \<Rightarrow> go_error option \<times> 'w" where
  "HighRoll_Roll N km serverAddr w =
     (case hr_roll N km serverAddr 1 w of (Inl e, w1) \<Rightarrow> (Some e, w1) | (Inr _, w1) \<Rightarrow> (None, w1))"

text \<open>\<open>close_send\<close> is \<open>stream.CloseSend\<close>, whose error is dropped.\<close>

definition HighRoll_Challenge ::
    "'w hr_net \<Rightarrow> ('w \<Rightarrow> go_error option \<times> 'w) \<Rightarrow> ('w \<Rightarrow> go_error option \<times> 'w) \<Rightarrow> key_manager \<Rightarrow> string \<Rightarrow> 'w
     \<Rightarrow> challenge_response res \<times> 'w" where
  "HighRoll_Challenge N open_stream close_send km serverAddr w =
     (case open_stream w of
        (Some e, w1) \<Rightarrow> (Inl e, w1)
      | (None, w1) \<Rightarrow>
     (case hr_roll N km serverAddr 2 w1 of
        (Inl e, w2) \<Rightarrow> (Inl e, w2)
      | (Inr rolls, w2) \<Rightarrow>
     (if length rolls < 2 then (Inl (Panic ''index out of range''), w2)
      else
        let won = (rolls ! 0 > rolls ! 1); msg = (if rolls ! 0 = rolls ! 1 then ''Draw!'' else '''') in
        (Inr \<lparr>resp_Win = Some won, resp_Message = msg\<rparr>, snd (close_send w2)))))"

section \<open>The outcome\<close>

lemma hr_newRoller_default: "hr_newRoller DefaultDieSides = NewRoller 10"
  by (simp add: hr_newRoller_def DefaultDieSides_def)

lemma hr_roll_faces:
  assumes "hr_roll N km addr n w = (Inr rs, w')"
  shows "length rs = n \<and> (\<forall>r \<in> set rs. is_face r)"
proof -
  from assms obtain d s w'' where "NewRoller 10 = Inr d" "RollSync (ve_sha (hr_verify N)) d (hr_dice_env N) n s = (Inr rs, w'')"
    by (auto simp: hr_roll_def hr_newRoller_default split: sum.splits prod.splits)
  from RollSync_InrD [OF this(2,1)] have "length rs = n" "\<forall>r \<in> set rs. 1 \<le> unat r \<and> unat r \<le> 10"
    by simp_all
  moreover have "is_face r" if "1 \<le> unat r" "unat r \<le> 10" for r
  proof -
    have "uint r = int (unat r)" by (rule uint_nat)
    with that show ?thesis unfolding is_face_def by linarith
  qed
  ultimately show ?thesis by blast
qed

text \<open>The challenger's answer is the comparison of two faces. A challenge that returns has
  rolled two faces of the ten-sided die; \<open>Win\<close> says whether the first is greater, and a tie is
  reported as a game that is not won, with the message \<open>Draw!\<close>. It fails exactly when the stream
  cannot be opened or the roll fails, and then with that error.\<close>

theorem high_roll_answer:
  "case fst (HighRoll_Challenge N open_stream close_send km addr w) of
      Inl e \<Rightarrow> fst (open_stream w) = Some e
             \<or> fst (open_stream w) = None \<and> fst (hr_roll N km addr 2 (snd (open_stream w))) = Inl e
    | Inr resp \<Rightarrow>
        \<exists>a b. is_face a \<and> is_face b \<and> fst (hr_roll N km addr 2 (snd (open_stream w))) = Inr [a, b]
          \<and> resp_Win resp = Some (b < a) \<and> (resp_Message resp = ''Draw!'' \<longleftrightarrow> a = b)"
proof -
  obtain e w1 where o: "open_stream w = (e, w1)" by fastforce
  obtain r w2 where r: "hr_roll N km addr 2 w1 = (r, w2)" by fastforce
  have "\<exists>a b. rs = [a, b] \<and> is_face a \<and> is_face b" if "r = Inr rs" for rs
    using hr_roll_faces [of N km addr 2 w1 rs w2] r that
    by (auto simp: length_Suc_conv numeral_2_eq_2)
  then show ?thesis
    using o r by (cases e; cases r) (fastforce simp: HighRoll_Challenge_def Let_def)+
qed

end
