(* ===== verification/FF_Wire.thy ===== *)
theory FF_Wire
  imports FF_Play Two_Ends
begin

text \<open>
  A game between two honest players. The locale \<open>session_sim\<close> relates two sessions that stay in
  step, so that a game over one is a game over the other. \<open>wire_session\<close> is the abstract
  session: dice messages and encoded moves in one ordered wire each way. \<open>duel\<close> plays both sides
  of a game at once from the two strategies and the two supplies of secrets, and records what
  each side puts on its wire; the theorem says that each side, run alone against the recorded
  wire of the other, plays exactly that game, and that the two never block each other.
\<close>

section \<open>Sessions in step\<close>

definition in_step_with :: "('w \<Rightarrow> 'v \<Rightarrow> bool) \<Rightarrow> 'r \<times> 'w \<Rightarrow> 'r \<times> 'v \<Rightarrow> bool" where
  "in_step_with rel x y \<longleftrightarrow> fst x = fst y \<and> rel (snd x) (snd y)"

lemma in_step_with_Pair [simp]: "in_step_with rel (r, w) (r', v) \<longleftrightarrow> r = r' \<and> rel w v"
  by (simp add: in_step_with_def)

locale session_sim =
  fixes sha :: "bytes \<Rightarrow> bytes" and S :: "'w session" and T :: "'v session"
    and rel :: "'w \<Rightarrow> 'v \<Rightarrow> bool"
  assumes same_choice: "ChooseMove S = ChooseMove T"
    and roll_sim: "rel w v \<Longrightarrow> in_step_with rel (Session_RollSync sha S n w) (Session_RollSync sha T n v)"
    and send_move_sim: "rel w v \<Longrightarrow> in_step_with rel (SendMove S w m) (SendMove T v m)"
    and recv_move_sim: "rel w v \<Longrightarrow> in_step_with rel (RecvMove S w) (RecvMove T v)"
begin

lemma TakeTurn_sim:
  assumes "rel w v"
  obtains e st' w' v' where "TakeTurn sha S st n w = (e, st', w')" "TakeTurn sha T st n v = (e, st', v')" "rel w' v'"
proof -
  obtain r w1 v1 where r: "Session_RollSync sha S 2 w = (r, w1)" "Session_RollSync sha T 2 v = (r, v1)" "rel w1 v1"
    using roll_sim [OF assms, of 2] by (metis in_step_with_def prod.collapse)
  have s: "\<exists>e w2 v2. SendMove S w1 m = (e, w2) \<and> SendMove T v1 m = (e, v2) \<and> rel w2 v2" for m
    using send_move_sim [OF r(3), of m] by (metis in_step_with_def prod.collapse)
  have "\<exists>e st' w' v'. TakeTurn sha S st n w = (e, st', w') \<and> TakeTurn sha T st n v = (e, st', v') \<and> rel w' v'"
  proof (cases r)
    case (Inl e)
    with r show ?thesis by (simp add: TakeTurn_def)
  next
    case (Inr rolls)
    let ?moves = "generateMoves (Pawn1Pos st) (Pawn2Pos st) (uint (rolls ! 0)) (uint (rolls ! 1)) (PeerPawn1Pos st) (PeerPawn2Pos st)"
    show ?thesis
    proof (cases "ChooseMove T st ?moves")
      case (Inl e)
      with r Inr show ?thesis by (auto simp: TakeTurn_def Let_def same_choice)
    next
      case m: (Inr m)
      from s [of m] obtain e w2 v2 where "SendMove S w1 m = (e, w2)" "SendMove T v1 m = (e, v2)" "rel w2 v2" by blast
      with r Inr m show ?thesis by (cases e) (auto simp: TakeTurn_def Let_def same_choice)
    qed
  qed
  with that show thesis by blast
qed

lemma OtherTurn_sim:
  assumes "rel w v"
  obtains e st' w' v' where "OtherTurn sha S st n w = (e, st', w')" "OtherTurn sha T st n v = (e, st', v')" "rel w' v'"
proof -
  obtain r w1 v1 where r: "Session_RollSync sha S 2 w = (r, w1)" "Session_RollSync sha T 2 v = (r, v1)" "rel w1 v1"
    using roll_sim [OF assms, of 2] by (metis in_step_with_def prod.collapse)
  obtain x w2 v2 where x: "RecvMove S w1 = (x, w2)" "RecvMove T v1 = (x, v2)" "rel w2 v2"
    using recv_move_sim [OF r(3)] by (metis in_step_with_def prod.collapse)
  have "\<exists>e st' w' v'. OtherTurn sha S st n w = (e, st', w') \<and> OtherTurn sha T st n v = (e, st', v') \<and> rel w' v'"
    using r x by (cases r; cases x) (auto simp: OtherTurn_def split: option.split)
  with that show thesis by blast
qed

lemma play_loop_sim:
  "rel w v \<Longrightarrow> rel_option (in_step_with rel) (play_loop sha S fuel st n w) (play_loop sha T fuel st n v)"
proof (induction fuel arbitrary: st n w v)
  case (Suc fuel)
  obtain e st1 w1 v1 where t: "TakeTurn sha S st n w = (e, st1, w1)" "TakeTurn sha T st n v = (e, st1, v1)" "rel w1 v1"
    by (rule TakeTurn_sim [OF Suc.prems])
  obtain e2 st2 w2 v2 where o: "OtherTurn sha S st1 n w1 = (e2, st2, w2)" "OtherTurn sha T st1 n v1 = (e2, st2, v2)" "rel w2 v2"
    by (rule OtherTurn_sim [OF t(3)])
  show ?case using t o Suc.IH [OF o(3)] by (auto split: option.split)
qed simp

lemma Play_sim:
  assumes "rel w v"
  shows "rel_option (in_step_with rel) (Play sha S fuel first w) (Play sha T fuel first v)"
proof (cases first)
  case True
  with play_loop_sim [OF assms] show ?thesis by (simp add: Play_def)
next
  case False
  obtain e st1 w1 v1 where o: "OtherTurn sha S initial_state 0 w = (e, st1, w1)"
    "OtherTurn sha T initial_state 0 v = (e, st1, v1)" "rel w1 v1" by (rule OtherTurn_sim [OF assms])
  with False play_loop_sim [OF o(3)] show ?thesis by (cases e) (simp_all add: Play_def)
qed

lemma PlayWithInitiative_sim:
  assumes "rel w v"
  shows "rel_option (in_step_with rel) (PlayWithInitiative sha S fuel high w) (PlayWithInitiative sha T fuel high v)"
proof -
  obtain r w1 v1 where r: "Session_RollSync sha S 1 w = (r, w1)" "Session_RollSync sha T 1 v = (r, v1)" "rel w1 v1"
    using roll_sim [OF assms, of 1] by (metis in_step_with_def prod.collapse)
  with Play_sim [OF r(3)] show ?thesis
    by (cases r) (auto simp: PlayWithInitiative_def RollInitiative_def)
qed

end

section \<open>The wire\<close>

datatype 'x wire =
    W_Dice message
  | W_Move 'x

record 'x wire_world =
  ww_secrets :: "nat \<Rightarrow> bytes"
  ww_in :: "'x wire list"
  ww_out :: "'x wire list"
  ww_acts :: "act list"

definition wire_dice :: "'x wire_world dice_env" where
  "wire_dice =
     \<lparr>rand_Read = (\<lambda>w. (ww_secrets w 0, w\<lparr>ww_secrets := \<lambda>i. ww_secrets w (Suc i)\<rparr>)),
      peer_Send = (\<lambda>w m. (None, w\<lparr>ww_out := ww_out w @ [W_Dice m], ww_acts := ww_acts w @ [Sends]\<rparr>)),
      peer_Recv = (\<lambda>w. case ww_in w of
          [] \<Rightarrow> (Inl (Errorf ''EOF''), w)
        | W_Dice m # r \<Rightarrow> (Inr m, w\<lparr>ww_in := r, ww_acts := ww_acts w @ [Receives]\<rparr>)
        | W_Move x # r \<Rightarrow> (Inl (Errorf ''expected dice message, got different type''), w\<lparr>ww_in := r, ww_acts := ww_acts w @ [Receives]\<rparr>))\<rparr>"

lemma wire_dice_sel [simp]:
  "rand_Read wire_dice v = (ww_secrets v 0, v\<lparr>ww_secrets := \<lambda>i. ww_secrets v (Suc i)\<rparr>)"
  "peer_Send wire_dice v m = (None, v\<lparr>ww_out := ww_out v @ [W_Dice m], ww_acts := ww_acts v @ [Sends]\<rparr>)"
  by (simp_all add: wire_dice_def)

text \<open>Moves are encoded when they are sent and decoded when they are received.\<close>

definition wire_session ::
    "(move \<Rightarrow> 'x res) \<Rightarrow> ('x \<Rightarrow> move) \<Rightarrow> (game_state \<Rightarrow> move list \<Rightarrow> move res) \<Rightarrow> 'x wire_world session" where
  "wire_session enc dec pick =
     \<lparr>Session_Roller = die10, Session_dice = wire_dice,
      SendMove = (\<lambda>w m. case enc m of
          Inl e \<Rightarrow> (Some e, w)
        | Inr x \<Rightarrow> (None, w\<lparr>ww_out := ww_out w @ [W_Move x], ww_acts := ww_acts w @ [Sends]\<rparr>)),
      RecvMove = (\<lambda>w. case ww_in w of
          [] \<Rightarrow> (Inl (Errorf ''EOF''), w)
        | W_Move x # r \<Rightarrow> (Inr (dec x), w\<lparr>ww_in := r, ww_acts := ww_acts w @ [Receives]\<rparr>)
        | W_Dice m # r \<Rightarrow> (Inl (Errorf ''expected move, got different message type''), w\<lparr>ww_in := r, ww_acts := ww_acts w @ [Receives]\<rparr>)),
      ChooseMove = pick\<rparr>"

definition later :: "nat \<Rightarrow> (nat \<Rightarrow> bytes) \<Rightarrow> nat \<Rightarrow> bytes" where
  "later k ns = (\<lambda>i. ns (k + i))"

lemma later_simps [simp]: "later k ns i = ns (k + i)" "later j (later k ns) = later (k + j) ns"
  by (simp_all add: later_def add.assoc)

abbreviation dice_part :: "(bytes \<Rightarrow> bytes) \<Rightarrow> bytes \<Rightarrow> 16 word list \<Rightarrow> 'x wire list" where
  "dice_part sha s rs \<equiv> map W_Dice (roll_messages sha s rs)"

text \<open>A roll against the three messages of an honest peer: the three messages of each side cross.\<close>

definition roll_acts :: "act list" where
  "roll_acts = [Sends, Receives, Sends, Receives, Sends, Receives]"

lemma wire_Roll:
  assumes "roll d (rollSeed sha a s) = Inr rs" and "ns 0 = a"
  shows "Roll sha d wire_dice \<lparr>ww_secrets = ns, ww_in = dice_part sha s rs @ rest, ww_out = out, ww_acts = acts\<rparr>
    = (Inr rs, \<lparr>ww_secrets = later 1 ns, ww_in = rest, ww_out = out @ dice_part sha a rs, ww_acts = acts @ roll_acts\<rparr>)"
  using assms roll_Inr_length [OF assms(1)]
  by (simp add: Roll_def createSecretAndCommitment_def startExchange_def exchangeMessages_def confirmRoll_def
      verifyCommitment_def wire_dice_def roll_messages_def message_mk_defs later_def roll_acts_def Let_def)

lemma wire_RollSync:
  assumes "roll die10 (rollSeed sha a s) = Inr rs" and "ns 0 = a" and "1 \<le> n" "n \<le> 8"
  shows "Session_RollSync sha (wire_session enc dec pick) n
      \<lparr>ww_secrets = ns, ww_in = dice_part sha s rs @ rest, ww_out = out, ww_acts = acts\<rparr>
    = (Inr (take n rs), \<lparr>ww_secrets = later 1 ns, ww_in = rest, ww_out = out @ dice_part sha a rs, ww_acts = acts @ roll_acts\<rparr>)"
  using assms(3,4) roll_Inr_length [OF assms(1)]
  by (simp add: Session_RollSync_def wire_session_def RollSync_def Roll_Get_def wire_Roll [where ns = ns, OF assms(1,2)])

text \<open>
  What a side does in the half rounds of a game, the first of which it makes or waits for: a roll,
  and then it sends its move or receives the peer's.
\<close>

fun turn_acts :: "bool \<Rightarrow> nat \<Rightarrow> act list" where
  "turn_acts mine 0 = []"
| "turn_acts mine (Suc h) = roll_acts @ [if mine then Sends else Receives] @ turn_acts (\<not> mine) h"

lemma turn_acts_2 [simp]: "turn_acts b 2 = turn_acts b (Suc (Suc 0))"
  by (simp only: numeral_2_eq_2)

lemma finishes_roll: "finishes (ls, rs, 0, 0) \<Longrightarrow> finishes (roll_acts @ ls, roll_acts @ rs, 0, 0)"
  by (simp add: roll_acts_def finishes_exchange)

lemma finishes_turns: "finishes (turn_acts b h, turn_acts (\<not> b) h, 0, 0)"
proof (induction h arbitrary: b)
  case (Suc h)
  from Suc.IH [of "\<not> b"] show ?case
    by (cases b) (simp_all add: finishes_roll finishes_pass)
qed simp

lemma honest_never_block: "never_block (roll_acts @ turn_acts b h) (roll_acts @ turn_acts (\<not> b) h)"
  by (intro finishes_never_block finishes_roll finishes_turns)

section \<open>Both sides at once\<close>

text \<open>
  Half a round: the mover and the other roll, the mover chooses and sends, the other receives. It
  is \<open>None\<close> when the hash has too little entropy, when there is nothing to choose or to send, or
  when the move that arrives has not the effect of the one that was made.
\<close>

definition half_round ::
    "(bytes \<Rightarrow> bytes) \<Rightarrow> (move \<Rightarrow> 'x res) \<Rightarrow> ('x \<Rightarrow> move) \<Rightarrow> (game_state \<Rightarrow> move list \<Rightarrow> move res)
     \<Rightarrow> game_state \<Rightarrow> int \<Rightarrow> bytes \<Rightarrow> game_state \<Rightarrow> int \<Rightarrow> bytes
     \<Rightarrow> (game_state \<times> game_state \<times> 'x wire list \<times> 'x wire list) option" where
  "half_round sha enc dec pick mover n s other n' s' =
     (case roll die10 (rollSeed sha s s') of
        Inl e \<Rightarrow> None
      | Inr rs \<Rightarrow>
          (let rolls = take 2 rs; moves = own_moves (uint (rolls ! 0)) (uint (rolls ! 1)) mover in
           if moves = [] then None
           else case pick mover moves of
             Inl e \<Rightarrow> None
           | Inr m \<Rightarrow>
               (case enc m of
                  Inl e \<Rightarrow> None
                | Inr x \<Rightarrow>
                    (if same_effect m (dec x)
                     then Some (State_Move m (AddGameLogEntry m n False rolls mover),
                                State_PeerMove (dec x) (AddGameLogEntry (dec x) n' True rolls other),
                                dice_part sha s rs @ [W_Move x], dice_part sha s' rs)
                     else None))))"

text \<open>
  The side \<open>A\<close> that goes first numbers its rounds \<open>n\<close>; the other has just passed its own round
  \<open>k\<close>. The result: who won, the states in the end, the two wires.
\<close>

fun duel ::
    "(bytes \<Rightarrow> bytes) \<Rightarrow> (move \<Rightarrow> 'x res) \<Rightarrow> ('x \<Rightarrow> move)
     \<Rightarrow> (game_state \<Rightarrow> move list \<Rightarrow> move res) \<Rightarrow> (game_state \<Rightarrow> move list \<Rightarrow> move res) \<Rightarrow> nat \<Rightarrow> int \<Rightarrow> int
     \<Rightarrow> game_state \<Rightarrow> (nat \<Rightarrow> bytes) \<Rightarrow> game_state \<Rightarrow> (nat \<Rightarrow> bytes)
     \<Rightarrow> (bool \<times> game_state \<times> game_state \<times> 'x wire list \<times> 'x wire list) option" where
  "duel sha enc dec pickA pickB 0 n k A nsA B nsB = None"
| "duel sha enc dec pickA pickB (Suc fuel) n k A nsA B nsB =
     (case half_round sha enc dec pickA A n (nsA 0) B k (nsB 0) of
        None \<Rightarrow> None
      | Some (A1, B1, outA1, outB1) \<Rightarrow>
     (if State_Win A1 then Some (True, A1, B1, outA1, outB1)
      else
     (case half_round sha enc dec pickB B1 n (nsB 1) A1 n (nsA 1) of
        None \<Rightarrow> None
      | Some (B2, A2, outB2, outA2) \<Rightarrow>
     (if State_Win B2 then Some (False, A2, B2, outA1 @ outA2, outB1 @ outB2)
      else
     (case duel sha enc dec pickA pickB fuel (int64 (n + 1)) n A2 (later 2 nsA) B2 (later 2 nsB) of
        None \<Rightarrow> None
      | Some (won, A3, B3, outA3, outB3) \<Rightarrow>
          Some (won, A3, B3, outA1 @ outA2 @ outA3, outB1 @ outB2 @ outB3))))))"

definition facing :: "game_state \<Rightarrow> game_state \<Rightarrow> bool" where
  "facing st st' \<longleftrightarrow> positions.truncate st' = mirror (positions.truncate st)"

lemma facing_sym: "facing st st' \<longleftrightarrow> facing st' st"
  by (auto simp: facing_def)

lemma facing_Win: "facing st st' \<Longrightarrow> State_Win st \<longleftrightarrow> State_Lose st'"
  by (metis facing_def mirror_Win(2) truncate_Win)

lemma half_round_SomeE:
  assumes "half_round sha enc dec pick mover n s other n' s' = Some (mover', other', outM, outO)"
  obtains rs r1 r2 m x where "roll die10 (rollSeed sha s s') = Inr rs" "take 2 rs = [r1, r2]"
    "own_moves (uint r1) (uint r2) mover \<noteq> []" "pick mover (own_moves (uint r1) (uint r2) mover) = Inr m"
    "enc m = Inr x" "same_effect m (dec x)"
    "mover' = State_Move m (AddGameLogEntry m n False [r1, r2] mover)"
    "other' = State_PeerMove (dec x) (AddGameLogEntry (dec x) n' True [r1, r2] other)"
    "outM = dice_part sha s rs @ [W_Move x]" "outO = dice_part sha s' rs"
proof -
  from assms obtain rs where rs: "roll die10 (rollSeed sha s s') = Inr rs"
    by (auto simp: half_round_def split: sum.splits)
  obtain r1 r2 where "take 2 rs = [r1, r2]"
    using roll_Inr_length [OF rs] by (auto simp: length_Suc_conv eval_nat_numeral)
  with rs assms that show thesis
    by (auto simp: half_round_def Let_def split: sum.splits if_splits)
qed

lemma half_round_mover:
  assumes "half_round sha enc dec pick mover n s other n' s' = Some (mover', other', outM, outO)" and "ns 0 = s"
  shows "TakeTurn sha (wire_session enc dec pick) mover n \<lparr>ww_secrets = ns, ww_in = outO @ rest, ww_out = out, ww_acts = acts\<rparr>
    = (None, mover', \<lparr>ww_secrets = later 1 ns, ww_in = rest, ww_out = out @ outM, ww_acts = acts @ roll_acts @ [Sends]\<rparr>)"
proof -
  from assms(1) obtain rs r1 r2 m x where r: "roll die10 (rollSeed sha s s') = Inr rs" "take 2 rs = [r1, r2]"
    and m: "own_moves (uint r1) (uint r2) mover \<noteq> []" "pick mover (own_moves (uint r1) (uint r2) mover) = Inr m"
    and x: "enc m = Inr x" "mover' = State_Move m (AddGameLogEntry m n False [r1, r2] mover)"
    and out: "outM = dice_part sha s rs @ [W_Move x]" "outO = dice_part sha s' rs"
    by (rule half_round_SomeE)
  from r m x show ?thesis
    unfolding TakeTurn_def out wire_RollSync [where ns = ns and n = 2, OF r(1) assms(2), simplified]
    by (simp add: wire_session_def own_moves_def Let_def)
qed

lemma half_round_valid:
  assumes "half_round sha enc dec pick mover n s other n' s' = Some (mover', other', outM, outO)"
    and "strategy pick" and "facing mover other"
  obtains rs r1 r2 m x where "roll die10 (rollSeed sha s' s) = Inr rs" "take 2 rs = [r1, r2]"
    "validateMove [r1, r2] other (dec x) = None" "m \<in> set (own_moves (uint r1) (uint r2) mover)"
    "mover' = State_Move m (AddGameLogEntry m n False [r1, r2] mover)"
    "other' = State_PeerMove (dec x) (AddGameLogEntry (dec x) n' True [r1, r2] other)"
    "outM = dice_part sha s rs @ [W_Move x]" "outO = dice_part sha s' rs" "facing mover' other'"
proof -
  from assms(1) obtain rs r1 r2 m x where r: "roll die10 (rollSeed sha s s') = Inr rs" "take 2 rs = [r1, r2]"
    and m: "own_moves (uint r1) (uint r2) mover \<noteq> []" "pick mover (own_moves (uint r1) (uint r2) mover) = Inr m"
    and x: "same_effect m (dec x)" "mover' = State_Move m (AddGameLogEntry m n False [r1, r2] mover)"
      "other' = State_PeerMove (dec x) (AddGameLogEntry (dec x) n' True [r1, r2] other)"
    and out: "outM = dice_part sha s rs @ [W_Move x]" "outO = dice_part sha s' rs"
    by (rule half_round_SomeE)
  have r': "roll die10 (rollSeed sha s' s) = Inr rs" using r(1) by (simp add: rollSeed_commute)
  have mem: "m \<in> set (own_moves (uint r1) (uint r2) mover)" using strategy.pick_mem [OF assms(2) m(1), of mover] m(2) by auto
  let ?o = "positions.truncate other" and ?m = "positions.truncate mover"
  have f: "?o = mirror ?m" using assms(3) by (simp add: facing_def)
  have "m \<in> set (own_moves (uint r1) (uint r2) ?m)" using mem by simp
  from generated_move_validates [OF this x(1)]
  have v: "validateMove [r1, r2] ?o (dec x) = None" and p: "State_PeerMove (dec x) ?o = mirror (State_Move m ?m)"
    unfolding f by simp_all
  from v have "validateMove [r1, r2] other (dec x) = None" by (simp add: validateMove_None_iff)
  moreover have "positions.truncate other' = State_PeerMove (dec x) ?o" "positions.truncate mover' = State_Move m ?m"
    unfolding x(2,3) by simp_all
  with p have "facing mover' other'" by (simp add: facing_def)
  ultimately show thesis using that r' r(2) mem x(2,3) out by blast
qed

lemma half_round_facing:
  assumes "half_round sha enc dec pick mover n s other n' s' = Some (mover', other', outM, outO)"
    and "strategy pick" and "facing mover other"
  shows "facing mover' other'"
  using half_round_valid [OF assms] by blast

lemma half_round_other:
  assumes "half_round sha enc dec pick mover n s other n' s' = Some (mover', other', outM, outO)"
    and "strategy pick" and "facing mover other" and "ns 0 = s'"
  shows "OtherTurn sha (wire_session enc dec pick') other n' \<lparr>ww_secrets = ns, ww_in = outM @ rest, ww_out = out, ww_acts = acts\<rparr>
    = (None, other', \<lparr>ww_secrets = later 1 ns, ww_in = rest, ww_out = out @ outO, ww_acts = acts @ roll_acts @ [Receives]\<rparr>)"
proof -
  from assms(1-3) obtain rs r1 r2 m x where r: "roll die10 (rollSeed sha s' s) = Inr rs" "take 2 rs = [r1, r2]"
    and v: "validateMove [r1, r2] other (dec x) = None"
    and o: "other' = State_PeerMove (dec x) (AddGameLogEntry (dec x) n' True [r1, r2] other)"
    and out: "outM = dice_part sha s rs @ [W_Move x]" "outO = dice_part sha s' rs"
    by (rule half_round_valid)
  from r(2) v show ?thesis
    unfolding OtherTurn_def out o append_assoc wire_RollSync [where ns = ns and n = 2, OF r(1) assms(4), simplified]
    by (simp add: wire_session_def)
qed

text \<open>Both sides log every half round.\<close>

lemma half_round_log:
  "half_round sha enc dec pick mover n s other n' s' = Some (mover', other', outM, outO) \<Longrightarrow>
     length (GameLog mover') = Suc (length (GameLog mover)) \<and> length (GameLog other') = Suc (length (GameLog other))"
  by (erule half_round_SomeE) (simp add: AddGameLogEntry_def Let_def)

section \<open>Each side alone plays the game of both\<close>

text \<open>The loop seen from the side that waits for its peer's turn \<open>k\<close> before its own turn \<open>n\<close>.\<close>

definition after_peer ::
    "(bytes \<Rightarrow> bytes) \<Rightarrow> 'w session \<Rightarrow> nat \<Rightarrow> int \<Rightarrow> int \<Rightarrow> game_state \<Rightarrow> 'w \<Rightarrow> (play_result \<times> 'w) option" where
  "after_peer sha S fuel n k st w =
     (case OtherTurn sha S st k w of
        (Some e, st1, w1) \<Rightarrow>
          Some ((False, GameLog st1,
                 Some (GameError (GameLog st1) (wrapf ''error doing other player's first turn: %w'' e))), w1)
      | (None, st1, w1) \<Rightarrow>
          (if State_Lose st1 then Some ((False, GameLog st1, None), w1) else play_loop sha S fuel st1 n w1))"

lemma play_loop_after_peer:
  "play_loop sha S (Suc fuel) st n w =
     (case TakeTurn sha S st n w of
        (Some e, st1, w1) \<Rightarrow>
          Some ((False, GameLog st1, Some (GameError (GameLog st1) (wrapf ''error taking turn: %w'' e))), w1)
      | (None, st1, w1) \<Rightarrow>
          (if State_Win st1 then Some ((True, GameLog st1, None), w1)
           else after_peer sha S fuel (int64 (n + 1)) n st1 w1))"
  by (auto simp: after_peer_def split: prod.split option.split)

text \<open>One round of the game of both, by where it ends.\<close>

lemma duel_cases:
  assumes "duel sha enc dec pickA pickB fuel n k A nsA B nsB = Some (won, A', B', wA, wB)"
  obtains (first) f outA outB where "fuel = Suc f" "won" "State_Win A'" "wA = outA" "wB = outB"
      "half_round sha enc dec pickA A n (nsA 0) B k (nsB 0) = Some (A', B', outA, outB)"
    | (second) f A1 B1 outA outB outA2 outB2 where "fuel = Suc f" "\<not> won" "\<not> State_Win A1" "State_Win B'"
      "wA = outA @ outA2" "wB = outB @ outB2"
      "half_round sha enc dec pickA A n (nsA 0) B k (nsB 0) = Some (A1, B1, outA, outB)"
      "half_round sha enc dec pickB B1 n (nsB 1) A1 n (nsA 1) = Some (B', A', outB2, outA2)"
    | (more) f A1 B1 A2 B2 outA outB outA2 outB2 outA3 outB3 where "fuel = Suc f" "\<not> State_Win A1" "\<not> State_Win B2"
      "wA = outA @ outA2 @ outA3" "wB = outB @ outB2 @ outB3"
      "half_round sha enc dec pickA A n (nsA 0) B k (nsB 0) = Some (A1, B1, outA, outB)"
      "half_round sha enc dec pickB B1 n (nsB 1) A1 n (nsA 1) = Some (B2, A2, outB2, outA2)"
      "duel sha enc dec pickA pickB f (int64 (n + 1)) n A2 (later 2 nsA) B2 (later 2 nsB) = Some (won, A', B', outA3, outB3)"
proof (cases fuel)
  case (Suc f)
  with assms show thesis
    by (auto split: option.splits prod.splits if_splits intro: first second more)
qed (use assms in simp)

lemma duel_log:
  "duel sha enc dec pickA pickB fuel n k A nsA B nsB = Some (won, A', B', wA, wB) \<Longrightarrow>
     \<exists>h. length (GameLog A') = length (GameLog A) + h \<and> length (GameLog B') = length (GameLog B) + h"
proof (induction fuel arbitrary: n k A nsA B nsB wA wB)
  case (Suc fuel)
  from Suc.prems show ?case
  proof (cases rule: duel_cases)
    case first
    then show ?thesis using half_round_log by fastforce
  next
    case (second f A1 B1)
    then show ?thesis using half_round_log [OF second(7)] half_round_log [OF second(8)] by (intro exI [of _ 2]) simp
  next
    case (more f A1 B1 A2 B2)
    with Suc.IH obtain h where "length (GameLog A') = length (GameLog A2) + h" "length (GameLog B') = length (GameLog B2) + h"
      by blast
    then show ?thesis using half_round_log [OF more(6)] half_round_log [OF more(7)] by (intro exI [of _ "2 + h"]) simp
  qed
qed simp

lemma duel_first:
  assumes "strategy pickA" "strategy pickB"
  shows "duel sha enc dec pickA pickB fuel n k A nsA B nsB = Some (won, A', B', wA, wB) \<Longrightarrow> facing A B
    \<Longrightarrow> length (GameLog A') = length (GameLog A) + h \<Longrightarrow>
    \<exists>ns'. play_loop sha (wire_session enc dec pickA) fuel A n \<lparr>ww_secrets = nsA, ww_in = wB @ rest, ww_out = out, ww_acts = acts\<rparr>
      = Some ((won, GameLog A', None), \<lparr>ww_secrets = ns', ww_in = rest, ww_out = out @ wA, ww_acts = acts @ turn_acts True h\<rparr>)"
proof (induction fuel arbitrary: n k A nsA B nsB wA wB out acts h)
  case (Suc fuel)
  from Suc.prems(1) show ?case
  proof (cases rule: duel_cases)
    case (first f outA outB)
    then have "h = Suc 0" using Suc.prems(3) half_round_log [OF first(6)] by simp
    with first show ?thesis by (simp add: half_round_mover [OF first(6)])
  next
    case (second f A1 B1 outA outB outA2 outB2)
    have f1: "facing B1 A1" using half_round_facing [OF second(7) assms(1) Suc.prems(2)] by (simp add: facing_sym)
    have "State_Lose A'" using half_round_facing [OF second(8) assms(2) f1] second(4) facing_Win by blast
    with second show ?thesis using Suc.prems(3) half_round_log [OF second(7)] half_round_log [OF second(8)]
      by (simp add: half_round_mover [OF second(7)] half_round_other [OF second(8) assms(2) f1] del: One_nat_def)
  next
    case (more f A1 B1 A2 B2 outA outB outA2 outB2 outA3 outB3)
    have f1: "facing B1 A1" using half_round_facing [OF more(6) assms(1) Suc.prems(2)] by (simp add: facing_sym)
    have f2: "facing B2 A2" by (rule half_round_facing [OF more(7) assms(2) f1])
    obtain h' where h: "length (GameLog A') = length (GameLog A2) + h'" "h = Suc (Suc h')"
      using duel_log [OF more(8)] half_round_log [OF more(6)] half_round_log [OF more(7)] Suc.prems(3) by auto
    from f2 have "\<not> State_Lose A2" "facing A2 B2" using more(3) facing_Win facing_sym by blast+
    moreover from this obtain ns' where
      "play_loop sha (wire_session enc dec pickA) fuel A2 (int64 (n + 1))
         \<lparr>ww_secrets = later 2 nsA, ww_in = outB3 @ rest, ww_out = (out @ outA) @ outA2, ww_acts = (acts @ roll_acts @ [Sends]) @ roll_acts @ [Receives]\<rparr>
       = Some ((won, GameLog A', None), \<lparr>ww_secrets = ns', ww_in = rest, ww_out = ((out @ outA) @ outA2) @ outA3, ww_acts = ((acts @ roll_acts @ [Sends]) @ roll_acts @ [Receives]) @ turn_acts True h'\<rparr>)"
      using Suc.IH [OF _ _ h(1)] more(1,8) by blast
    ultimately show ?thesis using more h(2)
      by (simp add: half_round_mover [OF more(6)] half_round_other [OF more(7) assms(2) f1] del: One_nat_def)
  qed
qed simp

lemma duel_second:
  assumes "strategy pickA" "strategy pickB"
  shows "duel sha enc dec pickA pickB fuel n k A nsA B nsB = Some (won, A', B', wA, wB) \<Longrightarrow> facing A B
    \<Longrightarrow> length (GameLog B') = length (GameLog B) + h \<Longrightarrow>
    \<exists>ns'. after_peer sha (wire_session enc dec pickB) fuel n k B \<lparr>ww_secrets = nsB, ww_in = wA @ rest, ww_out = out, ww_acts = acts\<rparr>
      = Some ((\<not> won, GameLog B', None), \<lparr>ww_secrets = ns', ww_in = rest, ww_out = out @ wB, ww_acts = acts @ turn_acts False h\<rparr>)"
proof (induction fuel arbitrary: n k A nsA B nsB wA wB out acts h)
  case (Suc fuel)
  from Suc.prems(1) show ?case
  proof (cases rule: duel_cases)
    case (first f outA outB)
    have "State_Lose B'" using half_round_facing [OF first(6) assms(1) Suc.prems(2)] first(3) facing_Win by blast
    moreover have "h = Suc 0" using first Suc.prems(3) half_round_log [OF first(6)] by simp
    ultimately show ?thesis using first
      by (simp add: after_peer_def half_round_other [OF first(6) assms(1) Suc.prems(2)])
  next
    case (second f A1 B1 outA outB outA2 outB2)
    have "\<not> State_Lose B1" using half_round_facing [OF second(7) assms(1) Suc.prems(2)] second(3) facing_Win by blast
    with second show ?thesis using Suc.prems(3) half_round_log [OF second(7)] half_round_log [OF second(8)]
      by (simp add: after_peer_def half_round_other [OF second(7) assms(1) Suc.prems(2)] half_round_mover [OF second(8)] del: One_nat_def)
  next
    case (more f A1 B1 A2 B2 outA outB outA2 outB2 outA3 outB3)
    have f: "facing A1 B1" by (rule half_round_facing [OF more(6) assms(1) Suc.prems(2)])
    obtain h' where h: "length (GameLog B') = length (GameLog B2) + h'" "h = Suc (Suc h')"
      using duel_log [OF more(8)] half_round_log [OF more(6)] half_round_log [OF more(7)] Suc.prems(3) by auto
    from f have "\<not> State_Lose B1" "facing B1 A1" using more(2) facing_Win facing_sym by blast+
    moreover have "facing A2 B2" using half_round_facing [OF more(7) assms(2) \<open>facing B1 A1\<close>] by (simp add: facing_sym)
    moreover from this obtain ns' where
      "after_peer sha (wire_session enc dec pickB) fuel (int64 (n + 1)) n B2
         \<lparr>ww_secrets = later 2 nsB, ww_in = outA3 @ rest, ww_out = (out @ outB) @ outB2, ww_acts = (acts @ roll_acts @ [Receives]) @ roll_acts @ [Sends]\<rparr>
       = Some ((\<not> won, GameLog B', None), \<lparr>ww_secrets = ns', ww_in = rest, ww_out = ((out @ outB) @ outB2) @ outB3, ww_acts = ((acts @ roll_acts @ [Receives]) @ roll_acts @ [Sends]) @ turn_acts False h'\<rparr>)"
      using Suc.IH [OF _ _ h(1)] more(1,8) by blast
    moreover have "after_peer sha (wire_session enc dec pickB) (Suc fuel) n k B
        \<lparr>ww_secrets = nsB, ww_in = wA @ rest, ww_out = out, ww_acts = acts\<rparr>
      = play_loop sha (wire_session enc dec pickB) (Suc fuel) B1 n
        \<lparr>ww_secrets = later 1 nsB, ww_in = outA2 @ outA3 @ rest, ww_out = out @ outB, ww_acts = acts @ roll_acts @ [Receives]\<rparr>"
      using more \<open>\<not> State_Lose B1\<close>
      by (simp add: after_peer_def half_round_other [OF more(6) assms(1) Suc.prems(2)] del: play_loop.simps One_nat_def)
    ultimately show ?thesis using more h(2)
      by (simp add: play_loop_after_peer half_round_mover [OF more(7)] del: play_loop.simps One_nat_def)
  qed
qed simp

lemma duel_facing:
  assumes "strategy pickA" "strategy pickB"
  shows "duel sha enc dec pickA pickB fuel n k A nsA B nsB = Some (won, A', B', wA, wB) \<Longrightarrow> facing A B
    \<Longrightarrow> facing A' B' \<and> (if won then State_Win A' else State_Win B')"
proof (induction fuel arbitrary: n k A nsA B nsB wA wB)
  case (Suc fuel)
  from Suc.prems(1) show ?case
  proof (cases rule: duel_cases)
    case (first f outA outB)
    with half_round_facing [OF first(6) assms(1) Suc.prems(2)] show ?thesis by simp
  next
    case (second f A1 B1 outA outB outA2 outB2)
    have "facing B1 A1" using half_round_facing [OF second(7) assms(1) Suc.prems(2)] by (simp add: facing_sym)
    from half_round_facing [OF second(8) assms(2) this] second show ?thesis by (simp add: facing_sym)
  next
    case (more f A1 B1 A2 B2 outA outB outA2 outB2 outA3 outB3)
    have "facing B1 A1" using half_round_facing [OF more(6) assms(1) Suc.prems(2)] by (simp add: facing_sym)
    from half_round_facing [OF more(7) assms(2) this] have "facing A2 B2" by (simp add: facing_sym)
    with Suc.IH more(1,8) show ?thesis by blast
  qed
qed simp

lemma initial_log [simp]: "GameLog initial_state = []"
  by (simp add: initial_state_def)

lemma facing_initial [simp]: "facing initial_state initial_state"
  by (simp add: facing_def initial_state_def positions.truncate_def mirror_def)

lemma first_half_round_not_over:
  assumes "half_round sha enc dec pick initial_state n s initial_state n' s' = Some (A1, B1, outA, outB)"
    and "strategy pick"
  shows "\<not> State_Win A1" "\<not> State_Lose B1"
proof -
  from assms obtain rs r1 r2 x where r: "roll die10 (rollSeed sha s' s) = Inr rs" "take 2 rs = [r1, r2]"
    and v: "validateMove [r1, r2] initial_state (dec x) = None"
    and o: "B1 = State_PeerMove (dec x) (AddGameLogEntry (dec x) n' True [r1, r2] initial_state)" and f: "facing A1 B1"
    by (rule half_round_valid) simp_all
  have "r1 \<in> set rs" "r2 \<in> set rs" using set_take_subset [of 2 rs] unfolding r(2) by simp_all
  with roll_faces [OF NewRoller_10 r(1)] have u: "1 \<le> unat r1 \<and> unat r1 \<le> 10" "1 \<le> unat r2 \<and> unat r2 \<le> 10" by auto
  have "uint r1 = int (unat r1)" "uint r2 = int (unat r2)" by (rule uint_nat)+
  with u have "is_face r1" "is_face r2" unfolding is_face_def by linarith+
  with first_peer_turn_not_over [OF v] have "\<not> game_over B1" unfolding o by blast
  then show "\<not> State_Lose B1" by (simp add: game_over_def)
  with f facing_Win show "\<not> State_Win A1" by blast
qed

lemma Play_first:
  assumes "strategy pickA" "strategy pickB"
    and "duel sha enc dec pickA pickB fuel 0 0 initial_state nsA initial_state nsB = Some (won, A', B', wA, wB)"
  shows "\<exists>ns'. Play sha (wire_session enc dec pickA) fuel True \<lparr>ww_secrets = nsA, ww_in = wB, ww_out = out, ww_acts = acts\<rparr>
      = Some ((won, GameLog A', None), \<lparr>ww_secrets = ns', ww_in = [], ww_out = out @ wA, ww_acts = acts @ turn_acts True (length (GameLog A'))\<rparr>)"
  using duel_first [OF assms facing_initial, of "length (GameLog A')" "[]" out] by (simp add: Play_def)

lemma Play_second:
  assumes "strategy pickA" "strategy pickB"
    and "duel sha enc dec pickA pickB fuel 0 0 initial_state nsA initial_state nsB = Some (won, A', B', wA, wB)"
  shows "\<exists>ns'. Play sha (wire_session enc dec pickB) fuel False \<lparr>ww_secrets = nsB, ww_in = wA, ww_out = out, ww_acts = acts\<rparr>
      = Some ((\<not> won, GameLog B', None), \<lparr>ww_secrets = ns', ww_in = [], ww_out = out @ wB, ww_acts = acts @ turn_acts False (length (GameLog B'))\<rparr>)"
proof -
  obtain A1 B1 outA outB rest where h: "half_round sha enc dec pickA initial_state 0 (nsA 0) initial_state 0 (nsB 0) = Some (A1, B1, outA, outB)"
    and w: "wA = outA @ rest"
    using assms(3) by (rule duel_cases) auto
  have "\<not> State_Lose B1" by (rule first_half_round_not_over(2) [OF h assms(1)])
  then have "Play sha (wire_session enc dec pickB) fuel False \<lparr>ww_secrets = nsB, ww_in = wA, ww_out = out, ww_acts = acts\<rparr>
      = after_peer sha (wire_session enc dec pickB) fuel 0 0 initial_state \<lparr>ww_secrets = nsB, ww_in = wA @ [], ww_out = out, ww_acts = acts\<rparr>"
    unfolding Play_def after_peer_def w by (simp add: half_round_other [OF h assms(1) facing_initial])
  with duel_second [OF assms(1,2,3) facing_initial, of "length (GameLog B')" "[]" out] show ?thesis by simp
qed

section \<open>A game between honest players\<close>

text \<open>
  The initiative roll and the game after it, both sides at once: the side that wants it high
  and the side that wants it low.
\<close>

definition honest_game ::
    "(bytes \<Rightarrow> bytes) \<Rightarrow> (move \<Rightarrow> 'x res) \<Rightarrow> ('x \<Rightarrow> move)
     \<Rightarrow> (game_state \<Rightarrow> move list \<Rightarrow> move res) \<Rightarrow> (game_state \<Rightarrow> move list \<Rightarrow> move res) \<Rightarrow> nat
     \<Rightarrow> (nat \<Rightarrow> bytes) \<Rightarrow> (nat \<Rightarrow> bytes) \<Rightarrow> (bool \<times> game_state \<times> game_state \<times> 'x wire list \<times> 'x wire list) option" where
  "honest_game sha enc dec pickH pickL fuel nsH nsL =
     (case roll die10 (rollSeed sha (nsH 0) (nsL 0)) of
        Inl e \<Rightarrow> None
      | Inr rs \<Rightarrow>
          (let dH = dice_part sha (nsH 0) rs; dL = dice_part sha (nsL 0) rs in
           if hd rs > 5 then
             map_option (\<lambda>(won, H, L, wH, wL). (won, H, L, dH @ wH, dL @ wL))
               (duel sha enc dec pickH pickL fuel 0 0 initial_state (later 1 nsH) initial_state (later 1 nsL))
           else
             map_option (\<lambda>(won, L, H, wL, wH). (\<not> won, H, L, dH @ wH, dL @ wL))
               (duel sha enc dec pickL pickH fuel 0 0 initial_state (later 1 nsL) initial_state (later 1 nsH))))"

lemma wire_initiative:
  assumes "roll die10 (rollSeed sha a s) = Inr rs" and "ns 0 = a"
  shows "PlayWithInitiative sha (wire_session enc dec pick) fuel high
      \<lparr>ww_secrets = ns, ww_in = dice_part sha s rs @ rest, ww_out = out, ww_acts = acts\<rparr>
    = Play sha (wire_session enc dec pick) fuel (high = (hd rs > 5))
        \<lparr>ww_secrets = later 1 ns, ww_in = rest, ww_out = out @ dice_part sha a rs, ww_acts = acts @ roll_acts\<rparr>"
proof -
  obtain r rs' where rs: "rs = r # rs'" using roll_Inr_length [OF assms(1)] by (cases rs) auto
  have "Session_RollSync sha (wire_session enc dec pick) 1
      \<lparr>ww_secrets = ns, ww_in = dice_part sha s rs @ rest, ww_out = out, ww_acts = acts\<rparr>
    = (Inr [r], \<lparr>ww_secrets = later 1 ns, ww_in = rest, ww_out = out @ dice_part sha a rs, ww_acts = acts @ roll_acts\<rparr>)"
    using wire_RollSync [where ns = ns and n = 1, OF assms] rs by simp
  then show ?thesis
    unfolding PlayWithInitiative_def RollInitiative_def by (simp add: rs not_less del: One_nat_def)
qed

lemma duel_same_log:
  assumes "duel sha enc dec pickA pickB fuel 0 0 initial_state nsA initial_state nsB = Some (won, A', B', wA, wB)"
  shows "length (GameLog A') = length (GameLog B')"
  using duel_log [OF assms] by auto

text \<open>Two honest players always finish their game, and agree. Whatever the two strategies
  choose and the two secrets roll, if the game that they make together ends, then each player
  alone, given what the other one sends, plays that game to its end without an error: each sends
  what the other one was given, one reports that it won and the other that it lost, and their
  boards mirror each other. Played against each other, with each receive waiting for the message
  it takes and each send for room, the two never block: wherever they are, one of them can go on until both are done.\<close>

lemma honest_players_finish:
  assumes "strategy pickH" "strategy pickL"
    and "honest_game sha enc dec pickH pickL fuel nsH nsL = Some (won, H, L, wireH, wireL)"
  obtains actsH actsL where
    "\<exists>ns'. PlayWithInitiative sha (wire_session enc dec pickH) fuel True
        \<lparr>ww_secrets = nsH, ww_in = wireL, ww_out = [], ww_acts = []\<rparr>
      = Some ((won, GameLog H, None), \<lparr>ww_secrets = ns', ww_in = [], ww_out = wireH, ww_acts = actsH\<rparr>)"
    "\<exists>ns'. PlayWithInitiative sha (wire_session enc dec pickL) fuel False
        \<lparr>ww_secrets = nsL, ww_in = wireH, ww_out = [], ww_acts = []\<rparr>
      = Some ((\<not> won, GameLog L, None), \<lparr>ww_secrets = ns', ww_in = [], ww_out = wireL, ww_acts = actsL\<rparr>)"
    "never_block actsH actsL"
    "positions.truncate L = mirror (positions.truncate H)" "if won then State_Win H else State_Lose H"
proof -
  obtain rs where rs: "roll die10 (rollSeed sha (nsH 0) (nsL 0)) = Inr rs"
    using assms(3) by (auto simp: honest_game_def split: sum.splits)
  then have rs': "roll die10 (rollSeed sha (nsL 0) (nsH 0)) = Inr rs" by (simp add: rollSeed_commute)
  note start = wire_initiative [where ns = nsH, OF rs refl] wire_initiative [where ns = nsL, OF rs' refl]
  let ?first = "hd rs > 5"
  let ?actsH = "roll_acts @ turn_acts ?first (length (GameLog H))" and ?actsL = "roll_acts @ turn_acts (\<not> ?first) (length (GameLog L))"
  have ends: "(\<exists>ns'. PlayWithInitiative sha (wire_session enc dec pickH) fuel True
        \<lparr>ww_secrets = nsH, ww_in = wireL, ww_out = [], ww_acts = []\<rparr>
      = Some ((won, GameLog H, None), \<lparr>ww_secrets = ns', ww_in = [], ww_out = wireH, ww_acts = ?actsH\<rparr>))
    \<and> (\<exists>ns'. PlayWithInitiative sha (wire_session enc dec pickL) fuel False
        \<lparr>ww_secrets = nsL, ww_in = wireH, ww_out = [], ww_acts = []\<rparr>
      = Some ((\<not> won, GameLog L, None), \<lparr>ww_secrets = ns', ww_in = [], ww_out = wireL, ww_acts = ?actsL\<rparr>))
    \<and> length (GameLog H) = length (GameLog L) \<and> facing H L \<and> (if won then State_Win H else State_Win L)"
  proof (cases ?first)
    case True
    with assms(3) rs obtain wH wL where d: "duel sha enc dec pickH pickL fuel 0 0 initial_state (later 1 nsH)
        initial_state (later 1 nsL) = Some (won, H, L, wH, wL)"
      and w: "wireH = dice_part sha (nsH 0) rs @ wH" "wireL = dice_part sha (nsL 0) rs @ wL"
      by (auto simp: honest_game_def Let_def)
    from Play_first [OF assms(1,2) d, of "dice_part sha (nsH 0) rs" roll_acts]
      Play_second [OF assms(1,2) d, of "dice_part sha (nsL 0) rs" roll_acts]
      duel_facing [OF assms(1,2) d facing_initial] duel_same_log [OF d] True
    show ?thesis by (simp add: w start)
  next
    case False
    with assms(3) rs obtain wH wL where d: "duel sha enc dec pickL pickH fuel 0 0 initial_state (later 1 nsL)
        initial_state (later 1 nsH) = Some (\<not> won, L, H, wL, wH)"
      and w: "wireH = dice_part sha (nsH 0) rs @ wH" "wireL = dice_part sha (nsL 0) rs @ wL"
      by (auto simp: honest_game_def Let_def)
    from Play_second [OF assms(2,1) d, of "dice_part sha (nsH 0) rs" roll_acts]
      Play_first [OF assms(2,1) d, of "dice_part sha (nsL 0) rs" roll_acts]
      duel_facing [OF assms(2,1) d facing_initial] duel_same_log [OF d] False
    show ?thesis by (simp add: w start facing_sym [of H L])
  qed
  note ends1 = ends [THEN conjunct1] and ends2 = ends [THEN conjunct2]
  have "never_block ?actsH ?actsL" using ends2 by (simp add: honest_never_block)
  moreover have "positions.truncate L = mirror (positions.truncate H)" using ends2 by (simp add: facing_def)
  moreover have "if won then State_Win H else State_Lose H" using ends2 facing_Win [of L H] facing_sym [of H L] by auto
  ultimately show thesis by (rule that [OF ends1 ends2 [THEN conjunct1]])
qed

end
