(* ===== verification/HR_Wire.thy ===== *)
theory HR_Wire
  imports Srv_Stream Srv_HighRoll FF_Wire
begin

text \<open>
  A roll between two servers over signed streams. \<open>hr_carries\<close> relates the peer of
  \<open>highroll/peer.go\<close> on such a stream to the abstract wire of \<open>FF_Wire\<close>: both what it sent and what it will
  read are signed images of dice messages. Two honest servers roll the same dice. The other end
  need not be a server at all: a mirror that sends every message back passes all checks.
\<close>

section \<open>The stream of a HighRoll game\<close>

type_synonym hr_stream = "signed_dice stream_world"
type_synonym hr_link = "pb_dice link"

definition dice_net :: "hr_link \<Rightarrow> identity \<Rightarrow> hr_stream hr_net" where
  "dice_net K peer =
     \<lparr>hr_verify = stream_env K peer, hr_Marshal = lk_Marshal K,
      hr_Recv = (\<lambda>w. case st_in w of
          [] \<Rightarrow> (Inl (Errorf ''EOF''), w)
        | m # r \<Rightarrow> (Inr m, w\<lparr>st_in := r, st_acts := st_acts w @ [Receives]\<rparr>)),
      hr_Send = (\<lambda>w m. (None, w\<lparr>st_out := st_out w @ [m], st_acts := st_acts w @ [Sends]\<rparr>)),
      hr_rand = (\<lambda>w. (st_secrets w 0, w\<lparr>st_secrets := \<lambda>i. st_secrets w (Suc i)\<rparr>))\<rparr>"

text \<open>The same end of a stream whose other end sends everything back.\<close>

definition mirror_net :: "hr_link \<Rightarrow> identity \<Rightarrow> hr_stream hr_net" where
  "mirror_net K peer =
     (dice_net K peer)\<lparr>hr_Send := (\<lambda>w m. (None, w\<lparr>st_in := st_in w @ [m], st_out := st_out w @ [m], st_acts := st_acts w @ [Sends]\<rparr>))\<rparr>"

type_synonym dice_wire = "unit wire_world"

abbreviation wire_env :: "dice_wire dice_env" where
  "wire_env \<equiv> wire_dice"

definition mirror_env :: "dice_wire dice_env" where
  "mirror_env = wire_dice\<lparr>peer_Send := (\<lambda>w m. (None,
     w\<lparr>ww_in := ww_in w @ [W_Dice m], ww_out := ww_out w @ [W_Dice m], ww_acts := ww_acts w @ [Sends]\<rparr>))\<rparr>"

lemma net_sel [simp]:
  "hr_verify (dice_net K peer) = stream_env K peer" "hr_Marshal (dice_net K peer) = lk_Marshal K"
  "hr_Send (dice_net K peer) w m = (None, w\<lparr>st_out := st_out w @ [m], st_acts := st_acts w @ [Sends]\<rparr>)"
  "hr_rand (dice_net K peer) w = (st_secrets w 0, w\<lparr>st_secrets := \<lambda>i. st_secrets w (Suc i)\<rparr>)"
  "hr_verify (mirror_net K peer) = stream_env K peer" "hr_Marshal (mirror_net K peer) = lk_Marshal K"
  "hr_Recv (mirror_net K peer) = hr_Recv (dice_net K peer)" "hr_rand (mirror_net K peer) = hr_rand (dice_net K peer)"
  "hr_Send (mirror_net K peer) w m = (None, w\<lparr>st_in := st_in w @ [m], st_out := st_out w @ [m], st_acts := st_acts w @ [Sends]\<rparr>)"
  by (simp_all add: dice_net_def mirror_net_def)

lemma mirror_env_sel [simp]:
  "rand_Read mirror_env = rand_Read wire_env" "peer_Recv mirror_env = peer_Recv wire_env"
  "peer_Send mirror_env w m = (None,
     w\<lparr>ww_in := ww_in w @ [W_Dice m], ww_out := ww_out w @ [W_Dice m], ww_acts := ww_acts w @ [Sends]\<rparr>)"
  by (simp_all add: mirror_env_def)

section \<open>Signed dice\<close>

definition sign_dice :: "hr_link \<Rightarrow> id_signer \<Rightarrow> message \<Rightarrow> signed_dice" where
  "sign_dice K s m =
     (case CreateSignedMessage (lk_sha K) (lk_ed K) (\<lambda>m. lk_Marshal K (Some m)) s (hr_convertInternalDiceMessageToProto m) of
        Inl e \<Rightarrow> \<lparr>sd_Message = None, sd_Signature = None\<rparr>
      | Inr (pm, sg) \<Rightarrow> \<lparr>sd_Message = Some pm, sd_Signature = Some sg\<rparr>)"

lemma sign_dice_ok:
  assumes "sound_link K t ttl" "signs_for K priv addr s"
  obtains b sg where "lk_Marshal K (Some (hr_convertInternalDiceMessageToProto m)) = Inr b"
    "CreateSignedMessage (lk_sha K) (lk_ed K) (\<lambda>m. lk_Marshal K (Some m)) s (hr_convertInternalDiceMessageToProto m)
       = Inr (hr_convertInternalDiceMessageToProto m, sg)"
    "sig_Signature sg \<noteq> []" "SignerAddress sg = addr"
    "length (drop 32 priv) = 32" "ed_Verify (lk_ed K) (drop 32 priv) (lk_sha K b) (sig_Signature sg)"
proof -
  from assms(1) obtain b where b: "lk_Marshal K (Some (hr_convertInternalDiceMessageToProto m)) = Inr b"
    unfolding sound_link_def by blast
  from assms(2) have s: "privateKey s = priv" "signer_address s = addr"
    by (auto simp: signs_for_def dest: identity_NewSigner_InrD)
  show thesis
    using assms(2) s b
    by (intro that [OF b, of "\<lparr>sig_Signature = ed_Sign (lk_ed K) priv (lk_sha K b), SignerAddress = addr\<rparr>"])
      (simp_all add: signs_for_def CreateSignedMessage_def SignProto_def SignMessage_def identity_Sign_def ed25519_Sign_def
        ed_correct_def)
qed

lemma message_stream:
  assumes "VerifyMessageSignature (stream_env K peer) v b sigo w = (r, v1, w1)"
  shows "same_stream w w1"
proof (cases sigo)
  case (Some sg)
  obtain c v2 w2 where c: "cached_peer (stream_env K peer) v (SignerAddress sg) w = (c, v2, w2)" by (metis prod_cases3)
  have "same_stream w2 w1 \<or> w1 = w"
    using assms Some c by (auto simp: VerifyMessageSignature_def fetch_stream Let_def split: if_splits option.splits)
  with cached_peer_stream [OF c] show ?thesis by (auto intro: same_stream_trans)
qed (use assms in \<open>simp add: VerifyMessageSignature_def\<close>)

definition signed_as :: "hr_link \<Rightarrow> id_signer \<Rightarrow> unit wire list \<Rightarrow> signed_dice list \<Rightarrow> bool" where
  "signed_as K s vs sms \<longleftrightarrow> (\<exists>ms. vs = map W_Dice ms \<and> sms = map (sign_dice K s) ms)"

lemma inj_W_Dice: "inj W_Dice"
  by (simp add: inj_def)

lemma signed_as_map [simp]:
  "signed_as K s (map W_Dice ms) sms \<longleftrightarrow> sms = map (sign_dice K s) ms" "signed_as K s [] sms \<longleftrightarrow> sms = []"
  by (auto simp: signed_as_def inj_map_eq_map [OF inj_W_Dice])

lemma signed_as_snoc [simp]:
  "signed_as K s vs sms \<Longrightarrow> signed_as K s (vs @ [W_Dice m]) (sms @ [sign_dice K s m])"
  unfolding signed_as_def by (elim exE) (rule exI [of _ "_ @ [m]"], simp)

definition hr_carries ::
    "hr_link \<Rightarrow> int \<Rightarrow> int \<Rightarrow> identity \<Rightarrow> id_signer \<Rightarrow> id_signer \<Rightarrow> hr_peer \<times> hr_stream \<Rightarrow> dice_wire \<Rightarrow> bool" where
  "hr_carries K t ttl peer theirs own x v \<longleftrightarrow>
     (case x of (p, w) \<Rightarrow>
        sound_link K t ttl \<and> (\<exists>priv addr. signs_for K priv addr own) \<and> hr_signer p = own
        \<and> st_secrets w = ww_secrets v \<and> wf_secrets (ww_secrets v) \<and> st_acts w = ww_acts v
        \<and> signed_as K own (ww_out v) (st_out w) \<and> signed_as K theirs (ww_in v) (st_in w)
        \<and> (\<forall>m. W_Dice m \<in> set (ww_in v) \<longrightarrow> wf_message m)
        \<and> (\<exists>priv ver. signs_for K priv (ServerAddress peer) theirs \<and> hr_verifier p = Some ver \<and> ttl \<le> ic_ttl (identityCache ver)
             \<and> key_known (stream_env K peer :: hr_stream verify_env) (t + ttl) (ServerAddress peer) (drop 32 priv) (identityCache ver)))"

lemma hr_carries_rand:
  assumes "hr_carries K t ttl peer theirs own (p, w) v"
  shows "st_secrets w = ww_secrets v" "length (ww_secrets v 0) = 32"
    "hr_carries K t ttl peer theirs own (p, w\<lparr>st_secrets := \<lambda>i. st_secrets w (Suc i)\<rparr>)
       (v\<lparr>ww_secrets := \<lambda>i. ww_secrets v (Suc i)\<rparr>)"
  using assms by (auto simp: hr_carries_def wf_secrets_def)

lemma hr_carries_recv:
  assumes c: "hr_carries K t ttl peer theirs own (p, w) v"
  shows "\<exists>p1 w1. hr_peer_Recv (dice_net K peer) p w = (fst (peer_Recv wire_env v), p1, w1)
    \<and> hr_carries K t ttl peer theirs own (p1, w1) (snd (peer_Recv wire_env v))"
proof -
  from c obtain ms where ms: "ww_in v = map W_Dice ms" "st_in w = map (sign_dice K theirs) ms" "list_all wf_message ms"
    by (auto simp: hr_carries_def signed_as_def list_all_iff)
  show ?thesis
  proof (cases ms)
    case Nil
    with c ms show ?thesis by (simp add: hr_peer_Recv_def dice_net_def wire_dice_def)
  next
    case (Cons m r)
    let ?env = "stream_env K peer :: hr_stream verify_env"
    from c obtain priv ver where s: "sound_link K t ttl" "signs_for K priv (ServerAddress peer) theirs"
      and ver: "hr_verifier p = Some ver" "ttl \<le> ic_ttl (identityCache ver)"
        "key_known ?env (t + ttl) (ServerAddress peer) (drop 32 priv) (identityCache ver)"
      and wf: "wf_message m" and st: "st_in w = sign_dice K theirs m # map (sign_dice K theirs) r"
      using Cons ms by (auto simp: hr_carries_def)
    obtain b sg where b: "lk_Marshal K (Some (hr_convertInternalDiceMessageToProto m)) = Inr b"
      and sm: "sign_dice K theirs m = \<lparr>sd_Message = Some (hr_convertInternalDiceMessageToProto m), sd_Signature = Some sg\<rparr>"
      and ok: "sig_Signature sg \<noteq> []" "SignerAddress sg = ServerAddress peer" "length (drop 32 priv) = 32"
        "ed_Verify (ve_ed ?env) (drop 32 priv) (ve_sha ?env b) (sig_Signature sg)"
      by (rule sign_dice_ok [OF s, of m]) (simp add: sign_dice_def)
    have clock: "\<forall>w. t \<le> fst (ve_now ?env w) \<and> fst (ve_now ?env w) \<le> t + ttl" using s(1) by (simp add: sound_link_def)
    have addr: "SignerAddress sg \<noteq> ''''" using ok(2) s(2) by (simp add: signs_for_def)
    define w0 where "w0 = w\<lparr>st_in := map (sign_dice K theirs) r, st_acts := st_acts w @ [Receives]\<rparr>"
    obtain cm w1 where v: "VerifyMessageSignature ?env ver b (Some sg) w0 = (None, ver\<lparr>identityCache := cm\<rparr>, w1)"
      "key_known ?env (t + ttl) (ServerAddress peer) (drop 32 priv) cm" "ttl \<le> ic_ttl cm"
      by (rule verify_message_with_key [OF ver(3) [folded ok(2)] ver(2) clock ok(1) addr ok(3,4), of w0]) (simp add: ok(2))
    let ?p1 = "p\<lparr>hr_verifier := Some (ver\<lparr>identityCache := cm\<rparr>)\<rparr>"
    have "hr_peer_Recv (dice_net K peer) p w = (Inr m, ?p1, w1)"
      using st sm b v(1) wf ver(1)
      by (simp add: hr_peer_Recv_def dice_net_def w0_def VerifySignatureProto_def hr_conversions_same)
    moreover from c Cons ms message_stream [OF v(1)] v(2,3) s(2)
    have "hr_carries K t ttl peer theirs own (?p1, w1) (v\<lparr>ww_in := map W_Dice r, ww_acts := ww_acts v @ [Receives]\<rparr>)"
      by (auto simp: hr_carries_def same_stream_def w0_def)
    ultimately show ?thesis using Cons ms by (simp add: wire_dice_def)
  qed
qed

text \<open>What the peer sends is signed, on either net.\<close>

lemma hr_carries_send:
  assumes c: "hr_carries K t ttl peer theirs own (p, w) v"
  shows "hr_peer_Send (dice_net K peer) p m w = (None, w\<lparr>st_out := st_out w @ [sign_dice K own m], st_acts := st_acts w @ [Sends]\<rparr>)"
    "hr_peer_Send (mirror_net K peer) p m w
      = (None, w\<lparr>st_in := st_in w @ [sign_dice K own m], st_out := st_out w @ [sign_dice K own m], st_acts := st_acts w @ [Sends]\<rparr>)"
    "hr_carries K t ttl peer theirs own (p, w\<lparr>st_out := st_out w @ [sign_dice K own m], st_acts := st_acts w @ [Sends]\<rparr>) (v\<lparr>ww_out := ww_out v @ [W_Dice m], ww_acts := ww_acts v @ [Sends]\<rparr>)"
proof -
  from c obtain priv addr where s: "sound_link K t ttl" "signs_for K priv addr own" "hr_signer p = own" by (auto simp: hr_carries_def)
  obtain sg where sg: "CreateSignedMessage (lk_sha K) (lk_ed K) (\<lambda>m. lk_Marshal K (Some m)) own (hr_convertInternalDiceMessageToProto m)
      = Inr (hr_convertInternalDiceMessageToProto m, sg)" by (rule sign_dice_ok [OF s(1,2), of m])
  then have "sign_dice K own m = \<lparr>sd_Message = Some (hr_convertInternalDiceMessageToProto m), sd_Signature = Some sg\<rparr>"
    by (simp add: sign_dice_def)
  with s(3) sg show "hr_peer_Send (dice_net K peer) p m w = (None, w\<lparr>st_out := st_out w @ [sign_dice K own m], st_acts := st_acts w @ [Sends]\<rparr>)"
    "hr_peer_Send (mirror_net K peer) p m w
      = (None, w\<lparr>st_in := st_in w @ [sign_dice K own m], st_out := st_out w @ [sign_dice K own m], st_acts := st_acts w @ [Sends]\<rparr>)"
    by (simp_all add: hr_peer_Send_def)
  show "hr_carries K t ttl peer theirs own (p, w\<lparr>st_out := st_out w @ [sign_dice K own m], st_acts := st_acts w @ [Sends]\<rparr>) (v\<lparr>ww_out := ww_out v @ [W_Dice m], ww_acts := ww_acts v @ [Sends]\<rparr>)"
    using c by (simp add: hr_carries_def)
qed

section \<open>The dice interface\<close>

lemma hr_dice_sel:
  "rand_Read (hr_dice_env N) (p, w) = (fst (hr_rand N w), (p, snd (hr_rand N w)))"
  "peer_Send (hr_dice_env N) (p, w) m = (fst (hr_peer_Send N p m w), (p, snd (hr_peer_Send N p m w)))"
  "peer_Recv (hr_dice_env N) (p, w) = hr_peer_Recv N p w"
  by (simp_all add: hr_dice_env_def split_def Let_def)

lemma mirror_Recv: "hr_peer_Recv (mirror_net K peer) = hr_peer_Recv (dice_net K peer)"
  by (intro ext) (simp add: hr_peer_Recv_def split: sum.split prod.split)

interpretation signed_high_roll: dice_sim "hr_dice_env (dice_net K peer)" wire_env "hr_carries K t ttl peer theirs own"
  for K t ttl peer theirs own
proof
  fix x y v s x'
  assume c: "hr_carries K t ttl peer theirs own x v" and r: "rand_Read (hr_dice_env (dice_net K peer)) x = (s, x')"
  obtain p w where x: "x = (p, w)" by (cases x)
  from hr_carries_rand [OF c [unfolded x]] r
  show "\<exists>v'. rand_Read wire_env v = (s, v') \<and> hr_carries K t ttl peer theirs own x' v' \<and> length s = 32"
    by (auto simp: x hr_dice_sel)
next
  fix x v m e x'
  assume c: "hr_carries K t ttl peer theirs own x v" and r: "peer_Send (hr_dice_env (dice_net K peer)) x m = (e, x')"
  obtain p w where x: "x = (p, w)" by (cases x)
  from hr_carries_send(1,3) [OF c [unfolded x], of m] r
  show "\<exists>v'. peer_Send wire_env v m = (e, v') \<and> hr_carries K t ttl peer theirs own x' v'" by (auto simp: x hr_dice_sel)
next
  fix x v r x'
  assume c: "hr_carries K t ttl peer theirs own x v" and r: "peer_Recv (hr_dice_env (dice_net K peer)) x = (r, x')"
  obtain p w where x: "x = (p, w)" by (cases x)
  from hr_carries_recv [OF c [unfolded x]] r
  show "\<exists>v'. peer_Recv wire_env v = (r, v') \<and> hr_carries K t ttl peer theirs own x' v'"
    by (cases "peer_Recv wire_env v") (auto simp: x hr_dice_sel)
qed

interpretation mirrored: dice_sim "hr_dice_env (mirror_net K peer)" mirror_env "hr_carries K t ttl peer own own"
  for K t ttl peer own
proof
  fix x y v s x'
  assume c: "hr_carries K t ttl peer own own x v" and r: "rand_Read (hr_dice_env (mirror_net K peer)) x = (s, x')"
  obtain p w where x: "x = (p, w)" by (cases x)
  from hr_carries_rand [OF c [unfolded x]] r
  show "\<exists>v'. rand_Read mirror_env v = (s, v') \<and> hr_carries K t ttl peer own own x' v' \<and> length s = 32"
    by (auto simp: x hr_dice_sel)
next
  fix x v m e x'
  assume c: "hr_carries K t ttl peer own own x v" and m: "valid_message m" and r: "peer_Send (hr_dice_env (mirror_net K peer)) x m = (e, x')"
  obtain p w where x: "x = (p, w)" by (cases x)
  from hr_carries_send(2) [OF c [unfolded x], of m] c m r
  show "\<exists>v'. peer_Send mirror_env v m = (e, v') \<and> hr_carries K t ttl peer own own x' v'"
    by (auto simp: x hr_dice_sel hr_carries_def valid_message_def)
next
  fix x v r x'
  assume c: "hr_carries K t ttl peer own own x v" and r: "peer_Recv (hr_dice_env (mirror_net K peer)) x = (r, x')"
  obtain p w where x: "x = (p, w)" by (cases x)
  from hr_carries_recv [OF c [unfolded x]] r
  show "\<exists>v'. peer_Recv mirror_env v = (r, v') \<and> hr_carries K t ttl peer own own x' v'"
    by (cases "peer_Recv wire_env v") (auto simp: x hr_dice_sel mirror_Recv)
qed

section \<open>One end of a roll\<close>

lemma hr_carries_start:
  assumes link: "sound_link K t DefaultVerifierTTL"
    and servers: "server_of K km addr i s" "server_of K km' addr' i' s'" and wf: "wf_secrets ns" "list_all wf_message ms"
  shows "hr_carries K t DefaultVerifierTTL i' s' s
    (hr_newPeer s (Some (NewVerifier DefaultVerifierTTL)),
     \<lparr>st_secrets = ns, st_reads = n, st_in = map (sign_dice K s') ms, st_out = [], st_acts = []\<rparr>)
    \<lparr>ww_secrets = ns, ww_in = map W_Dice ms, ww_out = [], ww_acts = []\<rparr>"
proof -
  let ?ver = "NewVerifier DefaultVerifierTTL"
  have "key_known (stream_env K i' :: hr_stream verify_env) (t + DefaultVerifierTTL) addr' (drop 32 (km_privateKey km')) (identityCache ?ver)"
    "DefaultVerifierTTL \<le> ic_ttl (identityCache ?ver)"
    using servers(2)
    by (simp_all add: key_known_def reports_key_def fetch_stream server_of_def NewVerifier_def NewIdentityCacheManager_def
        DefaultVerifierTTL_def)
  with link servers wf show ?thesis
    by (simp add: hr_carries_def hr_newPeer_def server_of_def list_all_iff) blast
qed

lemma dice_RollSync:
  assumes "roll d (rollSeed sha (ns 0) sec) = Inr rs" "1 \<le> n" "n \<le> 8"
  shows "RollSync sha d wire_env n \<lparr>ww_secrets = ns, ww_in = dice_part sha sec rs, ww_out = [], ww_acts = []\<rparr>
    = (Inr (take n rs), \<lparr>ww_secrets = later 1 ns, ww_in = [], ww_out = dice_part sha (ns 0) rs, ww_acts = roll_acts\<rparr>)"
  using assms(2,3) roll_Inr_length [OF assms(1)] wire_Roll [where ns = ns and rest = "[]" and out = "[] :: unit wire list" and acts = "[]", OF assms(1) refl]
  by (simp add: RollSync_def Roll_Get_def)

lemma mirror_RollSync:
  assumes "roll d (rollSeed sha (ns 0) (ns 0)) = Inr rs" "1 \<le> n" "n \<le> 8"
  shows "fst (RollSync sha d mirror_env n \<lparr>ww_secrets = ns, ww_in = [], ww_out = [], ww_acts = []\<rparr>) = Inr (take n rs)"
  using assms roll_Inr_length [OF assms(1)]
  by (simp add: RollSync_def Roll_Get_def Roll_def createSecretAndCommitment_def startExchange_def exchangeMessages_def
      confirmRoll_def verifyCommitment_def wire_dice_def message_mk_defs Let_def)

lemma hr_roll_ends:
  assumes link: "sound_link K t DefaultVerifierTTL"
    and servers: "server_of K km addr i s" "server_of K km' addr' i' s'" and wf: "wf_secrets ns" "length sec = 32"
    and n: "1 \<le> n" "n \<le> 8" and rolls: "roll die10 (rollSeed (lk_sha K) (ns 0) sec) = Inr rs"
  shows "\<exists>w. hr_roll (dice_net K i') km addr n
        \<lparr>st_secrets = ns, st_reads = r, st_in = map (sign_dice K s') (roll_messages (lk_sha K) sec rs), st_out = [], st_acts = []\<rparr>
      = (Inr (take n rs), w)
    \<and> st_in w = [] \<and> st_out w = map (sign_dice K s) (roll_messages (lk_sha K) (ns 0) rs) \<and> st_acts w = roll_acts"
proof -
  have sha: "hash32 (lk_sha K)" using link by (simp add: sound_link_def)
  have "list_all wf_message (roll_messages (lk_sha K) sec rs)"
    using roll_messages_valid [OF sha wf(2), of rs] roll_Inr_length [OF rolls] by (simp add: list_all_iff valid_message_def)
  note c = hr_carries_start [OF link servers wf(1) this, of r]
  let ?x = "(hr_newPeer s (Some (NewVerifier DefaultVerifierTTL)),
    \<lparr>st_secrets = ns, st_reads = r, st_in = map (sign_dice K s') (roll_messages (lk_sha K) sec rs), st_out = [], st_acts = []\<rparr>)"
  obtain res p w where x: "RollSync (lk_sha K) die10 (hr_dice_env (dice_net K i')) n ?x = (res, (p, w))" by (metis prod_cases3)
  from signed_high_roll.RollSync_sim [OF c sha x] dice_RollSync [where ns = ns, OF rolls n]
  have "res = Inr (take n rs)" "hr_carries K t DefaultVerifierTTL i' s' s (p, w)
      \<lparr>ww_secrets = later 1 ns, ww_in = [], ww_out = dice_part (lk_sha K) (ns 0) rs, ww_acts = roll_acts\<rparr>" by auto
  with x show ?thesis
    by (simp add: hr_roll_def server_pair [OF servers(1)] hr_newRoller_default hr_carries_def)
qed

lemma never_block_roll: "never_block roll_acts roll_acts"
  using honest_never_block [of True 0] by simp

text \<open>The answer of a challenger that has rolled \<open>rs\<close>.\<close>

definition high_roll_response :: "16 word list \<Rightarrow> challenge_response" where
  "high_roll_response rs =
     \<lparr>resp_Win = Some (rs ! 0 > rs ! 1), resp_Message = (if rs ! 0 = rs ! 1 then ''Draw!'' else '''')\<rparr>"

lemma HighRoll_Challenge_rolled:
  assumes "hr_roll N km addr 2 w = (Inr (take 2 rs), w1)" "length rs = 8"
  shows "HighRoll_Challenge N (\<lambda>w. (None, w)) (\<lambda>w. (None, w)) km addr w = (Inr (high_roll_response rs), w1)"
  using assms by (simp add: HighRoll_Challenge_def high_roll_response_def Let_def)

section \<open>Two servers, and one server with a mirror\<close>

text \<open>C5: two honest servers roll the same dice. Take two servers with sound keys and without an SQL
  store, secrets whose hash has enough entropy, and a clock within the lifetime of the entries. Each given the signed stream of the other, the challenger and the
  target, which know nothing of each other but fetch each other's key when the first message
  arrives, both succeed, each sends the stream that the other was given, and the answer is the
  comparison of the first two rolls of both secrets. However their sends and receives are
  interleaved, and if the stream has room for one message only, they do not deadlock.\<close>

theorem honest_high_roll:
  assumes link: "sound_link K t DefaultVerifierTTL"
    and servers: "server_of K kmA addrA idA sA" "server_of K kmB addrB idB sB"
    and secrets: "wf_secrets nsA" "wf_secrets nsB"
    and rolls: "roll die10 (rollSeed (lk_sha K) (nsA 0) (nsB 0)) = Inr rs"
  shows "\<exists>wA wB streamA streamB.
      HighRoll_Challenge (dice_net K idB) (\<lambda>w. (None, w)) (\<lambda>w. (None, w)) kmA addrA
        \<lparr>st_secrets = nsA, st_reads = nA, st_in = streamB, st_out = [], st_acts = []\<rparr> = (Inr (high_roll_response rs), wA)
    \<and> HighRoll_Roll (dice_net K idA) kmB addrB
        \<lparr>st_secrets = nsB, st_reads = nB, st_in = streamA, st_out = [], st_acts = []\<rparr> = (None, wB)
    \<and> st_in wA = [] \<and> st_out wA = streamA \<and> st_in wB = [] \<and> st_out wB = streamB
    \<and> never_block (st_acts wA) (st_acts wB)"
proof -
  from rolls have rolls': "roll die10 (rollSeed (lk_sha K) (nsB 0) (nsA 0)) = Inr rs" by (simp add: rollSeed_commute)
  have len: "length (nsA 0) = 32" "length (nsB 0) = 32" using secrets by simp_all
  obtain wA where A: "hr_roll (dice_net K idB) kmA addrA 2
      \<lparr>st_secrets = nsA, st_reads = nA, st_in = map (sign_dice K sB) (roll_messages (lk_sha K) (nsB 0) rs), st_out = [], st_acts = []\<rparr>
      = (Inr (take 2 rs), wA)"
    "st_in wA = []" "st_acts wA = roll_acts" "st_out wA = map (sign_dice K sA) (roll_messages (lk_sha K) (nsA 0) rs)"
    using hr_roll_ends [OF link servers secrets(1) len(2) _ _ rolls, of 2 nA] by auto
  obtain wB where B: "hr_roll (dice_net K idA) kmB addrB 1
      \<lparr>st_secrets = nsB, st_reads = nB, st_in = map (sign_dice K sA) (roll_messages (lk_sha K) (nsA 0) rs), st_out = [], st_acts = []\<rparr>
      = (Inr (take 1 rs), wB)"
    "st_in wB = []" "st_acts wB = roll_acts" "st_out wB = map (sign_dice K sB) (roll_messages (lk_sha K) (nsB 0) rs)"
    using hr_roll_ends [OF link servers(2,1) secrets(2) len(1) _ _ rolls', of 1 nB] by auto
  from HighRoll_Challenge_rolled [OF A(1) roll_Inr_length [OF rolls]] A(2-4) B show ?thesis
    by (intro exI [of _ wA] exI [of _ wB] exI [of _ "st_out wA"] exI [of _ "st_out wB"]) (simp add: HighRoll_Roll_def never_block_roll)
qed

text \<open>C13: a signature does not make an opponent. A mirror, which has no key and sends back every
  message it is sent, completes a challenge with any server that has no SQL store and whose
  secret's hash has enough entropy: the messages carry a valid
  signature, the server's own, and nothing checks whose it is.\<close>

theorem mirror_plays:
  assumes link: "sound_link K t DefaultVerifierTTL" and server: "server_of K km addr i s" and secrets: "wf_secrets ns"
    and rolls: "roll die10 (rollSeed (lk_sha K) (ns 0) (ns 0)) = Inr rs"
  shows "fst (HighRoll_Challenge (mirror_net K i) (\<lambda>w. (None, w)) (\<lambda>w. (None, w)) km addr
        \<lparr>st_secrets = ns, st_reads = n, st_in = [], st_out = [], st_acts = []\<rparr>)
      = Inr (high_roll_response rs)"
proof -
  have sha: "hash32 (lk_sha K)" using link by (simp add: sound_link_def)
  from hr_carries_start [OF link server server secrets, of "[]" n]
  have c: "hr_carries K t DefaultVerifierTTL i s s (hr_newPeer s (Some (NewVerifier DefaultVerifierTTL)),
      \<lparr>st_secrets = ns, st_reads = n, st_in = [], st_out = [], st_acts = []\<rparr>) \<lparr>ww_secrets = ns, ww_in = [], ww_out = [], ww_acts = []\<rparr>" by simp
  let ?x = "(hr_newPeer s (Some (NewVerifier DefaultVerifierTTL)), \<lparr>st_secrets = ns, st_reads = n, st_in = [], st_out = [], st_acts = []\<rparr>)"
  obtain res p w where x: "RollSync (lk_sha K) die10 (hr_dice_env (mirror_net K i)) 2 ?x = (res, (p, w))" by (metis prod_cases3)
  from mirrored.RollSync_sim [OF c sha x] mirror_RollSync [where ns = ns, OF rolls, of 2] have "res = Inr (take 2 rs)"
    by (metis fst_conv one_le_numeral numeral_le_iff semiring_norm(69,71,68))
  with x have "hr_roll (mirror_net K i) km addr 2 \<lparr>st_secrets = ns, st_reads = n, st_in = [], st_out = [], st_acts = []\<rparr> = (Inr (take 2 rs), w)"
    by (simp add: hr_roll_def server_pair [OF server] hr_newRoller_default)
  from HighRoll_Challenge_rolled [OF this roll_Inr_length [OF rolls]] show ?thesis by simp
qed

lemma example_mirror_roll:
  "\<exists>rs. roll die10 (rollSeed (lk_sha (example_link :: hr_link)) exampleA exampleA) = Inr rs"
proof -
  have "isl (roll die10 (rollSeed example_hash exampleA exampleA)) = False" by code_simp
  then show ?thesis by (cases "roll die10 (rollSeed example_hash exampleA exampleA)") (simp_all add: example_link_def)
qed

theorem honest_high_roll_witness:
  "\<exists>wA wB streamA streamB.
      HighRoll_Challenge (dice_net example_link (example_identity 2 ''bob:1'' ''s'')) (\<lambda>w. (None, w)) (\<lambda>w. (None, w))
        (keys_of 1 ''al:1'') ''al:1'' \<lparr>st_secrets = \<lambda>i. exampleA, st_reads = 0, st_in = streamB, st_out = [], st_acts = []\<rparr>
      = (Inr (high_roll_response [6, 2, 8, 4, 10, 6, 2, 8]), wA)
    \<and> HighRoll_Roll (dice_net example_link (example_identity 1 ''al:1'' ''s'')) (keys_of 2 ''bob:1'') ''bob:1''
        \<lparr>st_secrets = \<lambda>i. exampleB, st_reads = 0, st_in = streamA, st_out = [], st_acts = []\<rparr> = (None, wB)
    \<and> st_in wA = [] \<and> st_out wA = streamA \<and> st_in wB = [] \<and> st_out wB = streamB
    \<and> never_block (st_acts wA) (st_acts wB)"
  by (rule honest_high_roll [OF example_link_sound example_server_of example_server_of])
    (simp_all add: example_roll example_link_def)

theorem mirror_plays_witness:
  "\<exists>rs. fst (HighRoll_Challenge (mirror_net example_link (example_identity 1 ''al:1'' ''s'')) (\<lambda>w. (None, w)) (\<lambda>w. (None, w))
        (keys_of 1 ''al:1'') ''al:1'' \<lparr>st_secrets = \<lambda>i. exampleA, st_reads = 0, st_in = [], st_out = [], st_acts = []\<rparr>)
      = Inr (high_roll_response rs)"
proof -
  from example_mirror_roll obtain rs where "roll die10 (rollSeed (lk_sha (example_link :: hr_link)) exampleA exampleA) = Inr rs" ..
  from mirror_plays [OF example_link_sound example_server_of example_lengths(3) this, of "''al:1''" 1 0] show ?thesis by auto
qed

end
