(* ===== verification/App_Start.thy ===== *)
theory App_Start
  imports Srv_Services
begin

text \<open>
  Configuration and start-up (\<open>config/\<close>, \<open>ztg.go\<close>, \<open>server/server.go\<close>, opening and closing the
  store in \<open>identity/store/sqlstore.go\<close>): what a server does to the outside from its start to
  its end, as the list of its effects in order. The CUE and JSON/YAML libraries are parameters;
  how each operation of the outside answers is a \<open>host\<close>.
\<close>

section \<open>Configuration\<close>

record server_config =
  cfg_Port :: int
  cfg_LogLevel :: string

record database_config =
  cfg_URL :: string
  cfg_MaxConnections :: int
  cfg_MinConnections :: int
  cfg_MaxConnLifetime :: int
  cfg_MaxConnIdleTime :: int

record config =
  cfg_Server :: server_config
  cfg_Identity :: identity_config
  cfg_Database :: database_config

definition zero_config :: config where
  "zero_config =
     \<lparr>cfg_Server = \<lparr>cfg_Port = 0, cfg_LogLevel = ''''\<rparr>,
      cfg_Identity = \<lparr>cfg_ServerName = '''', cfg_OwnerName = '''', cfg_OwnerPublicKey = '''',
        cfg_OwnerPublicKeyFile = '''', cfg_PrivateKey = '''', cfg_PrivateKeyFile = '''', cfg_ServerAddress = '''',
        cfg_ForceExample = False\<rparr>,
      cfg_Database = \<lparr>cfg_URL = '''', cfg_MaxConnections = 0, cfg_MinConnections = 0, cfg_MaxConnLifetime = 0,
        cfg_MaxConnIdleTime = 0\<rparr>\<rparr>"

record 'v cue_lib =
  cue_CompileString :: "'v res"
  cue_Encode :: "config \<Rightarrow> 'v res"
  cue_Unify :: "'v \<Rightarrow> 'v \<Rightarrow> 'v res"
  cue_Validate :: "'v \<Rightarrow> go_error option"

definition Config_Validate :: "'v cue_lib \<Rightarrow> config \<Rightarrow> go_error option" where
  "Config_Validate cue c =
     (case cue_CompileString cue of
        Inl e \<Rightarrow> Some (wrapf ''failed to compile CUE schema: %w'' e)
      | Inr schema \<Rightarrow>
     (case cue_Encode cue c of
        Inl e \<Rightarrow> Some (wrapf ''failed to encode config: %w'' e)
      | Inr configValue \<Rightarrow>
     (case cue_Unify cue schema configValue of
        Inl e \<Rightarrow> Some (wrapf ''config validation failed: %w'' e)
      | Inr unified \<Rightarrow> map_option (wrapf ''config validation failed: %w'') (cue_Validate cue unified))))"

text \<open>\<open>filepath.Ext\<close>: from the last dot of the last element on.\<close>

definition filepath_Ext :: "string \<Rightarrow> string" where
  "filepath_Ext path =
     (let base = takeWhile (\<lambda>c. c \<noteq> CHR ''/'') (rev path) in
      if CHR ''.'' \<in> set base then CHR ''.'' # rev (takeWhile (\<lambda>c. c \<noteq> CHR ''.'') base) else '''')"

definition LoadFromFile ::
    "(string \<Rightarrow> config res) \<Rightarrow> (string \<Rightarrow> config res) \<Rightarrow> filesystem \<Rightarrow> string \<Rightarrow> config res" where
  "LoadFromFile yaml json fs path =
     (case ReadFile fs path of
        Inl e \<Rightarrow> Inl e
      | Inr data \<Rightarrow>
          (let ext = ToLower (filepath_Ext path) in
           if ext = ''.yaml'' \<or> ext = ''.yml'' then yaml data
           else if ext = ''.json'' then json data
           else json data))"

definition SaveToFile :: "(config \<Rightarrow> string res) \<Rightarrow> config \<Rightarrow> string \<Rightarrow> filesystem \<Rightarrow> go_error option \<times> filesystem" where
  "SaveToFile marshal cfg path fs =
     (case marshal cfg of Inl e \<Rightarrow> (Some e, fs) | Inr data \<Rightarrow> WriteFile fs path data)"

text \<open>The error of \<open>envconfig.Process\<close> is dropped; what it set before failing stays.\<close>

definition LoadFromEnv :: "(config \<Rightarrow> go_error option \<times> config) \<Rightarrow> config \<Rightarrow> config" where
  "LoadFromEnv process cfg = snd (process cfg)"

definition LoadConfig :: "'v cue_lib \<Rightarrow> (config \<Rightarrow> go_error option \<times> config) \<Rightarrow> config res" where
  "LoadConfig cue process =
     (let cfg = LoadFromEnv process zero_config in
      case Config_Validate cue cfg of
        Some e \<Rightarrow> Inl (wrapf ''invalid config: %w'' e)
      | None \<Rightarrow> Inr cfg)"

section \<open>Effects\<close>

text \<open>\<open>E_Serve\<close> comes with the names of the services that are registered with the gRPC server by then.\<close>

datatype effect = E_Open string | E_Ping | E_Listen int | E_Serve "string list" | E_Close | E_GracefulStop

text \<open>How the select of \<open>Server.Run\<close> ends: the context is cancelled, or serving returns. The services that
  the reflection library adds are up to the library.\<close>

datatype run_end = Cancelled go_error | Served "go_error option"

record host =
  host_Open :: "go_error option"
  host_Ping :: "go_error option"
  host_Listen :: "go_error option"
  host_Reflection :: "string list"
  host_Close :: "go_error option"
  host_End :: run_end

definition NewSQLStore :: "host \<Rightarrow> database_config \<Rightarrow> effect list \<Rightarrow> go_error option \<times> effect list" where
  "NewSQLStore h cfg tr =
     (case host_Open h of
        Some e \<Rightarrow> (Some (wrapf ''failed to open database: %w'' e), tr @ [E_Open (cfg_URL cfg)])
      | None \<Rightarrow>
          (map_option (wrapf ''failed to ping database: %w'') (host_Ping h), tr @ [E_Open (cfg_URL cfg), E_Ping]))"

definition SQLStore_Close :: "host \<Rightarrow> effect list \<Rightarrow> go_error option \<times> effect list" where
  "SQLStore_Close h tr = (host_Close h, tr @ [E_Close])"

section \<open>The server\<close>

text \<open>The gRPC server is the list of the services registered with it, in order.\<close>

record 'w app_server =
  srv_services :: "string list"
  srv_level :: log_level
  srv_store :: bool
  srv_registry :: "'w registry"
  srv_cancelled :: bool

definition core_services :: "host \<Rightarrow> string list" where
  "core_services h = [''game.v1.GameService'', ''identity.v1.IdentityService''] @ host_Reflection h"

definition NewServer ::
    "host \<Rightarrow> key_codec \<Rightarrow> filesystem \<Rightarrow> bytes option \<Rightarrow> server_config \<Rightarrow> database_config \<Rightarrow> key_manager
     \<Rightarrow> effect list \<Rightarrow> 'w app_server res \<times> effect list" where
  "NewServer h C fs cache serverConfig databaseConfig km tr =
     (case ValidateKeyUsage C fs cache (km_publicKey km) of
        Some e \<Rightarrow> (Inl e, tr)
      | None \<Rightarrow>
     (case (if cfg_URL databaseConfig \<noteq> '''' then NewSQLStore h databaseConfig tr else (None, tr)) of
        (Some e, tr1) \<Rightarrow> (Inl (wrapf ''failed to initialize SQL store: %w'' e), tr1)
      | (None, tr1) \<Rightarrow>
     (case host_Listen h of
        Some e \<Rightarrow> (Inl (wrapf ''failed to bind gRPC server on %s: %w'' e), tr1 @ [E_Listen (cfg_Port serverConfig)])
      | None \<Rightarrow>
          (Inr \<lparr>srv_services = core_services h, srv_level = parseLogLevel (cfg_LogLevel serverConfig), srv_store = (cfg_URL databaseConfig \<noteq> ''''),
                srv_registry = newRegistry, srv_cancelled = False\<rparr>,
           tr1 @ [E_Listen (cfg_Port serverConfig)]))))"

definition Server_Register :: "'w game \<Rightarrow> 'w app_server \<Rightarrow> 'w app_server" where
  "Server_Register g s = s\<lparr>srv_services := srv_services s @ [game_Register g], srv_registry := registerGame (srv_registry s) g\<rparr>"

text \<open>The store is closed before the running requests have ended.\<close>

definition Server_Stop :: "host \<Rightarrow> 'w app_server \<Rightarrow> effect list \<Rightarrow> 'w app_server \<times> effect list" where
  "Server_Stop h s tr =
     (let s1 = s\<lparr>srv_cancelled := True\<rparr>;
          tr1 = (if srv_store s1 then snd (SQLStore_Close h tr) else tr)
      in (s1, tr1 @ [E_GracefulStop]))"

definition Server_Run :: "host \<Rightarrow> 'w app_server \<Rightarrow> effect list \<Rightarrow> go_error option \<times> effect list" where
  "Server_Run h s tr =
     (let tr1 = tr @ [E_Serve (srv_services s)] in
      case host_End h of
        Cancelled e \<Rightarrow> (Some e, snd (Server_Stop h s tr1))
      | Served e \<Rightarrow> (e, tr1))"

text \<open>The options of \<open>Run\<close>: each makes a game from the server's keys and configuration and
  registers it.\<close>

type_synonym 'w app_option = "key_manager \<Rightarrow> config \<Rightarrow> 'w game"

definition apply_options :: "key_manager \<Rightarrow> config \<Rightarrow> 'w app_option list \<Rightarrow> 'w app_server \<Rightarrow> 'w app_server" where
  "apply_options km cfg opts s = foldl (\<lambda>s opt. Server_Register (opt km cfg) s) s opts"

definition App_Run ::
    "'v cue_lib \<Rightarrow> host \<Rightarrow> key_codec \<Rightarrow> filesystem \<Rightarrow> bytes option \<Rightarrow> config \<Rightarrow> 'w app_option list \<Rightarrow> effect list
     \<Rightarrow> go_error option \<times> effect list" where
  "App_Run cue h C fs cache cfg opts tr =
     (case Config_Validate cue cfg of
        Some e \<Rightarrow> (Some (wrapf ''invalid config: %w'' e), tr)
      | None \<Rightarrow>
     (case NewKeyManager C fs cache (cfg_Identity cfg) of
        Inl e \<Rightarrow> (Some (wrapf ''failed to initialize key manager: %w'' e), tr)
      | Inr (km, cache1) \<Rightarrow>
     (case NewServer h C fs cache1 (cfg_Server cfg) (cfg_Database cfg) km tr of
        (Inl e, tr1) \<Rightarrow> (Some (wrapf ''server initialization failed: %w'' e), tr1)
      | (Inr s, tr1) \<Rightarrow> Server_Run h (apply_options km cfg opts s) tr1)))"

section \<open>What a run does\<close>

lemma apply_options_simps [simp]:
  "srv_store (apply_options km cfg opts s) = srv_store s"
  "srv_services (apply_options km cfg opts s) = srv_services s @ map (\<lambda>opt. game_Register (opt km cfg)) opts"
  by (induction opts arbitrary: s) (simp_all add: apply_options_def Server_Register_def)

text \<open>The run gets as far as opening the store: configuration and keys are good.\<close>

definition ready :: "'v cue_lib \<Rightarrow> key_codec \<Rightarrow> filesystem \<Rightarrow> bytes option \<Rightarrow> config \<Rightarrow> bool" where
  "ready cue C fs cache cfg \<longleftrightarrow>
     Config_Validate cue cfg = None
   \<and> (\<exists>km cache1. NewKeyManager C fs cache (cfg_Identity cfg) = Inr (km, cache1)
        \<and> ValidateKeyUsage C fs cache1 (km_publicKey km) = None)"

text \<open>What a server with these options serves: the core services, and one for each option, in order.\<close>

definition served_services ::
    "host \<Rightarrow> key_codec \<Rightarrow> filesystem \<Rightarrow> bytes option \<Rightarrow> config \<Rightarrow> 'w app_option list \<Rightarrow> string list" where
  "served_services h C fs cache cfg opts =
     (case NewKeyManager C fs cache (cfg_Identity cfg) of
        Inl e \<Rightarrow> []
      | Inr (km, cache1) \<Rightarrow> core_services h @ map (\<lambda>opt. game_Register (opt km cfg)) opts)"

lemma App_Run_trace:
  "snd (App_Run cue h C fs cache cfg opts tr) =
     (let url = cfg_URL (cfg_Database cfg); port = cfg_Port (cfg_Server cfg);
          opened = (url = '''' \<or> host_Open h = None \<and> host_Ping h = None) in
      if \<not> ready cue C fs cache cfg then tr
      else tr @ (if url = '''' then [] else if host_Open h = None then [E_Open url, E_Ping] else [E_Open url])
        @ (if \<not> opened then [] else E_Listen port #
            (if host_Listen h \<noteq> None then [] else E_Serve (served_services h C fs cache cfg opts) #
              (case host_End h of
                 Served e \<Rightarrow> []
               | Cancelled e \<Rightarrow> (if url = '''' then [] else [E_Close]) @ [E_GracefulStop]))))"
proof (cases "Config_Validate cue cfg")
  case (Some e)
  then show ?thesis by (simp add: App_Run_def ready_def)
next
  case None
  show ?thesis
  proof (cases "NewKeyManager C fs cache (cfg_Identity cfg)")
    case (Inl e)
    with None show ?thesis by (simp add: App_Run_def ready_def)
  next
    case (Inr x)
    obtain km cache1 where x: "x = (km, cache1)" by fastforce
    show ?thesis
    proof (cases "ValidateKeyUsage C fs cache1 (km_publicKey km)")
      case (Some e)
      with None Inr x show ?thesis by (simp add: App_Run_def ready_def NewServer_def)
    next
      case valid: None
      then have r: "ready cue C fs cache cfg" using None Inr x by (simp add: ready_def)
      show ?thesis
        using None Inr x valid r
        by (cases "host_Open h"; cases "host_Ping h"; cases "host_Listen h"; cases "host_End h")
          (simp_all add: App_Run_def NewServer_def NewSQLStore_def Server_Run_def Server_Stop_def SQLStore_Close_def served_services_def)
    qed
  qed
qed

text \<open>C36: a run touches nothing before its configuration and keys are good, serves only when
  everything is registered, and gives the store back only when it is cancelled. An invalid
  configuration or unreadable keys have no effect at all; when serving starts, the two core
  services (those that \<open>core_services\<close> lists) and that of every option are registered, in this order; a run that opened the store
  closes it exactly when it got to serve and was cancelled (not when the port is taken, nor when
  serving fails), and then before the running requests have ended.\<close>

theorem run_effects:
  "let tr = snd (App_Run cue h C fs cache cfg opts []);
       serve = E_Serve (served_services h C fs cache cfg opts) in
     (tr = [] \<longleftrightarrow> \<not> ready cue C fs cache cfg)
   \<and> {ss. E_Serve ss \<in> set tr} \<subseteq> {served_services h C fs cache cfg opts}
   \<and> (E_Close \<in> set tr \<longleftrightarrow> E_Ping \<in> set tr \<and> E_GracefulStop \<in> set tr)
   \<and> (E_GracefulStop \<in> set tr \<longleftrightarrow> serve \<in> set tr \<and> (\<exists>e. host_End h = Cancelled e))
   \<and> (E_Close \<in> set tr \<longleftrightarrow> (\<exists>us. tr = us @ [E_Close, E_GracefulStop]))"
  by (cases "host_End h") (auto simp: App_Run_trace Let_def)

section \<open>Which game a challenge reaches\<close>

lemma registry_after_options:
  "registry_challenge (srv_registry (apply_options km cfg opts s)) i =
     (case find (\<lambda>opt. game_ID (opt km cfg) = i) (rev opts) of
        Some opt \<Rightarrow> Some (game_Challenge (opt km cfg))
      | None \<Rightarrow> registry_challenge (srv_registry s) i)"
  by (induction opts rule: rev_induct)
    (auto simp: apply_options_def Server_Register_def registry_challenge_register)

end
