(* ===== verification/Cmd_Requests.thy ===== *)
theory Cmd_Requests
  imports Srv_Services
begin

text \<open>
  The command line (\<open>cmd/challenge\<close>, \<open>cmd/trust\<close>, \<open>cmd/identity\<close>): the requests that the
  commands build, sign and send. The flags are the arguments; the flag tables and what is
  printed are left out. The remote procedure is a parameter. The lemmas compare the requests
  with what the server's handlers accept.
\<close>

section \<open>The tools of a command\<close>

record 'w cmd_env =
  cmd_codec :: key_codec
  cmd_fs :: filesystem
  cmd_example :: "bytes option"
  cmd_ed :: ed25519
  cmd_sha :: "bytes \<Rightarrow> bytes"
  cmd_dial :: "string \<Rightarrow> 'w \<Rightarrow> go_error option \<times> 'w"
  cmd_now :: "'w \<Rightarrow> int \<times> 'w"

text \<open>The key manager and the signer that a command makes from a configuration.\<close>

definition cmd_signer :: "'w cmd_env \<Rightarrow> identity_config \<Rightarrow> string \<Rightarrow> id_signer res" where
  "cmd_signer E cfg signerAddr =
     (case NewKeyManager (cmd_codec E) (cmd_fs E) (cmd_example E) cfg of
        Inl e \<Rightarrow> Inl (wrapf ''failed to create key manager: %w'' e)
      | Inr (km, ex) \<Rightarrow> identity_NewSigner (km_privateKey km) signerAddr)"

text \<open>\<open>send\<close> leaves the owner's key to its default, the example key file.\<close>

definition send_cfg :: "string \<Rightarrow> identity_config" where
  "send_cfg keyPath =
     \<lparr>cfg_ServerName = '''', cfg_OwnerName = '''', cfg_OwnerPublicKey = '''', cfg_OwnerPublicKeyFile = '''',
      cfg_PrivateKey = '''', cfg_PrivateKeyFile = keyPath, cfg_ServerAddress = ''owner'', cfg_ForceExample = False\<rparr>"

definition create_cfg :: "string \<Rightarrow> string \<Rightarrow> identity_config" where
  "create_cfg keyPath serverAddr =
     (send_cfg keyPath)\<lparr>cfg_OwnerPublicKeyFile := examplePubKeyPath, cfg_ServerAddress := serverAddr\<rparr>"

text \<open>The connection and the call, after the request has been built.\<close>

definition cmd_call ::
    "'w cmd_env \<Rightarrow> string \<Rightarrow> string \<Rightarrow> ('r \<Rightarrow> 'w \<Rightarrow> 'a res \<times> 'w) \<Rightarrow> 'r res \<Rightarrow> 'w \<Rightarrow> 'a res \<times> 'w" where
  "cmd_call E err serverAddr rpc req w =
     (case req of
        Inl e \<Rightarrow> (Inl e, w)
      | Inr r \<Rightarrow>
     (case cmd_dial E serverAddr w of
        (Some e, w1) \<Rightarrow> (Inl (wrapf ''failed to connect to target server: %w'' e), w1)
      | (None, w1) \<Rightarrow>
     (case rpc r w1 of
        (Inl e, w2) \<Rightarrow> (Inl (wrapf err e), w2)
      | (Inr x, w2) \<Rightarrow> (Inr x, w2))))"

section \<open>Trust\<close>

definition trust_request ::
    "'w cmd_env \<Rightarrow> identity_config \<Rightarrow> string \<Rightarrow> bytes \<Rightarrow> string \<Rightarrow> bool \<Rightarrow> set_trust_request res" where
  "trust_request E cfg signerAddr message peer trusted =
     (case cmd_signer E cfg signerAddr of
        Inl e \<Rightarrow> Inl e
      | Inr signer \<Rightarrow>
     (case SignMessage (cmd_sha E) (cmd_ed E) signer message of
        Inl e \<Rightarrow> Inl (wrapf ''failed to sign message: %w'' e)
      | Inr sg \<Rightarrow> Inr \<lparr>st_ServerAddress = peer, st_Trusted = trusted, st_Signature = Some sg\<rparr>))"

definition sendTrustRequest ::
    "'w cmd_env \<Rightarrow> string \<Rightarrow> (set_trust_request \<Rightarrow> 'w \<Rightarrow> unit res \<times> 'w) \<Rightarrow> string \<Rightarrow> string \<Rightarrow> bool \<Rightarrow> 'w
     \<Rightarrow> unit res \<times> 'w" where
  "sendTrustRequest E keyPath rpc serverAddr peer trusted w =
     cmd_call E ''set trust request failed: %w'' serverAddr rpc
       (trust_request E (send_cfg keyPath) ''owner'' (set_trust_message peer trusted) peer trusted) w"

text \<open>\<open>trust create\<close> signs the server's address in place of the peer's.\<close>

definition createTrustRequest ::
    "'w cmd_env \<Rightarrow> string \<Rightarrow> string \<Rightarrow> string \<Rightarrow> bool \<Rightarrow> set_trust_request res" where
  "createTrustRequest E keyPath serverAddr peer trusted =
     trust_request E (create_cfg keyPath serverAddr) serverAddr (set_trust_message serverAddr trusted) peer trusted"

section \<open>Challenges\<close>

definition challenge_message ::
    "'w cmd_env \<Rightarrow> identity_config \<Rightarrow> string \<Rightarrow> (challenge_request \<Rightarrow> bytes res) \<Rightarrow> string \<Rightarrow> string \<Rightarrow> signed_challenge res" where
  "challenge_message E cfg signerAddr marshal target gameID =
     (case cmd_signer E cfg signerAddr of
        Inl e \<Rightarrow> Inl e
      | Inr signer \<Rightarrow>
          let req = \<lparr>ch_Target = target, ch_GameId = gameID\<rparr> in
     (case SignProto (cmd_sha E) (cmd_ed E) marshal signer req of
        Inl e \<Rightarrow> Inl (wrapf ''failed to sign message: %w'' e)
      | Inr sg \<Rightarrow> Inr \<lparr>sc_Challenge = Some req, sc_Signature = Some sg\<rparr>))"

definition sendChallenge ::
    "'w cmd_env \<Rightarrow> string \<Rightarrow> (challenge_request \<Rightarrow> bytes res)
     \<Rightarrow> (signed_challenge \<Rightarrow> 'w \<Rightarrow> challenge_response res \<times> 'w) \<Rightarrow> string \<Rightarrow> string \<Rightarrow> string \<Rightarrow> 'w
     \<Rightarrow> challenge_response res \<times> 'w" where
  "sendChallenge E keyPath marshal rpc serverAddr target gameID w =
     cmd_call E ''challenge request failed: %w'' serverAddr rpc
       (challenge_message E (send_cfg keyPath) ''owner'' marshal target gameID) w"

definition createChallenge ::
    "'w cmd_env \<Rightarrow> string \<Rightarrow> (challenge_request \<Rightarrow> bytes res) \<Rightarrow> string \<Rightarrow> string \<Rightarrow> string \<Rightarrow> signed_challenge res" where
  "createChallenge E keyPath marshal serverAddr target gameID =
     challenge_message E (create_cfg keyPath serverAddr) serverAddr marshal target gameID"

section \<open>Identities\<close>

definition hex_value :: "char \<Rightarrow> nat option" where
  "hex_value c =
     (let n = of_char c :: nat in
      if 48 \<le> n \<and> n \<le> 57 then Some (n - 48)
      else if 97 \<le> n \<and> n \<le> 102 then Some (n - 87)
      else if 65 \<le> n \<and> n \<le> 70 then Some (n - 55)
      else None)"

fun hex_DecodeString :: "string \<Rightarrow> bytes res" where
  "hex_DecodeString [] = Inr []"
| "hex_DecodeString [c] =
     (if hex_value c = None then Inl (Errorf ''encoding/hex: invalid byte'')
      else Inl (Errorf ''encoding/hex: odd length hex string''))"
| "hex_DecodeString (a # b # s) =
     (case (hex_value a, hex_value b) of
        (Some x, Some y) \<Rightarrow>
          (case hex_DecodeString s of Inl e \<Rightarrow> Inl e | Inr r \<Rightarrow> Inr (of_nat (16 * x + y) # r))
      | _ \<Rightarrow> Inl (Errorf ''encoding/hex: invalid byte''))"

text \<open>Hexadecimal first, with or without \<open>0x\<close>, then base64, which is a parameter.\<close>

definition decode_key :: "(string \<Rightarrow> bytes res) \<Rightarrow> string \<Rightarrow> bytes res" where
  "decode_key base64 s =
     (let h = (if take 2 (ToLower s) = ''0x'' then drop 2 s else s) in
      case hex_DecodeString h of
        Inr b \<Rightarrow> Inr b
      | Inl _ \<Rightarrow>
          (case base64 h of
             Inl e \<Rightarrow> Inl (wrapf ''failed to decode public key as hex or base64: %w'' e)
           | Inr b \<Rightarrow> Inr b))"

definition identity_message ::
    "'w cmd_env \<Rightarrow> (string \<Rightarrow> bytes res) \<Rightarrow> string \<Rightarrow> string \<Rightarrow> string \<Rightarrow> string \<Rightarrow> 'w \<Rightarrow> identity res \<times> 'w" where
  "identity_message E base64 peerAddr peerName owner key w =
     (case decode_key base64 key of
        Inl e \<Rightarrow> (Inl e, w)
      | Inr pub \<Rightarrow>
          let (now, w1) = cmd_now E w in
          (Inr \<lparr>PublicKey = pub, ServerAddress = peerAddr, ServerName = peerName, OwnerName = owner,
                Capabilities = [''ztg.FactorFight.v1'', ''ztg.HighRoll.v1''], CreatedAt = Some now,
                IsTrusted = False, TrustUpdatedAt = None\<rparr>, w1))"

definition addIdentity ::
    "'w cmd_env \<Rightarrow> (string \<Rightarrow> bytes res) \<Rightarrow> (identity \<Rightarrow> 'w \<Rightarrow> unit res \<times> 'w)
     \<Rightarrow> string \<Rightarrow> string \<Rightarrow> string \<Rightarrow> string \<Rightarrow> string \<Rightarrow> 'w \<Rightarrow> unit res \<times> 'w" where
  "addIdentity E base64 rpc serverAddr peerAddr peerName owner key w =
     (case identity_message E base64 peerAddr peerName owner key w of
        (r, w1) \<Rightarrow> cmd_call E ''add identity request failed: %w'' serverAddr rpc r w1)"

section \<open>Requests and handlers\<close>

lemma hex_value_digit: "n < 16 \<Longrightarrow> hex_value (hex_digit n) = Some n"
  by (auto simp: hex_value_def hex_digit_def Let_def of_char_of)

lemma hex_DecodeString_hex: "hex_DecodeString (hex b) = Inr b"
proof (induction b)
  case (Cons x b)
  have "unat x < 256" using unsigned_less [of x, where ?'a = nat] by simp
  then have "hex_value (hex_digit (unat x div 16)) = Some (unat x div 16)"
    "hex_value (hex_digit (unat x mod 16)) = Some (unat x mod 16)"
    by (simp_all add: hex_value_digit less_mult_imp_div_less)
  moreover have "of_nat (16 * (unat x div 16) + unat x mod 16) = x" by simp
  ultimately show ?case using Cons by (simp add: hex_def del: of_nat_add of_nat_mult)
qed (simp add: hex_def)

text \<open>Keys can be given in hexadecimal. \<open>identity add\<close> reads the hexadecimal form of any key
  back as that key, with and without the prefix \<open>0x\<close>, whatever base64 makes of it.\<close>

theorem decode_key_hex:
  "decode_key base64 (hex b) = Inr b \<and> decode_key base64 (''0x'' @ hex b) = Inr b"
proof -
  have "take 2 (ToLower (hex b)) \<noteq> ''0x''"
  proof (cases b)
    case (Cons x b')
    have "unat x mod 16 < 16" by simp
    then have digit: "hex_value (hex_digit (unat x mod 16)) \<noteq> None" by (simp add: hex_value_digit)
    have no_x: "hex_value c = None" if "to_lower c = CHR ''x''" for c
    proof (cases "65 \<le> (of_char c :: nat) \<and> of_char c \<le> (90 :: nat)")
      case True
      with that have "char_of (of_char c + 32 :: nat) = CHR ''x''" by (simp add: to_lower_def Let_def)
      then have "of_char (char_of (of_char c + 32 :: nat)) = (of_char CHR ''x'' :: nat)" by (rule arg_cong)
      with True show ?thesis by (simp add: of_char_of hex_value_def Let_def)
    next
      case False
      with that have "c = CHR ''x''" by (auto simp: to_lower_def Let_def)
      then show ?thesis by (simp add: hex_value_def)
    qed
    have "to_lower (hex_digit (unat x mod 16)) \<noteq> CHR ''x''"
    proof
      assume "to_lower (hex_digit (unat x mod 16)) = CHR ''x''"
      from no_x [OF this] digit show False by (rule notE [rotated])
    qed
    moreover have "take 2 (ToLower (hex b)) =
        [to_lower (hex_digit (unat x div 16)), to_lower (hex_digit (unat x mod 16))]"
      by (simp only: Cons hex_def ToLower_def list.map concat.simps append_Cons append_Nil
          take_Suc_Cons take_0 numeral_2_eq_2)
    ultimately show ?thesis by (metis list.inject)
  qed (simp add: hex_def ToLower_def)
  moreover have "take 2 (ToLower (''0x'' @ hex b)) = ''0x''" by (simp add: ToLower_def to_lower_def)
  ultimately show ?thesis by (simp add: decode_key_def hex_DecodeString_hex)
qed

text \<open>The server's end of a \<open>SetTrust\<close> call.\<close>

definition SetTrust_rpc ::
    "'w verify_env \<Rightarrow> key_manager \<Rightarrow> set_trust_request \<Rightarrow> 'w \<Rightarrow> unit res \<times> 'w" where
  "SetTrust_rpc env km req w =
     (case SetTrust env km req w of (None, w') \<Rightarrow> (Inr (), w') | (Some e, w') \<Rightarrow> (Inl e, w'))"

lemma cmd_signer_InrD: "cmd_signer E cfg a = Inr s \<Longrightarrow> signer_address s = a"
  by (auto simp: cmd_signer_def split: sum.splits dest: identity_NewSigner_InrD)

lemma trust_request_ok:
  assumes "cmd_signer E cfg a = Inr s" "ed_correct (cmd_ed E) (privateKey s)"
  shows "\<exists>sg. trust_request E cfg a m peer t = Inr \<lparr>st_ServerAddress = peer, st_Trusted = t, st_Signature = Some sg\<rparr>
    \<and> SignerAddress sg = a \<and> sig_Signature sg = ed_Sign (cmd_ed E) (privateKey s) (cmd_sha E m)"
  using assms cmd_signer_InrD [OF assms(1)]
  by (simp add: trust_request_def SignMessage_def identity_Sign_def ed25519_Sign_def ed_correct_def)

text \<open>C26: the owner's command sets trust. When the key file holds the key whose public half the
  server has as its owner's, \<open>trust send\<close> succeeds; every key that the server's store has for the
  peer then has the given trust, no key is added or removed, and nothing changes for any other
  address. So a lookup of the peer reports the given trust, and where there is only one key for an
  address, that key.\<close>

theorem trust_send_sets_trust:
  assumes signer: "cmd_signer E (send_cfg keyPath) ''owner'' = Inr s" "ed_correct (cmd_ed E) (privateKey s)"
      "\<forall>m. ed_Sign (cmd_ed E) (privateKey s) m \<noteq> []"
    and server: "env = server_env j (cmd_ed E) (cmd_sha E) net" "json_ok j"
      "ownerPublicKey km = drop 32 (privateKey s)"
    and dial: "cmd_dial E serverAddr w = (None, w1)" "sql_inv j (sw_db w1)" "db_up (sw_db w1)"
    and send: "sendTrustRequest E keyPath (SetTrust_rpc env km) serverAddr peer t w = (r, w')"
  shows "r = Inr ()
    \<and> db_stored (sw_db w') b = (if b = peer then (\<lambda>(k, _). (k, t)) ` db_stored (sw_db w1) b else db_stored (sw_db w1) b)
    \<and> map_option snd (known (SQLStore j) (sw_db w') peer) = map_option (\<lambda>_. t) (known (SQLStore j) (sw_db w1) peer)
    \<and> (card (db_stored (sw_db w1) b) \<le> 1 \<longrightarrow> known (SQLStore j) (sw_db w') b
        = (if b = peer then map_option (\<lambda>(k, _). (k, t)) (known (SQLStore j) (sw_db w1) b)
           else known (SQLStore j) (sw_db w1) b))"
proof -
  from trust_request_ok [OF signer(1,2), of "set_trust_message peer t" peer t] obtain sg where
    req: "trust_request E (send_cfg keyPath) ''owner'' (set_trust_message peer t) peer t =
      Inr \<lparr>st_ServerAddress = peer, st_Trusted = t, st_Signature = Some sg\<rparr>"
    and sg: "SignerAddress sg = ''owner''"
      "sig_Signature sg = ed_Sign (cmd_ed E) (privateKey s) (cmd_sha E (set_trust_message peer t))" by blast
  obtain e w2 where set: "SetTrust env km \<lparr>st_ServerAddress = peer, st_Trusted = t, st_Signature = Some sg\<rparr> w1
      = (e, w2)" by fastforce
  have "length (ownerPublicKey km) = 32" "sig_Signature sg \<noteq> []"
    "ed_Verify (cmd_ed E) (ownerPublicKey km) (cmd_sha E (set_trust_message peer t)) (sig_Signature sg)"
    using signer(2,3) server(3) sg(2) by (simp_all add: ed_correct_def)
  note owner = owner_sets_trust [OF server(1,2) dial(2,3) sg(1) this(2,1) set] this(3)
  then have "e = None" by blast
  with send req dial(1) set have "r = Inr ()" "w' = w2"
    by (auto simp: sendTrustRequest_def cmd_call_def SetTrust_rpc_def)
  note st = owner(1) [unfolded \<open>w' = w2\<close> [symmetric]]
  have inv: "sql_inv j (sw_db w')" "db_up (sw_db w')" using st by blast+
  note after = SQLStore_identity_store [OF server(2)] inv and before = SQLStore_identity_store [OF server(2)] dial(2,3)
  have stored: "db_stored (sw_db w') a = (if a = peer then (\<lambda>(k, _). (k, t)) ` db_stored (sw_db w1) a else db_stored (sw_db w1) a)"
    for a using st [of a] \<open>e = None\<close> by simp
  have "map_option snd (known (SQLStore j) (sw_db w') peer) = map_option (\<lambda>_. t) (known (SQLStore j) (sw_db w1) peer)"
    using identity_store.unknown_iff [OF before, of peer] identity_store.unknown_iff [OF after, of peer]
      identity_store.known_stored [OF after, of peer] stored [of peer]
    by (cases "known (SQLStore j) (sw_db w1) peer"; cases "known (SQLStore j) (sw_db w') peer") auto
  moreover have "known (SQLStore j) (sw_db w') b = (if b = peer then map_option (\<lambda>(k, _). (k, t)) (known (SQLStore j) (sw_db w1) b)
      else known (SQLStore j) (sw_db w1) b)" if "card (db_stored (sw_db w1) b) \<le> 1"
  proof (cases "db_stored (sw_db w1) b = {}")
    case True
    then show ?thesis
      using identity_store.unknown_iff [OF before, of b] identity_store.unknown_iff [OF after, of b] stored [of b]
      by (cases "b = peer") simp_all
  next
    case False
    with that have "card (db_stored (sw_db w1) b) = 1"
      by (simp add: db_stored_def le_Suc_eq)
    then obtain k s where "db_stored (sw_db w1) b = {(k, s)}" by (auto simp: card_1_singleton_iff)
    then show ?thesis
      using identity_store.sole_known [OF before, of b "(k, s)"] identity_store.sole_known [OF after, of b "(k, if b = peer then t else s)"]
        stored [of b] by (cases "b = peer") simp_all
  qed
  ultimately show ?thesis using stored [of b] \<open>r = Inr ()\<close> by blast
qed

definition example_cmd :: "int server_world cmd_env" where
  "example_cmd =
     \<lparr>cmd_codec = example_codec,
      cmd_fs = empty_fs\<lparr>files := [''k'' \<mapsto> pem_Encode example_codec \<lparr>pem_Type = ''PRIVATE KEY'', pem_Bytes = replicate 64 9\<rparr>,
        examplePubKeyPath \<mapsto> pem_Encode example_codec \<lparr>pem_Type = ''PUBLIC KEY'', pem_Bytes = replicate 32 1\<rparr>]\<rparr>,
      cmd_example = None, cmd_ed = example_ed, cmd_sha = (\<lambda>m. m), cmd_dial = (\<lambda>a w. (None, w)),
      cmd_now = on_net (nw_now example_network)\<rparr>"

definition example_owner :: id_signer where
  "example_owner = \<lparr>privateKey = replicate 64 9, publicKey = replicate 32 9, signer_address = ''owner''\<rparr>"

definition eve :: identity where "eve = example_identity 66 ''eve:1'' ''eve''"

definition eve_world :: "int server_world" where
  "eve_world = snd (AddIdentity example_server example_url (Some eve) example_world)"

lemma eve_added:
  "sql_inv example_json (sw_db eve_world)" "db_up (sw_db eve_world)"
  "known (SQLStore example_json) (sw_db eve_world) ''eve:1'' = Some (replicate 32 66, False)"
  "db_stored (sw_db eve_world) ''eve:1'' = {(replicate 32 66, False)}"
proof -
  have a: "AddIdentity example_server example_url (Some eve) example_world
      = (fst (AddIdentity example_server example_url (Some eve) example_world), eve_world)"
    by (simp add: eve_world_def)
  have "length (PublicKey eve) = 32" "\<not> IsTrusted eve" "db_rows (sw_db example_world) = []"
    "known (SQLStore example_json) (sw_db example_world) (ServerAddress eve) = None"
    by code_simp+
  moreover have "\<not> sublist ''//'' (ServerAddress eve)"
    by (simp add: eve_def example_identity_def sublist_code)
  ultimately show "sql_inv example_json (sw_db eve_world)" "db_up (sw_db eve_world)"
    "known (SQLStore example_json) (sw_db eve_world) ''eve:1'' = Some (replicate 32 66, False)"
    "db_stored (sw_db eve_world) ''eve:1'' = {(replicate 32 66, False)}"
    using AddIdentity_stores [OF json_ok_example _ _ _ _ _ _ _ _ a [unfolded example_server_def]]
    by (simp_all add: example_world_def example_server_def) (simp_all add: eve_def example_identity_def)
qed

theorem trust_send_sets_trust_witness:
  "let r = sendTrustRequest example_cmd ''k'' (SetTrust_rpc example_server example_km) ''home:1'' ''eve:1'' True eve_world
   in fst r = Inr () \<and> known (SQLStore example_json) (sw_db (snd r)) ''eve:1'' = Some (replicate 32 66, True)"
proof -
  let ?r = "sendTrustRequest example_cmd ''k'' (SetTrust_rpc example_server example_km) ''home:1'' ''eve:1'' True eve_world"
  have s: "cmd_signer example_cmd (send_cfg ''k'') ''owner'' = Inr example_owner" by code_simp
  have o: "ownerPublicKey example_km = drop 32 (privateKey example_owner)" by code_simp
  have e: "example_server = server_env example_json (cmd_ed example_cmd) (cmd_sha example_cmd) example_network"
    by (simp add: example_server_def example_cmd_def)
  have c: "ed_correct (cmd_ed example_cmd) (privateKey example_owner)"
    "\<forall>m. ed_Sign (cmd_ed example_cmd) (privateKey example_owner) m \<noteq> []"
    "cmd_dial example_cmd ''home:1'' eve_world = (None, eve_world)"
    using ed_correct_example [of 9] by (simp_all add: example_cmd_def example_owner_def example_priv_def)
      (simp add: example_ed_def)
  have "?r = (fst ?r, snd ?r)" by simp
  from trust_send_sets_trust [OF s c(1,2) e json_ok_example o c(3) eve_added(1,2) this, of "''eve:1''"] eve_added(3,4)
  show ?thesis by simp
qed

text \<open>C39: \<open>trust create\<close> makes useless requests. When signatures verify only for the message and
  the key they were made with, the request that \<open>trust create\<close> prints for a peer other than the
  server itself is refused by every server: the command signs the server's address in place of
  the peer's.\<close>

theorem created_trust_request_refused:
  assumes signer: "cmd_signer E (create_cfg keyPath serverAddr) serverAddr = Inr s"
      "ed_correct (cmd_ed E) (privateKey s)"
    and scheme: "\<forall>pub m m'. length pub = 32 \<and> ed_Verify (cmd_ed E) pub m (ed_Sign (cmd_ed E) (privateKey s) m') \<longrightarrow> m = m'"
    and hash: "cmd_sha E (set_trust_message peer t) \<noteq> cmd_sha E (set_trust_message serverAddr t)"
    and server: "ve_ed env = cmd_ed E" "ve_sha env = cmd_sha E"
    and req: "createTrustRequest E keyPath serverAddr peer t = Inr r"
  shows "st_ServerAddress r = peer \<and> fst (SetTrust env km r w) \<noteq> None"
proof -
  from trust_request_ok [OF signer, of "set_trust_message serverAddr t" peer t] req obtain sg where
    r: "r = \<lparr>st_ServerAddress = peer, st_Trusted = t, st_Signature = Some sg\<rparr>"
    and sg: "sig_Signature sg = ed_Sign (cmd_ed E) (privateKey s) (cmd_sha E (set_trust_message serverAddr t))"
    by (auto simp: createTrustRequest_def)
  have "\<not> (length key = 32 \<and> ed_Verify (ve_ed env) key (ve_sha env (set_trust_message peer t)) (sig_Signature sg))" for key
    using scheme hash server sg by auto
  then have "fst (verifyOwnerSignatureBytes env km (set_trust_message peer t) (Some sg) w) \<noteq> None"
    using verifyOwner_iff [of env km "set_trust_message peer t" sg w] by blast
  then show ?thesis using r by (auto simp: SetTrust_def split: prod.splits option.splits)
qed

theorem created_trust_request_refused_witness:
  "fst (SetTrust example_server example_km (projr (createTrustRequest example_cmd ''k'' ''home:1'' ''eve:1'' True)) example_world)
     \<noteq> None"
proof -
  let ?s = "\<lparr>privateKey = replicate 64 9, publicKey = replicate 32 9, signer_address = ''home:1''\<rparr>"
  have s: "cmd_signer example_cmd (create_cfg ''k'' ''home:1'') ''home:1'' = Inr ?s" by code_simp
  have c: "ed_correct (cmd_ed example_cmd) (privateKey ?s)"
    using ed_correct_example [of 9] by (simp add: example_cmd_def example_priv_def)
  have b: "\<forall>pub m m'. length pub = 32 \<and> ed_Verify (cmd_ed example_cmd) pub m (ed_Sign (cmd_ed example_cmd) (privateKey ?s) m')
      \<longrightarrow> m = m'" by (auto simp: example_cmd_def example_ed_def)
  have h: "cmd_sha example_cmd (set_trust_message ''eve:1'' True) \<noteq> cmd_sha example_cmd (set_trust_message ''home:1'' True)"
    by code_simp
  have v: "ve_ed example_server = cmd_ed example_cmd" "ve_sha example_server = cmd_sha example_cmd"
    by (simp_all add: example_server_def example_cmd_def)
  have r: "createTrustRequest example_cmd ''k'' ''home:1'' ''eve:1'' True
      = Inr (projr (createTrustRequest example_cmd ''k'' ''home:1'' ''eve:1'' True))" by code_simp
  from created_trust_request_refused [OF s c b h v r] show ?thesis by blast
qed

end
