(* ===== verification/Cmd_Line.thy ===== *)
theory Cmd_Line
  imports Cmd_Requests
begin

text \<open>
  The command line itself (\<open>cmd/ztg/main.go\<close> and the \<open>Command\<close> and action of every package under
  \<open>cmd/\<close>): the tables of commands and flags, what each action reads from its flags, and the lines
  it prints. The parser of \<open>urfave/cli\<close> is a parameter: an action gets a function from flag names
  to values, and \<open>parsed\<close> states what the library promises about it. Timeouts are left out.
\<close>

section \<open>Tables\<close>

datatype flag_value = F_String string | F_Bool bool | F_Int int

record flag =
  fl_Name :: string
  fl_Aliases :: "string list"
  fl_Required :: bool
  fl_Usage :: string
  fl_Value :: flag_value

datatype command =
  Command (c_Name: string) (c_Usage: string) (c_Flags: "flag list") (c_Commands: "command list")

definition StringFlag :: "string \<Rightarrow> string list \<Rightarrow> bool \<Rightarrow> string \<Rightarrow> string \<Rightarrow> flag" where
  "StringFlag name aliases required usage val =
     \<lparr>fl_Name = name, fl_Aliases = aliases, fl_Required = required, fl_Usage = usage, fl_Value = F_String val\<rparr>"

definition BoolFlag :: "string \<Rightarrow> string list \<Rightarrow> bool \<Rightarrow> string \<Rightarrow> flag" where
  "BoolFlag name aliases required usage =
     \<lparr>fl_Name = name, fl_Aliases = aliases, fl_Required = required, fl_Usage = usage, fl_Value = F_Bool False\<rparr>"

definition key_path_flag :: flag where
  "key_path_flag = StringFlag ''key-path'' [''k''] False ''Private key path (defaults to keys/example_ed25519.pem)''
     ''keys/example_ed25519.pem''"

definition timeout_flag :: flag where
  "timeout_flag =
     \<lparr>fl_Name = ''timeout'', fl_Aliases = [''T''], fl_Required = False, fl_Usage = ''Request timeout in seconds'',
      fl_Value = F_Int 30\<rparr>"

definition challenge_flags :: "flag list" where
  "challenge_flags =
     [StringFlag ''target'' [''t''] True ''Target server address (e.g., localhost:50052)'' '''',
      StringFlag ''game'' [''g''] True ''Game ID (e.g., ztg.FactorFight.v1, ztg.HighRoll.v1)'' '''',
      StringFlag ''server'' [''s''] True ''This server address (for signing)'' '''',
      key_path_flag]"

definition challenge_Command :: command where
  "challenge_Command =
     Command ''challenge'' ''Create, sign, and send a challenge message'' []
       [Command ''send'' ''Send a signed challenge to a server'' (challenge_flags @ [timeout_flag]) [],
        Command ''create'' ''Create a signed challenge message (print to stdout)'' challenge_flags []]"

definition trust_flags :: "flag list" where
  "trust_flags =
     [BoolFlag ''trusted'' [''r''] True ''Trust status (true or false)'',
      StringFlag ''server'' [''s''] True ''This server address'' '''',
      StringFlag ''peer'' [] True ''The address of the trusted peer'' '''',
      key_path_flag]"

definition trust_Command :: command where
  "trust_Command =
     Command ''trust'' ''Manage trust status of identities'' []
       [Command ''send'' ''Send a request to set trust status of an identity'' (trust_flags @ [timeout_flag]) [],
        Command ''create'' ''Create a signed trust request message (print to stdout)'' trust_flags []]"

definition identity_Command :: command where
  "identity_Command =
     Command ''identity'' ''Manage identities in the store'' []
       [Command ''add'' ''Add an identity to the store''
          [StringFlag ''server'' [''s''] True ''Target server address'' '''',
           StringFlag ''peer'' [] True ''Peer server address to add'' '''',
           StringFlag ''peer-name'' [] True ''Peer server name'' '''',
           StringFlag ''owner-name'' [] True ''Peer owner name'' '''',
           StringFlag ''public-key'' [] True ''Peer public key in hex or base64 format'' '''',
           key_path_flag, timeout_flag] [],
        Command ''list'' ''List all identities in the store''
          [StringFlag ''server'' [''s''] True ''Target server address'' '''', timeout_flag] []]"

definition key_Command :: command where
  "key_Command =
     Command ''key'' ''Key management CLI'' []
       [Command ''generate'' ''Generate a new ED25519 key pair''
          [StringFlag ''output'' [''o''] True ''Output path for generated key'' ''''] []]"

definition ztg_Command :: command where
  "ztg_Command =
     Command ''ztg'' ''Zero Trust Gaming CLI'' [] [key_Command, challenge_Command, trust_Command, identity_Command]"

section \<open>Flags\<close>

type_synonym cli_args = "string \<Rightarrow> flag_value option"

text \<open>A getter of another type, or for a flag that is not there, returns the zero value.\<close>

definition cmd_String :: "cli_args \<Rightarrow> string \<Rightarrow> string" where
  "cmd_String args n = (case args n of Some (F_String s) \<Rightarrow> s | _ \<Rightarrow> '''')"

definition cmd_Bool :: "cli_args \<Rightarrow> string \<Rightarrow> bool" where
  "cmd_Bool args n = (case args n of Some (F_Bool b) \<Rightarrow> b | _ \<Rightarrow> False)"

fun same_kind :: "flag_value \<Rightarrow> flag_value \<Rightarrow> bool" where
  "same_kind (F_String _) (F_String _) = True"
| "same_kind (F_Bool _) (F_Bool _) = True"
| "same_kind (F_Int _) (F_Int _) = True"
| "same_kind _ _ = False"

text \<open>
  What the library promises about the arguments of an action, from the values that were given by
  name: they have the declared kinds, a required flag has been given, any other has its default.
\<close>

definition parsed :: "flag list \<Rightarrow> cli_args \<Rightarrow> cli_args \<Rightarrow> bool" where
  "parsed flags given args \<longleftrightarrow>
     (\<forall>f \<in> set flags.
        case given (fl_Name f) of
          Some v \<Rightarrow> same_kind v (fl_Value f) \<and> args (fl_Name f) = Some v
        | None \<Rightarrow> \<not> fl_Required f \<and> args (fl_Name f) = Some (fl_Value f))"

fun find_command :: "string list \<Rightarrow> command \<Rightarrow> command option" where
  "find_command [] c = Some c"
| "find_command (n # ns) c =
     (case find (\<lambda>c. c_Name c = n) (c_Commands c) of None \<Rightarrow> None | Some c' \<Rightarrow> find_command ns c')"

definition flags_of :: "string list \<Rightarrow> flag list" where
  "flags_of path = (case find_command path ztg_Command of None \<Rightarrow> [] | Some c \<Rightarrow> c_Flags c)"

lemmas command_tables = ztg_Command_def key_Command_def challenge_Command_def trust_Command_def identity_Command_def
  challenge_flags_def trust_flags_def key_path_flag_def timeout_flag_def StringFlag_def BoolFlag_def

lemma flags_of_send:
  "flags_of [''challenge'', ''send''] = challenge_flags @ [timeout_flag]"
  "flags_of [''trust'', ''send''] = trust_flags @ [timeout_flag]"
  by (simp_all add: flags_of_def ztg_Command_def key_Command_def challenge_Command_def trust_Command_def identity_Command_def)

section \<open>Printing\<close>

definition show_bool :: "bool \<Rightarrow> string" where
  "show_bool b = (if b then ''true'' else ''false'')"

text \<open>\<open>%-20s\<close>: padded on the right, never cut.\<close>

definition pad_right :: "nat \<Rightarrow> string \<Rightarrow> string" where
  "pad_right n s = s @ replicate (n - length s) CHR '' ''"

definition table_row :: "string \<Rightarrow> string \<Rightarrow> string \<Rightarrow> string \<Rightarrow> string \<Rightarrow> string" where
  "table_row a b c d e = pad_right 20 a @ '' '' @ pad_right 15 b @ '' '' @ pad_right 15 c @ '' '' @ pad_right 10 d @ '' ''
     @ pad_right 20 e"

section \<open>Actions\<close>

text \<open>An action returns the lines it prints, or its error.\<close>

definition challenge_sent_lines :: "string \<Rightarrow> string \<Rightarrow> challenge_response \<Rightarrow> string list" where
  "challenge_sent_lines target gameID resp =
     [''Challenge sent successfully!'', ''Target: '' @ target, ''Game: '' @ gameID]
     @ (case resp_Win resp of None \<Rightarrow> [] | Some b \<Rightarrow> [''Win: '' @ show_bool b])
     @ (if resp_Message resp \<noteq> '''' then [''Message: '' @ resp_Message resp] else [])"

definition challenge_send_Action ::
    "'w cmd_env \<Rightarrow> (challenge_request \<Rightarrow> bytes res) \<Rightarrow> (signed_challenge \<Rightarrow> 'w \<Rightarrow> challenge_response res \<times> 'w)
     \<Rightarrow> cli_args \<Rightarrow> 'w \<Rightarrow> string list res \<times> 'w" where
  "challenge_send_Action E marshal rpc args w =
     (let target = cmd_String args ''target''; gameID = cmd_String args ''game'';
          serverAddr = cmd_String args ''server''; keyPath = cmd_String args ''key-path'' in
      case sendChallenge E keyPath marshal rpc serverAddr target gameID w of
        (Inl e, w1) \<Rightarrow> (Inl e, w1)
      | (Inr resp, w1) \<Rightarrow> (Inr (challenge_sent_lines target gameID resp), w1))"

definition challenge_create_Action ::
    "'w cmd_env \<Rightarrow> (challenge_request \<Rightarrow> bytes res) \<Rightarrow> cli_args \<Rightarrow> string list res" where
  "challenge_create_Action E marshal args =
     (let target = cmd_String args ''target''; gameID = cmd_String args ''game'';
          serverAddr = cmd_String args ''server''; keyPath = cmd_String args ''key-path'' in
      case createChallenge E keyPath marshal serverAddr target gameID of
        Inl e \<Rightarrow> Inl e
      | Inr r \<Rightarrow>
          (case (sc_Challenge r, sc_Signature r) of
             (Some ch, Some sg) \<Rightarrow>
               Inr [''SignedChallengeRequest created:'', ''  Target: '' @ ch_Target ch, ''  GameID: '' @ ch_GameId ch,
                 ''  Signature.SignerAddress: '' @ SignerAddress sg, ''  Signature.Signature: '' @ hex (sig_Signature sg)]
           | _ \<Rightarrow> Inl (Panic ''nil pointer dereference'')))"

definition trust_send_Action ::
    "'w cmd_env \<Rightarrow> (set_trust_request \<Rightarrow> 'w \<Rightarrow> unit res \<times> 'w) \<Rightarrow> cli_args \<Rightarrow> 'w \<Rightarrow> string list res \<times> 'w" where
  "trust_send_Action E rpc args w =
     (let serverAddr = cmd_String args ''server''; peer = cmd_String args ''peer'';
          trusted = cmd_Bool args ''trusted''; keyPath = cmd_String args ''key-path'' in
      case sendTrustRequest E keyPath rpc serverAddr peer trusted w of
        (Inl e, w1) \<Rightarrow> (Inl e, w1)
      | (Inr _, w1) \<Rightarrow>
          (Inr [''Trust status updated successfully!'', ''Target: '' @ serverAddr, ''Trusted: '' @ show_bool trusted], w1))"

definition trust_create_Action :: "'w cmd_env \<Rightarrow> cli_args \<Rightarrow> string list res" where
  "trust_create_Action E args =
     (let trusted = cmd_Bool args ''trusted''; peer = cmd_String args ''peer'';
          serverAddr = cmd_String args ''server''; keyPath = cmd_String args ''key-path'' in
      case createTrustRequest E keyPath serverAddr peer trusted of
        Inl e \<Rightarrow> Inl e
      | Inr r \<Rightarrow>
          (case st_Signature r of
             None \<Rightarrow> Inl (Panic ''nil pointer dereference'')
           | Some sg \<Rightarrow>
               Inr [''SetTrustRequest created:'', ''  Trusted: '' @ show_bool (st_Trusted r),
                 ''  Signature.SignerAddress: '' @ SignerAddress sg, ''  Signature.Signature: '' @ hex (sig_Signature sg)]))"

definition identity_add_Action ::
    "'w cmd_env \<Rightarrow> (string \<Rightarrow> bytes res) \<Rightarrow> (identity \<Rightarrow> 'w \<Rightarrow> unit res \<times> 'w) \<Rightarrow> cli_args \<Rightarrow> 'w
     \<Rightarrow> string list res \<times> 'w" where
  "identity_add_Action E base64 rpc args w =
     (let serverAddr = cmd_String args ''server''; peerAddr = cmd_String args ''peer'';
          peerName = cmd_String args ''peer-name''; owner = cmd_String args ''owner-name'';
          key = cmd_String args ''public-key'' in
      case addIdentity E base64 rpc serverAddr peerAddr peerName owner key w of
        (Inl e, w1) \<Rightarrow> (Inl e, w1)
      | (Inr _, w1) \<Rightarrow>
          (Inr [''Identity added successfully!'', ''Target: '' @ serverAddr,
             ''Peer: '' @ peerAddr @ '' ('' @ peerName @ '')'', ''Owner: '' @ owner], w1))"

text \<open>The key is cut to 17 digits and three dots when it has more than 20.\<close>

definition short_key :: "bytes \<Rightarrow> string" where
  "short_key key = (let h = hex key in if length h > 20 then take 17 h @ ''...'' else h)"

definition identity_row :: "identity \<Rightarrow> string" where
  "identity_row i =
     table_row (ServerAddress i) (ServerName i) (OwnerName i) (if IsTrusted i then ''Yes'' else ''No'') (short_key (PublicKey i))"

definition list_header :: "string \<Rightarrow> string list" where
  "list_header serverAddr =
     [''Identities in store at '' @ serverAddr @ '':'',
      table_row ''Server Address'' ''Server Name'' ''Owner Name'' ''Trusted'' ''Public Key'',
      table_row ''----------------'' ''----'' ''----'' ''----'' ''----'']"

definition listIdentities :: "'w cmd_env \<Rightarrow> ('w \<Rightarrow> identity list res \<times> 'w) \<Rightarrow> cli_args \<Rightarrow> 'w \<Rightarrow> string list res \<times> 'w" where
  "listIdentities E rpc args w =
     (let serverAddr = cmd_String args ''server'' in
      case cmd_call E ''list identities request failed: %w'' serverAddr (\<lambda>_. rpc) (Inr ()) w of
        (Inl e, w1) \<Rightarrow> (Inl e, w1)
      | (Inr is, w1) \<Rightarrow>
          (if is = [] then (Inr [''No identities found in store at '' @ serverAddr], w1)
           else (Inr (list_header serverAddr @ map identity_row is), w1)))"

definition key_generate_Action ::
    "key_codec \<Rightarrow> (string \<Rightarrow> string) \<Rightarrow> (bytes \<times> bytes) res \<Rightarrow> cli_args \<Rightarrow> filesystem \<Rightarrow> string list res \<times> filesystem" where
  "key_generate_Action C dir gen args fs =
     (let outputPath = cmd_String args ''output'' in
      case generateKeyPair C dir gen outputPath fs of
        (Some e, fs1) \<Rightarrow> (Inl e, fs1)
      | (None, fs1) \<Rightarrow>
          (Inr [''Generated key pair:'', ''Private key: '' @ outputPath, ''Public key:  '' @ outputPath @ ''.pub''], fs1))"

section \<open>What reaches an action\<close>

lemma parsedD:
  assumes "parsed flags given args" "f \<in> set flags"
  shows "args (fl_Name f) = (case given (fl_Name f) of Some v \<Rightarrow> Some v | None \<Rightarrow> Some (fl_Value f))"
    and "given (fl_Name f) = None \<Longrightarrow> \<not> fl_Required f"
    and "given (fl_Name f) = Some v \<Longrightarrow> same_kind v (fl_Value f)"
  using assms by (fastforce simp: parsed_def split: option.splits)+

lemma parsed_string:
  assumes "parsed flags given args" "StringFlag n as req usage val \<in> set flags" "given n = Some v"
  shows "given n = Some (F_String (cmd_String args n))"
  using parsedD [OF assms(1,2)] assms(3) by (cases v) (simp_all add: StringFlag_def cmd_String_def)

lemma parsed_default:
  assumes "parsed flags given args" "StringFlag n as req usage val \<in> set flags" "given n = None"
  shows "cmd_String args n = val \<and> \<not> req"
  using parsedD [OF assms(1,2)] assms(3) by (simp add: StringFlag_def cmd_String_def)

lemma challenge_args:
  assumes "parsed (flags_of [''challenge'', ''send'']) given args"
    and "given ''target'' = Some (F_String target)" "given ''game'' = Some (F_String gameID)"
      "given ''server'' = Some (F_String server)" "given ''key-path'' = None"
  shows "cmd_String args ''target'' = target" "cmd_String args ''game'' = gameID"
    "cmd_String args ''server'' = server" "cmd_String args ''key-path'' = exampleKeyPath"
  using assms
  by (auto simp: parsed_def flags_of_send challenge_flags_def key_path_flag_def StringFlag_def cmd_String_def exampleKeyPath_def)

section \<open>The list of identities\<close>

lemma length_hex: "length (hex b) = 2 * length b"
  by (induction b) (simp_all add: hex_def)

lemma length_short_key: "length (short_key k) \<le> 20"
  by (simp add: short_key_def Let_def)


lemma store_lists_known:
  assumes "sql_inv j db" "db_up db"
  obtains ids where "SQLStore_ListIdentities j db = Inr ids" "length ids = length (db_rows db)"
    "\<And>a k t. known (SQLStore j) db a = Some (k, t) \<Longrightarrow> \<exists>i \<in> set ids. ServerAddress i = a \<and> PublicKey i = k \<and> IsTrusted i = t"
proof -
  let ?rows = "sort_key (\<lambda>r. - row_CreatedAt r) (db_rows db)"
  let ?ids = "map (projr \<circ> rowToIdentity j) ?rows"
  have dec: "\<exists>i. rowToIdentity j r = Inr i \<and> PublicKey i = row_PublicKey r \<and> ServerAddress i = row_ServerAddress r
      \<and> IsTrusted i = row_IsTrusted r" if "r \<in> set (db_rows db)" for r
    using that assms(1) by (auto simp: sql_inv_def list_all_iff rowToIdentity_ok)
  then have "list_all (\<lambda>r. \<exists>i. rowToIdentity j r = Inr i) ?rows" by (auto simp: list_all_iff)
  with assms(2) have l: "SQLStore_ListIdentities j db = Inr ?ids"
    by (simp add: SQLStore_ListIdentities_def sqlc_ListIdentities_def convert_rows_ok)
  have n: "length ?ids = length (db_rows db)" by simp
  have k: "\<exists>i \<in> set ?ids. ServerAddress i = a \<and> PublicKey i = k \<and> IsTrusted i = t"
    if "known (SQLStore j) db a = Some (k, t)" for a k t
  proof -
    from that obtain r where f: "limit_1 db a = Some r"
      and r: "row_PublicKey r = k" "row_IsTrusted r = t"
      unfolding known_SQLStore [OF assms] by auto
    from f have mem: "r \<in> set (db_rows db)" "row_ServerAddress r = a" by (rule limit_1_SomeD)+
    from dec [OF mem(1)] obtain i where i: "rowToIdentity j r = Inr i" "PublicKey i = row_PublicKey r"
      "ServerAddress i = row_ServerAddress r" "IsTrusted i = row_IsTrusted r" by blast
    from i(1) have "(projr \<circ> rowToIdentity j) r = i" by simp
    with mem(1) have "i \<in> set ?ids" by (auto simp: image_iff)
    with i r mem(2) show ?thesis by blast
  qed
  show thesis by (rule that [OF l n k])
qed

text \<open>The printed list is the store. \<open>identity list\<close> prints one row per stored identity, or says
  that there are none; every address the store knows appears with the trust it has there and with
  its key, cut to at most 20 characters.\<close>

theorem list_shows_store:
  assumes env: "env = server_env j ed sha net" and dial: "cmd_dial E (cmd_String args ''server'') w = (None, w1)"
    and store: "sql_inv j (sw_db w1)" "db_up (sw_db w1)"
  shows "\<exists>lines. listIdentities E (\<lambda>w. (svc_ListIdentities env w, w)) args w = (Inr lines, w1)
    \<and> length lines = (if db_rows (sw_db w1) = [] then 1 else 3 + length (db_rows (sw_db w1)))
    \<and> (\<forall>a k t. known (SQLStore j) (sw_db w1) a = Some (k, t) \<longrightarrow>
         (\<exists>name owner. length (short_key k) \<le> 20
            \<and> table_row a name owner (if t then ''Yes'' else ''No'') (short_key k) \<in> set lines))"
proof -
  obtain ids where l: "SQLStore_ListIdentities j (sw_db w1) = Inr ids" "length ids = length (db_rows (sw_db w1))"
    and k: "\<And>a k t. known (SQLStore j) (sw_db w1) a = Some (k, t) \<Longrightarrow>
      \<exists>i \<in> set ids. ServerAddress i = a \<and> PublicKey i = k \<and> IsTrusted i = t"
    using store_lists_known [OF store] by blast
  from l(1) have svc: "svc_ListIdentities env w1 = Inr ids" by (simp add: svc_ListIdentities_def env server_store_def)
  have row: "\<exists>name owner. table_row a name owner (if t then ''Yes'' else ''No'') (short_key k) \<in> set (map identity_row ids)"
    if "known (SQLStore j) (sw_db w1) a = Some (k, t)" for a k t
    using k [OF that] by (force simp: identity_row_def)
  show ?thesis
  proof (cases "ids = []")
    case True
    with l(2) k svc dial show ?thesis by (fastforce simp: listIdentities_def cmd_call_def)
  next
    case False
    let ?hdr = "list_header (cmd_String args ''server'')"
    have hdr: "length ?hdr = 3"
      "listIdentities E (\<lambda>w. (svc_ListIdentities env w, w)) args w = (Inr (?hdr @ map identity_row ids), w1)"
      using svc dial False by (simp add: list_header_def, simp add: listIdentities_def cmd_call_def)
    have "\<exists>name owner. length (short_key k) \<le> 20
        \<and> table_row a name owner (if t then ''Yes'' else ''No'') (short_key k) \<in> set (?hdr @ map identity_row ids)"
      if "known (SQLStore j) (sw_db w1) a = Some (k, t)" for a k t
      using row [OF that] length_short_key unfolding set_append by blast
    with False l(2) hdr show ?thesis by (intro exI [of _ "?hdr @ map identity_row ids"]) auto
  qed
qed

theorem list_shows_store_witness:
  "\<exists>lines name owner.
     listIdentities example_cmd (\<lambda>w. (svc_ListIdentities example_server w, w)) [''server'' \<mapsto> F_String ''home:1''] eve_world
       = (Inr lines, eve_world)
   \<and> table_row ''eve:1'' name owner ''No'' (short_key (replicate 32 66)) \<in> set lines"
proof -
  let ?args = "[''server'' \<mapsto> F_String ''home:1''] :: cli_args"
  have e: "example_server = server_env example_json example_ed (\<lambda>m. m) example_network" by (simp add: example_server_def)
  have d: "cmd_dial example_cmd (cmd_String ?args ''server'') eve_world = (None, eve_world)" by (simp add: example_cmd_def)
  from list_shows_store [OF e d eve_added(1,2)] eve_added(3) show ?thesis by fastforce
qed

end
