(* ===== verification/Srv_Wire.thy ===== *)
theory Srv_Wire
  imports Srv_Stream FF_Wire
begin

text \<open>
  A whole game between two servers. \<open>stream_net\<close> is one end of a gRPC stream that delivers in
  order what the other end sends, and keeps the order of sends and receives. \<open>carries\<close> relates
  the peer of \<open>peer.go\<close> on such a stream to the abstract wire of \<open>FF_Wire\<close>: what it sent is the
  signed image of what went on the wire, and what it will read is the signed image of what is
  still to come. Both interfaces of a session, the
  dice and the moves, keep that relation, so that a game over signed streams is the game over
  wires, and two honest servers finish it.
\<close>

section \<open>The stream of a FactorFight game\<close>

type_synonym ff_stream = "signed_ff stream_world"
type_synonym ff_link = "ff_message link"

abbreviation ff_env :: "ff_link \<Rightarrow> identity \<Rightarrow> ff_stream verify_env" where
  "ff_env \<equiv> stream_env"

definition stream_net :: "ff_link \<Rightarrow> identity \<Rightarrow> ff_stream ff_net" where
  "stream_net K peer =
     \<lparr>ff_verify = ff_env K peer, ff_Marshal = lk_Marshal K,
      stream_Recv = (\<lambda>w. case st_in w of
          [] \<Rightarrow> (Inl (Errorf ''EOF''), w)
        | m # r \<Rightarrow> (Inr m, w\<lparr>st_in := r, st_acts := st_acts w @ [Receives]\<rparr>)),
      stream_Send = (\<lambda>w m. (None, w\<lparr>st_out := st_out w @ [m], st_acts := st_acts w @ [Sends]\<rparr>)),
      ff_rand = (\<lambda>w. (st_secrets w 0, w\<lparr>st_secrets := \<lambda>i. st_secrets w (Suc i)\<rparr>))\<rparr>"

lemma stream_sel [simp]:
  "ff_verify (stream_net K peer) = ff_env K peer" "ff_Marshal (stream_net K peer) = lk_Marshal K"
  "stream_Send (stream_net K peer) w m = (None, w\<lparr>st_out := st_out w @ [m], st_acts := st_acts w @ [Sends]\<rparr>)"
  "ff_rand (stream_net K peer) w = (st_secrets w 0, w\<lparr>st_secrets := \<lambda>i. st_secrets w (Suc i)\<rparr>)"
  "st_in w = [] \<Longrightarrow> stream_Recv (stream_net K peer) w = (Inl (Errorf ''EOF''), w)"
  "st_in w = m # r \<Longrightarrow> stream_Recv (stream_net K peer) w = (Inr m, w\<lparr>st_in := r, st_acts := st_acts w @ [Receives]\<rparr>)"
  by (simp_all add: stream_net_def)

text \<open>Verifying reads the clock and nothing else of the world.\<close>

lemma chain_check_stream: "chain_check (ff_env K peer) v b sg w = (r, v1, w1) \<Longrightarrow> same_stream w w1"
  by (auto simp: chain_check_def split_def Let_def)

lemma verify_stream:
  assumes "VerifyOrderedSignature (ff_env K peer) v b sigo w = (r, v1, w1)"
  shows "same_stream w w1"
proof (cases sigo)
  case (Some sg)
  obtain c v2 w2 where c: "cached_peer (ff_env K peer) v (SignerAddress sg) w = (c, v2, w2)" by (metis prod_cases3)
  have "same_stream w2 w1 \<or> w1 = w"
    using assms Some c
    by (auto simp: VerifyOrderedSignature_def fetch_stream split: if_splits option.splits dest!: chain_check_stream)
      (auto simp: same_stream_def)
  with cached_peer_stream [OF c] show ?thesis by (auto intro: same_stream_trans)
qed (use assms in \<open>simp add: VerifyOrderedSignature_def\<close>)

lemma accept_stream:
  "accept_message (stream_net K peer) q sm w = (r, q1, w1) \<Longrightarrow> same_stream w w1"
  by (auto simp: accept_message_def VerifyOrderedSignatureProto_def split: option.splits if_splits sum.splits prod.splits
      dest: verify_stream)

section \<open>Signed wires\<close>

fun to_ff :: "pb_move wire \<Rightarrow> ff_message" where
  "to_ff (W_Dice m) = FF_DiceMsg (convertInternalDiceMessageToProto m)"
| "to_ff (W_Move x) = FF_Move x"

fun wf_wire :: "'x wire \<Rightarrow> bool" where
  "wf_wire (W_Dice m) = wf_message m"
| "wf_wire (W_Move x) = True"

text \<open>Signing depends on neither the verifier nor the peer's identity.\<close>

lemma sign_next_verifier:
  "sign_next N (p\<lparr>fp_verifier := x\<rparr>) m = map_prod id (\<lambda>p1. p1\<lparr>fp_verifier := x\<rparr>) (sign_next N p m)"
  by (auto simp: sign_next_def Let_def split: sum.split prod.split)

lemma sign_next_any_peer: "sign_next (stream_net K peer) p m = sign_next (stream_net K peer') p m"
  by (simp add: sign_next_def Let_def cong: sum.case_cong)

lemma sign_all_any_peer: "sign_all (stream_net K peer) p ms = sign_all (stream_net K peer') p ms"
  by (induction ms arbitrary: p) (simp_all add: sign_next_any_peer [of K peer _ _ peer'] split: sum.split prod.split)

lemma sign_all_snoc:
  assumes "sign_all N p ms = (sms, p1)" "length sms = length ms" "sign_next N p1 m = (Inr sm, p2)"
  shows "sign_all N p (ms @ [m]) = (sms @ [sm], p2)"
  using assms(1,2)
proof (induction ms arbitrary: p sms)
  case Nil
  with assms(3) show ?case by simp
next
  case (Cons a ms)
  from Cons.prems obtain s p' sms' where a: "sign_next N p a = (Inr s, p')" "sms = s # sms'"
    and ms: "sign_all N p' ms = (sms', p1)" by (auto split: prod.splits sum.splits)
  from Cons.IH [OF ms] Cons.prems(2) a show ?case by simp
qed

definition signs_on :: "ff_link \<Rightarrow> int \<Rightarrow> int \<Rightarrow> identity \<Rightarrow> bytes \<Rightarrow> verifier \<Rightarrow> pb_move wire list \<Rightarrow> signed_ff list \<Rightarrow> bool" where
  "signs_on K t ttl peer ppriv v ms sms \<longleftrightarrow>
     (\<exists>q. in_step (ff_env K peer) (t + ttl) (ServerAddress peer) (drop 32 ppriv) v q
        \<and> signs_for K ppriv (ServerAddress peer) (fp_signer q)
        \<and> unat (fp_sequence q) + length ms < 18446744073709551616
        \<and> sms = fst (sign_all (stream_net K peer) q (map to_ff ms)))"

definition carries ::
    "ff_link \<Rightarrow> int \<Rightarrow> int \<Rightarrow> identity \<Rightarrow> bytes \<Rightarrow> id_signer \<Rightarrow> ff_peer \<times> ff_stream \<Rightarrow> pb_move wire_world \<Rightarrow> bool" where
  "carries K t ttl peer ppriv own x v \<longleftrightarrow>
     (case x of (p, w) \<Rightarrow>
        sound_link K t ttl \<and> (\<exists>priv addr. signs_for K priv addr own)
        \<and> st_secrets w = ww_secrets v \<and> st_acts w = ww_acts v \<and> wf_secrets (ww_secrets v)
        \<and> sign_all (stream_net K peer) (createFactorfightPeer own None) (map to_ff (ww_out v)) = (st_out w, p\<lparr>fp_verifier := None\<rparr>)
        \<and> length (st_out w) = length (ww_out v) \<and> fp_signer p = own
        \<and> list_all wf_wire (ww_in v)
        \<and> (\<exists>ver. fp_verifier p = Some ver \<and> live_until ttl ver \<and> signs_on K t ttl peer ppriv ver (ww_in v) (st_in w)))"

lemma carries_send:
  assumes "carries K t ttl peer ppriv own (p, w) v"
  shows "\<exists>p1 w1. peer_send_message (stream_net K peer) p (to_ff x) w = (None, p1, w1)
    \<and> carries K t ttl peer ppriv own (p1, w1) (v\<lparr>ww_out := ww_out v @ [x], ww_acts := ww_acts v @ [Sends]\<rparr>)"
proof -
  from assms obtain priv addr where s: "sound_link K t ttl" "signs_for K priv addr own" "fp_signer p = own"
    and out: "sign_all (stream_net K peer) (createFactorfightPeer own None) (map to_ff (ww_out v)) = (st_out w, p\<lparr>fp_verifier := None\<rparr>)"
      "length (st_out w) = length (ww_out v)"
    by (auto simp: carries_def)
  from s(1) obtain b where "lk_Marshal K (Some (to_ff x)) = Inr b" unfolding sound_link_def by blast
  with s sign_next_ok [of "stream_net K peer" priv addr p "to_ff x" b] obtain sm p1
    where n: "sign_next (stream_net K peer) p (to_ff x) = (Inr sm, p1)"
      and p1: "fp_signer p1 = own" "fp_verifier p1 = fp_verifier p"
    by (auto simp: signs_for_def)
  let ?w1 = "w\<lparr>st_out := st_out w @ [sm], st_acts := st_acts w @ [Sends]\<rparr>"
  have "sign_next (stream_net K peer) (p\<lparr>fp_verifier := None\<rparr>) (to_ff x) = (Inr sm, p1\<lparr>fp_verifier := None\<rparr>)"
    by (simp add: sign_next_verifier n)
  from sign_all_snoc [OF out(1) _ this] out(2)
  have "sign_all (stream_net K peer) (createFactorfightPeer own None) (map to_ff (ww_out v @ [x]))
      = (st_out ?w1, p1\<lparr>fp_verifier := None\<rparr>)" by simp
  with assms p1 out(2) have "carries K t ttl peer ppriv own (p1, ?w1) (v\<lparr>ww_out := ww_out v @ [x], ww_acts := ww_acts v @ [Sends]\<rparr>)"
    by (simp add: carries_def)
  moreover have "peer_send_message (stream_net K peer) p (to_ff x) w = (None, p1, ?w1)"
    by (simp add: peer_send_message_def n)
  ultimately show ?thesis by blast
qed

lemma carries_recv_Nil:
  assumes "carries K t ttl peer ppriv own (p, w) v" "ww_in v = []"
  shows "peer_recv_message (stream_net K peer) p w = (Inl (Errorf ''EOF''), p, w)"
proof -
  from assms have "st_in w = []" by (auto simp: carries_def signs_on_def)
  then show ?thesis by (simp add: peer_recv_message_def)
qed

lemma carries_recv_Cons:
  assumes "carries K t ttl peer ppriv own (p, w) v" "ww_in v = x # r"
  shows "\<exists>p1 w1. peer_recv_message (stream_net K peer) p w = (Inr (to_ff x), p1, w1)
    \<and> carries K t ttl peer ppriv own (p1, w1) (v\<lparr>ww_in := r, ww_acts := ww_acts v @ [Receives]\<rparr>)"
proof -
  let ?N = "stream_net K peer" and ?T = "t + ttl"
  from assms obtain ver q where s: "sound_link K t ttl" and ver: "fp_verifier p = Some ver" "live_until ttl ver"
    and q: "in_step (ff_verify ?N) ?T (ServerAddress peer) (drop 32 ppriv) ver q"
      "signs_for K ppriv (ServerAddress peer) (fp_signer q)"
      "unat (fp_sequence q) + length (x # r) < 18446744073709551616"
    and st: "st_in w = fst (sign_all ?N q (map to_ff (x # r)))"
    by (auto simp: carries_def signs_on_def)
  from s obtain b where b: "ff_Marshal ?N (Some (to_ff x)) = Inr b" unfolding sound_link_def stream_sel by blast
  from q(2) s have k: "ed_correct (ve_ed (ff_verify ?N)) ppriv" "identity_NewSigner ppriv (ServerAddress peer) = Inr (fp_signer q)"
      "\<forall>m. ed_Sign (ve_ed (ff_verify ?N)) ppriv m \<noteq> []" "ServerAddress peer \<noteq> ''''"
    by (simp_all add: signs_for_def sound_link_def)
  have clock: "\<forall>w. t \<le> fst (ve_now (ff_verify ?N) w) \<and> fst (ve_now (ff_verify ?N) w) \<le> ?T"
    using s by (simp add: sound_link_def)
  have seqno: "unat (fp_sequence q + 1) = unat (fp_sequence q) + 1" "fp_sequence q + 1 \<noteq> 0"
    using next_sequence [of "fp_sequence q"] q(3) by simp_all
  define w0 where "w0 = w\<lparr>st_in := fst (sign_all ?N (snd (sign_next ?N q (to_ff x))) (map to_ff r)),
    st_acts := st_acts w @ [Receives]\<rparr>"
  obtain sm q1 ver1 w1 where n: "sign_next ?N q (to_ff x) = (Inr sm, q1)" "fp_sequence q1 = fp_sequence q + 1"
    "fp_signer q1 = fp_signer q" "accept_message ?N p sm w0 = (Inr (to_ff x), p\<lparr>fp_verifier := Some ver1\<rparr>, w1)"
    "live_until ttl ver1" "in_step (ff_verify ?N) ?T (ServerAddress peer) (drop 32 ppriv) ver1 q1"
    by (rule accept_next [OF k b clock q(1) seqno(2) ver(2,1)])
  from st n(1) have w: "st_in w = sm # st_in w0" by (simp add: w0_def split_def Let_def)
  then have recv: "peer_recv_message ?N p w = (Inr (to_ff x), p\<lparr>fp_verifier := Some ver1\<rparr>, w1)"
    using n(1,4) by (simp add: peer_recv_message_def w0_def)
  have "signs_on K t ttl peer ppriv ver1 r (st_in w0)"
    unfolding signs_on_def using n q seqno(1) by (intro exI [of _ q1]) (simp add: w0_def)
  with assms n(5) accept_stream [OF n(4)] have "carries K t ttl peer ppriv own (p\<lparr>fp_verifier := Some ver1\<rparr>, w1) (v\<lparr>ww_in := r, ww_acts := ww_acts v @ [Receives]\<rparr>)"
    by (auto simp: carries_def same_stream_def w0_def)
  with recv show ?thesis by blast
qed

section \<open>The session over the stream\<close>

lemma carries_rand:
  assumes "carries K t ttl peer ppriv own (p, w) v"
  shows "st_secrets w = ww_secrets v" "length (ww_secrets v 0) = 32"
    "carries K t ttl peer ppriv own (p, w\<lparr>st_secrets := \<lambda>i. st_secrets w (Suc i)\<rparr>)
       (v\<lparr>ww_secrets := \<lambda>i. ww_secrets v (Suc i)\<rparr>)"
  using assms by (auto simp: carries_def wf_secrets_def)

lemma carries_recv:
  assumes "carries K t ttl peer ppriv own (p, w) v"
  shows "\<exists>p1 w1. ff_peer_Recv (stream_net K peer) p w = (fst (peer_Recv wire_dice v), p1, w1)
      \<and> carries K t ttl peer ppriv own (p1, w1) (snd (peer_Recv wire_dice v))"
    and "\<exists>p1 w1. peer_RecvMove (stream_net K peer) p w
        = (fst (RecvMove (wire_session enc convertfactorfightpbMoveToInternal pick) v), p1, w1)
      \<and> carries K t ttl peer ppriv own (p1, w1) (snd (RecvMove (wire_session enc convertfactorfightpbMoveToInternal pick) v))"
proof -
  have "(\<exists>p1 w1. ff_peer_Recv (stream_net K peer) p w = (fst (peer_Recv wire_dice v), p1, w1)
      \<and> carries K t ttl peer ppriv own (p1, w1) (snd (peer_Recv wire_dice v)))
    \<and> (\<exists>p1 w1. peer_RecvMove (stream_net K peer) p w
        = (fst (RecvMove (wire_session enc convertfactorfightpbMoveToInternal pick) v), p1, w1)
      \<and> carries K t ttl peer ppriv own (p1, w1) (snd (RecvMove (wire_session enc convertfactorfightpbMoveToInternal pick) v)))"
  proof (cases "ww_in v")
    case Nil
    with assms carries_recv_Nil [OF assms Nil] show ?thesis
      by (simp add: ff_peer_Recv_def peer_RecvMove_def wire_dice_def wire_session_def)
  next
    case (Cons x r)
    then have wf: "wf_wire x" using assms by (simp add: carries_def)
    from carries_recv_Cons [OF assms Cons] obtain p1 w1 where
      "peer_recv_message (stream_net K peer) p w = (Inr (to_ff x), p1, w1)"
      "carries K t ttl peer ppriv own (p1, w1) (v\<lparr>ww_in := r, ww_acts := ww_acts v @ [Receives]\<rparr>)" by blast
    with Cons wf show ?thesis
      by (cases x) (simp_all add: ff_peer_Recv_def peer_RecvMove_def wire_dice_def wire_session_def)
  qed
  then show "\<exists>p1 w1. ff_peer_Recv (stream_net K peer) p w = (fst (peer_Recv wire_dice v), p1, w1)
      \<and> carries K t ttl peer ppriv own (p1, w1) (snd (peer_Recv wire_dice v))"
    and "\<exists>p1 w1. peer_RecvMove (stream_net K peer) p w
        = (fst (RecvMove (wire_session enc convertfactorfightpbMoveToInternal pick) v), p1, w1)
      \<and> carries K t ttl peer ppriv own (p1, w1) (snd (RecvMove (wire_session enc convertfactorfightpbMoveToInternal pick) v))"
    by blast+
qed

interpretation signed_dice: dice_sim "ff_dice_env (stream_net K peer)" wire_dice "carries K t ttl peer ppriv own"
  for K t ttl peer ppriv own
proof
  fix x y v s x'
  assume c: "carries K t ttl peer ppriv own x v" and r: "rand_Read (ff_dice_env (stream_net K peer)) x = (s, x')"
  obtain p w where x: "x = (p, w)" by (cases x)
  from carries_rand [OF c [unfolded x]] r show "\<exists>v'. rand_Read wire_dice v = (s, v') \<and> carries K t ttl peer ppriv own x' v' \<and> length s = 32"
    by (auto simp: x ff_dice_env_def)
next
  fix x v m e x'
  assume c: "carries K t ttl peer ppriv own x v" and r: "peer_Send (ff_dice_env (stream_net K peer)) x m = (e, x')"
  obtain p w where x: "x = (p, w)" by (cases x)
  from carries_send [OF c [unfolded x], of "W_Dice m"] r
  show "\<exists>v'. peer_Send wire_dice v m = (e, v') \<and> carries K t ttl peer ppriv own x' v'"
    by (auto simp: x ff_dice_env_def ff_peer_Send_def)
next
  fix x v r x'
  assume c: "carries K t ttl peer ppriv own x v" and r: "peer_Recv (ff_dice_env (stream_net K peer)) x = (r, x')"
  obtain p w where x: "x = (p, w)" by (cases x)
  from carries_recv(1) [OF c [unfolded x]] r
  show "\<exists>v'. peer_Recv wire_dice v = (r, v') \<and> carries K t ttl peer ppriv own x' v'"
    by (cases "peer_Recv wire_dice v") (auto simp: x ff_dice_env_def)
qed

text \<open>The session that \<open>NewSession\<close> makes of a stream's peer.\<close>

lemma ff_session_Inr:
  "ff_session N pick = Inr \<lparr>Session_Roller = die10, Session_dice = ff_dice_env N,
     SendMove = (\<lambda>(p, w) m. peer_SendMove N p m w), RecvMove = (\<lambda>(p, w). peer_RecvMove N p w), ChooseMove = pick\<rparr>"
  by (simp add: ff_session_def NewSession_def NewRoller_10)

abbreviation stream_session ::
    "ff_link \<Rightarrow> identity \<Rightarrow> (game_state \<Rightarrow> move list \<Rightarrow> move res) \<Rightarrow> (ff_peer \<times> ff_stream) session" where
  "stream_session K peer pick \<equiv> projr (ff_session (stream_net K peer) pick)"

abbreviation pb_session :: "(game_state \<Rightarrow> move list \<Rightarrow> move res) \<Rightarrow> pb_move wire_world session" where
  "pb_session pick \<equiv> wire_session convertInternalFactorfightMoveToProto convertfactorfightpbMoveToInternal pick"

interpretation signed_game: session_sim "lk_sha K" "stream_session K peer pick" "pb_session pick" "carries K t ttl peer ppriv own"
  for K peer pick t ttl ppriv own
proof
  show "ChooseMove (stream_session K peer pick) = ChooseMove (pb_session pick)"
    by (simp add: ff_session_Inr wire_session_def)
next
  fix x v n
  assume c: "carries K t ttl peer ppriv own x v"
  then have "hash32 (lk_sha K)" by (auto simp: carries_def sound_link_def)
  from signed_dice.RollSync_sim [OF c this]
  show "in_step_with (carries K t ttl peer ppriv own)
      (Session_RollSync (lk_sha K) (stream_session K peer pick) n x) (Session_RollSync (lk_sha K) (pb_session pick) n v)"
    by (auto simp: in_step_with_def Session_RollSync_def ff_session_Inr wire_session_def prod_eq_iff)
next
  fix x v m
  assume c: "carries K t ttl peer ppriv own x v"
  obtain p w where x: "x = (p, w)" by (cases x)
  show "in_step_with (carries K t ttl peer ppriv own) (SendMove (stream_session K peer pick) x m) (SendMove (pb_session pick) v m)"
  proof (cases "convertInternalFactorfightMoveToProto m")
    case (Inl e)
    with c x show ?thesis by (simp add: ff_session_Inr wire_session_def peer_SendMove_def)
  next
    case (Inr y)
    with carries_send [OF c [unfolded x], of "W_Move y"] x show ?thesis
      by (auto simp: ff_session_Inr wire_session_def peer_SendMove_def)
  qed
next
  fix x v
  assume c: "carries K t ttl peer ppriv own x v"
  obtain p w where x: "x = (p, w)" by (cases x)
  from carries_recv(2) [OF c [unfolded x], of convertInternalFactorfightMoveToProto pick]
  show "in_step_with (carries K t ttl peer ppriv own) (RecvMove (stream_session K peer pick) x) (RecvMove (pb_session pick) v)"
    by (auto simp: x in_step_with_def ff_session_Inr)
qed

lemma stream_plays:
  assumes "carries K t ttl peer ppriv own (p, w) v" "ww_out v = []"
    and "PlayWithInitiative (lk_sha K) (pb_session pick) fuel high v
      = Some (r, \<lparr>ww_secrets = ns, ww_in = [], ww_out = out, ww_acts = acts\<rparr>)"
  shows "\<exists>p' w'. PlayWithInitiative (lk_sha K) (stream_session K peer pick) fuel high (p, w) = Some (r, (p', w'))
    \<and> st_in w' = [] \<and> st_acts w' = acts
    \<and> st_out w' = fst (sign_all (stream_net K peer) (createFactorfightPeer own None) (map to_ff out))"
proof -
  let ?v = "\<lparr>ww_secrets = ns, ww_in = [], ww_out = out, ww_acts = acts\<rparr>"
  from signed_game.PlayWithInitiative_sim [OF assms(1), of pick fuel high] assms(3)
  obtain x where "PlayWithInitiative (lk_sha K) (stream_session K peer pick) fuel high (p, w) = Some x"
    "in_step_with (carries K t ttl peer ppriv own) x (r, ?v)"
    by (auto simp: option_rel_Some2)
  moreover from this obtain p' w' where "x = (r, (p', w'))" "carries K t ttl peer ppriv own (p', w') ?v"
    by (cases x) auto
  moreover from this have "st_in w' = []" "st_acts w' = acts"
    "st_out w' = fst (sign_all (stream_net K peer) (createFactorfightPeer own None) (map to_ff out))"
    by (auto simp: carries_def signs_on_def)
  ultimately show ?thesis by blast
qed

section \<open>Two servers\<close>

definition signed_wire :: "ff_link \<Rightarrow> identity \<Rightarrow> id_signer \<Rightarrow> pb_move wire list \<Rightarrow> signed_ff list" where
  "signed_wire K i s ms = fst (sign_all (stream_net K i) (createFactorfightPeer s None) (map to_ff ms))"

lemma carries_start:
  assumes "sound_link K t ttl" "signs_for K priv addr own" "server_of K km paddr i s"
    and "live_until ttl ver" "in_step (ff_env K i) (t + ttl) paddr (drop 32 (km_privateKey km)) ver (createFactorfightPeer s None)"
    and "wf_secrets ns" "list_all wf_wire ms" "length ms < 18446744073709551616"
  shows "carries K t ttl i (km_privateKey km) own
      (createFactorfightPeer own (Some ver), \<lparr>st_secrets = ns, st_reads = n, st_in = signed_wire K i s ms, st_out = [], st_acts = []\<rparr>)
      \<lparr>ww_secrets = ns, ww_in = ms, ww_out = [], ww_acts = []\<rparr>"
proof -
  have "signs_on K t ttl i (km_privateKey km) ver ms (signed_wire K i s ms)"
    unfolding signs_on_def signed_wire_def using assms(3,5,8)
    by (intro exI [of _ "createFactorfightPeer s None"]) (simp add: server_of_def createFactorfightPeer_def)
  with assms show ?thesis by (auto simp: carries_def createFactorfightPeer_def)
qed

section \<open>Honest wires are well formed\<close>

lemma dice_part_wf:
  assumes "hash32 sha" "length s = 32" "roll die10 seed = Inr rs"
  shows "list_all wf_wire (dice_part sha s rs)"
  using roll_messages_valid [OF assms(1,2), of rs] roll_Inr_length [OF assms(3)]
  by (auto simp: list_all_iff valid_message_def)

lemma half_round_wf:
  assumes "half_round sha enc dec pick mover n s other n' s' = Some (mover', other', outM, outO)"
    and "hash32 sha" "length s = 32" "length s' = 32"
  shows "list_all wf_wire outM \<and> list_all wf_wire outO"
proof -
  from assms(1) obtain rs x where "roll die10 (rollSeed sha s s') = Inr rs" "outM = dice_part sha s rs @ [W_Move x]"
    "outO = dice_part sha s' rs" by (rule half_round_SomeE)
  with assms(3,4) show ?thesis by (simp add: dice_part_wf [OF assms(2)])
qed

lemma later_wf [simp]: "wf_secrets ns \<Longrightarrow> wf_secrets (later k ns)"
  by (simp add: wf_secrets_def)

lemma duel_wf:
  assumes "duel sha enc dec pickA pickB fuel n k A nsA B nsB = Some (won, A', B', wA, wB)"
    and "hash32 sha" "wf_secrets nsA" "wf_secrets nsB"
  shows "list_all wf_wire wA \<and> list_all wf_wire wB"
  using assms(1,3,4)
proof (induction fuel arbitrary: n k A nsA B nsB won A' B' wA wB)
  case (Suc fuel)
  note half = half_round_wf [OF _ assms(2)]
  from Suc.prems(1) show ?case
  proof (cases rule: duel_cases)
    case (first f outA outB)
    with half [OF first(6)] Suc.prems(2,3) show ?thesis by simp
  next
    case (second f A1 B1 outA outB outA2 outB2)
    with half [OF second(7)] half [OF second(8)] Suc.prems(2,3) show ?thesis by simp
  next
    case (more f A1 B1 A2 B2 outA outB outA2 outB2 outA3 outB3)
    then have "f = fuel" by simp
    note Suc.IH [OF more(8) [unfolded this] later_wf later_wf, OF Suc.prems(2,3)]
    with half [OF more(6)] half [OF more(7)] Suc.prems(2,3) more show ?thesis by simp
  qed
qed simp

lemma honest_game_wf:
  assumes "honest_game sha enc dec pickH pickL fuel nsH nsL = Some (won, H, L, wH, wL)"
    and "hash32 sha" "wf_secrets nsH" "wf_secrets nsL"
  shows "list_all wf_wire wH \<and> list_all wf_wire wL"
  using assms(1)
  by (auto simp: honest_game_def Let_def dice_part_wf assms(2-4) split: sum.splits if_splits
      dest!: duel_wf [OF _ assms(2)])

section \<open>Two honest servers finish a game\<close>

text \<open>Each end alone, against what an honest other end signs.\<close>

lemma Play_finishes:
  assumes link: "sound_link K t DefaultVerifierTTL"
    and servers: "server_of K kmH addrH idH sH" "server_of K kmL addrL idL sL"
    and wire: "wf_secrets nsH" "list_all wf_wire wireL" "length wireL < 18446744073709551616"
    and play: "PlayWithInitiative (lk_sha K) (pb_session (resolveStrategy (cfg_Strategy cfgH))) fuel True
        \<lparr>ww_secrets = nsH, ww_in = wireL, ww_out = [], ww_acts = []\<rparr>
      = Some ((won, log, None), \<lparr>ww_secrets = ns', ww_in = [], ww_out = wireH, ww_acts = actsH\<rparr>)"
  shows "\<exists>w. Service_Play (stream_net K idL) cfgH kmH addrH fuel
        \<lparr>st_secrets = nsH, st_reads = nH, st_in = signed_wire K idL sL wireL, st_out = [], st_acts = []\<rparr>
      = Some (None, complete cfgH won log w)
    \<and> st_in w = [] \<and> st_out w = signed_wire K idH sH wireH \<and> st_acts w = actsH"
proof -
  have ttl: "0 < DefaultVerifierTTL" by (simp add: DefaultVerifierTTL_def)
  have "reports_key (ff_env K idL) addrL (drop 32 (km_privateKey kmL))"
    using servers(2) by (simp add: reports_key_def fetch_stream server_of_def)
  note fresh = fresh_in_step [OF stream_clock [OF link] ttl]
  from carries_start [OF link _ servers(2) fresh(3) fresh(1) [OF \<open>reports_key _ _ _\<close>] wire]
  have "carries K t DefaultVerifierTTL idL (km_privateKey kmL) sH
      (createFactorfightPeer sH (Some (NewVerifier DefaultVerifierTTL)),
       \<lparr>st_secrets = nsH, st_reads = nH, st_in = signed_wire K idL sL wireL, st_out = [], st_acts = []\<rparr>)
      \<lparr>ww_secrets = nsH, ww_in = wireL, ww_out = [], ww_acts = []\<rparr>"
    using servers(1) by (auto simp: server_of_def)
  from stream_plays [OF this _ play] show ?thesis
    by (auto simp: Service_Play_def server_pair [OF servers(1)] ff_session_Inr signed_wire_def
        sign_all_any_peer [of K idH _ _ idL])
qed

lemma Challenge_finishes:
  assumes link: "sound_link K t DefaultVerifierTTL"
    and servers: "server_of K kmH addrH idH sH" "server_of K kmL addrL idL sL"
    and wire: "wf_secrets nsL" "list_all wf_wire wireH" "length wireH < 18446744073709551616"
    and play: "PlayWithInitiative (lk_sha K) (pb_session (resolveStrategy (cfg_Strategy cfgL))) fuel False
        \<lparr>ww_secrets = nsL, ww_in = wireH, ww_out = [], ww_acts = []\<rparr>
      = Some ((won, log, None), \<lparr>ww_secrets = ns', ww_in = [], ww_out = wireL, ww_acts = actsL\<rparr>)"
  shows "\<exists>w. Service_Challenge (stream_net K idH) (\<lambda>w. (None, w)) (\<lambda>w. (None, w)) cfgL kmL addrL fuel addrH
        \<lparr>st_secrets = nsL, st_reads = nL, st_in = signed_wire K idH sH wireH, st_out = [], st_acts = []\<rparr>
      = Some ((Some \<lparr>resp_Win = Some won, resp_Message = ''''\<rparr>, None), complete cfgL won log w)
    \<and> st_in w = [] \<and> st_out w = signed_wire K idL sL wireL \<and> st_acts w = actsL"
proof -
  have ttl: "0 < DefaultVerifierTTL" by (simp add: DefaultVerifierTTL_def)
  let ?w = "\<lambda>n. \<lparr>st_secrets = nsL, st_reads = n, st_in = signed_wire K idH sH wireH, st_out = [], st_acts = []\<rparr>"
  obtain v where v: "AddPeerIdentity (ff_env K idH) (NewVerifier DefaultVerifierTTL) addrH (drop 32 (km_privateKey kmH)) (?w nL)
      = (v, ?w (Suc nL))" by (simp add: AddPeerIdentity_def)
  have id: "ve_GetIdentity (ff_env K idH) addrH w = (Inr idH, w)" "PublicKey idH = drop 32 (km_privateKey kmH)" for w
    using servers(1) by (simp_all add: stream_env_def server_of_def)
  from fresh_in_step(2) [OF stream_clock [OF link] ttl v, of sH None]
  have "carries K t DefaultVerifierTTL idH (km_privateKey kmH) sL (createFactorfightPeer sL (Some v), ?w (Suc nL))
      \<lparr>ww_secrets = nsL, ww_in = wireH, ww_out = [], ww_acts = []\<rparr>"
    using servers(2) by (intro carries_start [OF link _ servers(1) _ _ wire]) (auto simp: server_of_def)
  from stream_plays [OF this _ play] show ?thesis
    by (auto simp: Service_Challenge_def server_pair [OF servers(2)] id v [unfolded signed_wire_def] ff_session_Inr signed_wire_def
        sign_all_any_peer [of K idL _ _ idH])
qed

text \<open>C1: two honest servers finish every game. Take two servers with sound keys and without an SQL
  store, any strategies that pick one of the offered moves, any secrets, and the game they make
  together, if it ends within the lifetime of the verifiers' entries. Then \<open>Service.Play\<close>, which knows
  nothing of its opponent but fetches its key when the first message arrives, and
  \<open>Service.Challenge\<close>, which caches the target's key first, each given the signed stream of the
  other, play that game to its end: no signature, hash chain or move is rejected, each sends the
  stream that the other was given, both report who won and complete with their logs. Nor do they
  deadlock: however the sends and receives of the two are interleaved, when each receive waits for
  its message and each send for room in the stream, be it for one message only, one of the two
  can always go on until both are done.\<close>

theorem honest_servers_finish:
  assumes link: "sound_link K t DefaultVerifierTTL"
    and servers: "server_of K kmH addrH idH sH" "server_of K kmL addrL idL sL"
    and strategies: "strategy (resolveStrategy (cfg_Strategy cfgH))" "strategy (resolveStrategy (cfg_Strategy cfgL))"
    and game: "honest_game (lk_sha K) convertInternalFactorfightMoveToProto convertfactorfightpbMoveToInternal
      (resolveStrategy (cfg_Strategy cfgH)) (resolveStrategy (cfg_Strategy cfgL)) fuel nsH nsL = Some (won, H, L, wireH, wireL)"
    and secrets: "wf_secrets nsH" "wf_secrets nsL"
    and short: "length wireH < 18446744073709551616" "length wireL < 18446744073709551616"
  shows "\<exists>actsH actsL. (\<exists>w. Service_Play (stream_net K idL) cfgH kmH addrH fuel
        \<lparr>st_secrets = nsH, st_reads = nH, st_in = signed_wire K idL sL wireL, st_out = [], st_acts = []\<rparr>
      = Some (None, complete cfgH won (GameLog H) w)
      \<and> st_in w = [] \<and> st_out w = signed_wire K idH sH wireH \<and> st_acts w = actsH)
    \<and> (\<exists>w. Service_Challenge (stream_net K idH) (\<lambda>w. (None, w)) (\<lambda>w. (None, w)) cfgL kmL addrL fuel addrH
        \<lparr>st_secrets = nsL, st_reads = nL, st_in = signed_wire K idH sH wireH, st_out = [], st_acts = []\<rparr>
      = Some ((Some \<lparr>resp_Win = Some (\<not> won), resp_Message = ''''\<rparr>, None), complete cfgL (\<not> won) (GameLog L) w)
      \<and> st_in w = [] \<and> st_out w = signed_wire K idL sL wireL \<and> st_acts w = actsL)
    \<and> never_block actsH actsL"
proof -
  have "hash32 (lk_sha K)" using link by (simp add: sound_link_def)
  then have wf: "list_all wf_wire wireH" "list_all wf_wire wireL"
    using honest_game_wf [OF game _ secrets] by simp_all
  obtain actsH actsL where
    "\<exists>ns'. PlayWithInitiative (lk_sha K) (pb_session (resolveStrategy (cfg_Strategy cfgH))) fuel True
        \<lparr>ww_secrets = nsH, ww_in = wireL, ww_out = [], ww_acts = []\<rparr>
      = Some ((won, GameLog H, None), \<lparr>ww_secrets = ns', ww_in = [], ww_out = wireH, ww_acts = actsH\<rparr>)"
    "\<exists>ns'. PlayWithInitiative (lk_sha K) (pb_session (resolveStrategy (cfg_Strategy cfgL))) fuel False
        \<lparr>ww_secrets = nsL, ww_in = wireH, ww_out = [], ww_acts = []\<rparr>
      = Some ((\<not> won, GameLog L, None), \<lparr>ww_secrets = ns', ww_in = [], ww_out = wireL, ww_acts = actsL\<rparr>)"
    and free: "never_block actsH actsL"
    by (rule honest_players_finish [OF strategies game])
  then obtain ns1 ns2 where ends: "PlayWithInitiative (lk_sha K) (pb_session (resolveStrategy (cfg_Strategy cfgH))) fuel True
        \<lparr>ww_secrets = nsH, ww_in = wireL, ww_out = [], ww_acts = []\<rparr>
      = Some ((won, GameLog H, None), \<lparr>ww_secrets = ns1, ww_in = [], ww_out = wireH, ww_acts = actsH\<rparr>)"
    "PlayWithInitiative (lk_sha K) (pb_session (resolveStrategy (cfg_Strategy cfgL))) fuel False
        \<lparr>ww_secrets = nsL, ww_in = wireH, ww_out = [], ww_acts = []\<rparr>
      = Some ((\<not> won, GameLog L, None), \<lparr>ww_secrets = ns2, ww_in = [], ww_out = wireL, ww_acts = actsL\<rparr>)"
    by (elim exE)
  note play = Play_finishes [OF link servers secrets(1) wf(2) short(2) ends(1)]
    and challenge = Challenge_finishes [OF link servers secrets(2) wf(1) short(1) ends(2)]
  show ?thesis by (rule exI, rule exI, rule conjI [OF play conjI [OF challenge free]])
qed

abbreviation ff_example_link :: ff_link where
  "ff_example_link \<equiv> example_link"

text \<open>The quick game, between the servers of two example keys with the same secrets: what the other
  end receives has lost its expressions.\<close>

definition quick_ns :: "nat \<Rightarrow> bytes" where
  "quick_ns i = (if i < 6 then (secret_for 10 1 # quick_secrets) ! i else replicate 32 0)"

definition sent :: "move \<Rightarrow> move" where
  "sent m = convertfactorfightpbMoveToInternal (projr (convertInternalFactorfightMoveToProto m))"

definition sent_wire :: "move \<Rightarrow> pb_move wire" where
  "sent_wire m = W_Move (projr (convertInternalFactorfightMoveToProto m))"

definition "H1 = own_turn (winner_moves ! 0) 0 [10, 10] initial_state"
definition "H2 = peer_turn (sent (loser_moves ! 0)) 0 [1, 1] H1"
definition "H3 = own_turn (winner_moves ! 1) 1 [1, 10] H2"
definition "H4 = peer_turn (sent (loser_moves ! 1)) 1 [1, 1] H3"
definition "H5 = own_turn (winner_moves ! 2) 2 [10, 1] H4"
definition "C1 = peer_turn (sent (winner_moves ! 0)) 0 [10, 10] initial_state"
definition "C2 = own_turn (loser_moves ! 0) 0 [1, 1] C1"
definition "C3 = peer_turn (sent (winner_moves ! 1)) 0 [1, 10] C2"
definition "C4 = own_turn (loser_moves ! 1) 1 [1, 1] C3"
definition "C5 = peer_turn (sent (winner_moves ! 2)) 1 [10, 1] C4"

definition sent_dice :: "nat \<Rightarrow> pb_move wire list" where
  "sent_dice i = dice_part example_hash (quick_ns i) (projr (roll die10 (rollSeed example_hash (quick_ns i) (quick_ns i))))"

abbreviation sent_half ::
    "(game_state \<Rightarrow> move list \<Rightarrow> move res) \<Rightarrow> nat \<Rightarrow> game_state \<Rightarrow> int \<Rightarrow> game_state \<Rightarrow> int
     \<Rightarrow> (game_state \<times> game_state \<times> pb_move wire list \<times> pb_move wire list) option" where
  "sent_half pick i st n st' n' \<equiv> half_round example_hash convertInternalFactorfightMoveToProto
     convertfactorfightpbMoveToInternal pick st n (quick_ns i) st' n' (quick_ns i)"

lemma sent_half1: "sent_half quick_pick 1 initial_state 0 initial_state 0 =
    Some (H1, C1, sent_dice 1 @ [sent_wire (winner_moves ! 0)], sent_dice 1)" by code_simp

lemma sent_half2: "sent_half ClosestMove_ChooseMove 2 C1 0 H1 0 =
    Some (C2, H2, sent_dice 2 @ [sent_wire (loser_moves ! 0)], sent_dice 2)" by code_simp
lemma sent_half3: "sent_half quick_pick 3 H2 1 C2 0 =
    Some (H3, C3, sent_dice 3 @ [sent_wire (winner_moves ! 1)], sent_dice 3)" by code_simp
lemma sent_half4: "sent_half ClosestMove_ChooseMove 4 C3 1 H3 1 =
    Some (C4, H4, sent_dice 4 @ [sent_wire (loser_moves ! 1)], sent_dice 4)" by code_simp
lemma sent_half5: "sent_half quick_pick 5 H4 2 C4 1 =
    Some (H5, C5, sent_dice 5 @ [sent_wire (winner_moves ! 2)], sent_dice 5)" by code_simp

lemma sent_initiative: "roll die10 (rollSeed example_hash (quick_ns 0) (quick_ns 0)) = Inr [10, 1, 1, 1, 1, 1, 1, 1]"
  by code_simp

lemma sent_not_over: "\<not> State_Win C2" "\<not> State_Win C4" "\<not> State_Win H1" "\<not> State_Win H3" "State_Win H5"
  by code_simp+

lemma sent_duel:
  "\<exists>wA wB. duel example_hash convertInternalFactorfightMoveToProto convertfactorfightpbMoveToInternal
     quick_pick ClosestMove_ChooseMove 3 0 0 initial_state (later 1 quick_ns) initial_state (later 1 quick_ns)
     = Some (True, H5, C5, wA, wB) \<and> length wA \<le> 100 \<and> length wB \<le> 100"
proof -
  have three: "(3 :: nat) = Suc (Suc (Suc 0))" by simp
  show ?thesis unfolding three
    by (simp add: sent_not_over sent_half1 sent_half2 sent_half3 sent_half4 sent_half5 sent_dice_def
        roll_messages_def del: One_nat_def)
qed

lemma sent_game:
  obtains wireH wireL where
    "honest_game example_hash convertInternalFactorfightMoveToProto convertfactorfightpbMoveToInternal
       quick_pick ClosestMove_ChooseMove 3 quick_ns quick_ns = Some (True, H5, C5, wireH, wireL)"
    "length wireH < 18446744073709551616" "length wireL < 18446744073709551616"
proof -
  obtain wA wB where d: "duel example_hash convertInternalFactorfightMoveToProto convertfactorfightpbMoveToInternal
     quick_pick ClosestMove_ChooseMove 3 0 0 initial_state (later 1 quick_ns) initial_state (later 1 quick_ns)
     = Some (True, H5, C5, wA, wB)" "length wA \<le> 100" "length wB \<le> 100"
    using sent_duel by blast
  have h: "(5 :: 16 word) < hd [10, 1, 1, 1, 1, 1, 1, 1]" by simp
  show thesis
    by (rule that, unfold honest_game_def sent_initiative sum.case Let_def if_P [OF h] d(1), simp)
      (use d(2,3) in \<open>simp_all add: roll_messages_def\<close>)
qed

lemma quick_ns_wf: "wf_secrets quick_ns"
  by (auto simp: wf_secrets_def quick_ns_def quick_secrets_def secret_for_def less_Suc_eq numeral_eq_Suc)

theorem honest_servers_finish_witness:
  "\<exists>w w' sH sL. never_block (st_acts w) (st_acts w') \<and>
     Service_Play (stream_net ff_example_link (example_identity 2 ''bob:1'' ''s''))
        \<lparr>cfg_Strategy = Some quick_pick, OnGameComplete = None\<rparr> (keys_of 1 ''al:1'') ''al:1'' 3
        \<lparr>st_secrets = quick_ns, st_reads = 0, st_in = sL, st_out = [], st_acts = []\<rparr> = Some (None, w)
   \<and> st_in w = [] \<and> st_out w = sH
   \<and> Service_Challenge (stream_net ff_example_link (example_identity 1 ''al:1'' ''s'')) (\<lambda>w. (None, w)) (\<lambda>w. (None, w))
        \<lparr>cfg_Strategy = None, OnGameComplete = None\<rparr> (keys_of 2 ''bob:1'') ''bob:1'' 3 ''al:1''
        \<lparr>st_secrets = quick_ns, st_reads = 0, st_in = sH, st_out = [], st_acts = []\<rparr>
      = Some ((Some \<lparr>resp_Win = Some False, resp_Message = ''''\<rparr>, None), w')
   \<and> st_in w' = [] \<and> st_out w' = sL"
proof -
  let ?cH = "\<lparr>cfg_Strategy = Some quick_pick, OnGameComplete = None\<rparr> :: ff_stream ff_config"
  let ?cL = "\<lparr>cfg_Strategy = None, OnGameComplete = None\<rparr> :: ff_stream ff_config"
  have r: "resolveStrategy (cfg_Strategy ?cH) = quick_pick" "resolveStrategy (cfg_Strategy ?cL) = ClosestMove_ChooseMove"
    "lk_sha ff_example_link = example_hash" by (simp_all add: resolveStrategy_def example_link_def)
  obtain wireH wireL where g: "honest_game (lk_sha ff_example_link) convertInternalFactorfightMoveToProto convertfactorfightpbMoveToInternal
       (resolveStrategy (cfg_Strategy ?cH)) (resolveStrategy (cfg_Strategy ?cL)) 3 quick_ns quick_ns = Some (True, H5, C5, wireH, wireL)"
    "length wireH < 18446744073709551616" "length wireL < 18446744073709551616" unfolding r by (rule sent_game)
  have s: "strategy (resolveStrategy (cfg_Strategy ?cH))" "strategy (resolveStrategy (cfg_Strategy ?cL))"
    unfolding r by (rule quick.strategy_axioms closest.strategy_axioms)+
  have a: "''al:1'' \<noteq> ''''" "''bob:1'' \<noteq> ''''" by simp_all
  have c: "complete \<lparr>cfg_Strategy = x, OnGameComplete = None\<rparr> won log w = w" for x won log and w :: ff_stream
    by (simp add: complete_def)
  note fin = honest_servers_finish [OF example_link_sound example_server_of [OF a(1), of 1] example_server_of [OF a(2), of 2]
      s g(1) quick_ns_wf quick_ns_wf g(2,3), of 0 0, unfolded c not_True_eq_False]
  then show ?thesis by (elim conjE exE) (intro exI conjI; simp)
qed

end
