(* ===== verification/App_Games.thy ===== *)
theory App_Games
  imports App_Start Cmd_Line Srv_Wire Srv_HighRoll
begin

text \<open>
  The games of a server and how a challenge reaches them: the constructors and identifiers of the
  two services (\<open>server/factorfight/service.go\<close>, \<open>server/highroll/service.go\<close>), the options
  \<open>WithFactorFight\<close> and \<open>WithHighRoll\<close> (\<open>ztg.go\<close>), and the whole way of a challenge, from the
  owner's command over the handler and the registry to the end of the game.
\<close>

section \<open>The services\<close>

definition ff_GameID :: string where "ff_GameID = ''ztg.FactorFight.v1''"
definition hr_GameID :: string where "hr_GameID = ''ztg.HighRoll.v1''"

record 'w ff_service =
  ffs_cfg :: "'w ff_config"
  ffs_keyManager :: key_manager
  ffs_serverAddr :: string

definition ff_NewService :: "'w ff_config \<Rightarrow> key_manager \<Rightarrow> string \<Rightarrow> 'w ff_service" where
  "ff_NewService cfg km serverAddr = \<lparr>ffs_cfg = cfg, ffs_keyManager = km, ffs_serverAddr = serverAddr\<rparr>"

record hr_service =
  hrs_keyManager :: key_manager
  hrs_serverAddr :: string

definition hr_NewService :: "key_manager \<Rightarrow> string \<Rightarrow> hr_service" where
  "hr_NewService km serverAddr = \<lparr>hrs_keyManager = km, hrs_serverAddr = serverAddr\<rparr>"

text \<open>The error inside a \<open>GameError\<close> is what it prints and unwraps to.\<close>

fun GameError_Unwrap :: "game_error \<Rightarrow> go_error" where
  "GameError_Unwrap (GameError log e) = e"
| "GameError_Unwrap (PlainError e) = e"

text \<open>What the caller of a handler sees: the response only when there is no error.\<close>

definition rpc_result :: "challenge_response option \<times> game_error option \<Rightarrow> challenge_response res" where
  "rpc_result r =
     (case r of
        (_, Some e) \<Rightarrow> Inl (GameError_Unwrap e)
      | (None, None) \<Rightarrow> Inl (Errorf ''grpc: error while marshaling: proto: Marshal called with nil'')
      | (Some x, None) \<Rightarrow> Inr x)"

definition ff_game ::
    "'w ff_net \<Rightarrow> ('w \<Rightarrow> go_error option \<times> 'w) \<Rightarrow> ('w \<Rightarrow> go_error option \<times> 'w) \<Rightarrow> nat \<Rightarrow> 'w ff_service \<Rightarrow> 'w game" where
  "ff_game N open_stream close_send fuel s =
     \<lparr>game_ID = ff_GameID, game_Register = ''factorfight.v1.FactorFightService'',
      game_Challenge = (\<lambda>target w. map_option (\<lambda>(r, w1). (rpc_result r, w1))
        (Service_Challenge N open_stream close_send (ffs_cfg s) (ffs_keyManager s) (ffs_serverAddr s) fuel target w))\<rparr>"

definition hr_game ::
    "'w hr_net \<Rightarrow> ('w \<Rightarrow> go_error option \<times> 'w) \<Rightarrow> ('w \<Rightarrow> go_error option \<times> 'w) \<Rightarrow> hr_service \<Rightarrow> 'w game" where
  "hr_game N open_stream close_send s =
     \<lparr>game_ID = hr_GameID, game_Register = ''dice.v1.DiceService'',
      game_Challenge = (\<lambda>target w. Some (HighRoll_Challenge N open_stream close_send (hrs_keyManager s) (hrs_serverAddr s) w))\<rparr>"

section \<open>The options\<close>

definition WithFactorFight ::
    "'w ff_net \<Rightarrow> ('w \<Rightarrow> go_error option \<times> 'w) \<Rightarrow> ('w \<Rightarrow> go_error option \<times> 'w) \<Rightarrow> nat \<Rightarrow> 'w ff_config \<Rightarrow> 'w app_option" where
  "WithFactorFight N open_stream close_send fuel cfg =
     (\<lambda>km conf. ff_game N open_stream close_send fuel (ff_NewService cfg km (cfg_ServerAddress (cfg_Identity conf))))"

definition WithHighRoll ::
    "'w hr_net \<Rightarrow> ('w \<Rightarrow> go_error option \<times> 'w) \<Rightarrow> ('w \<Rightarrow> go_error option \<times> 'w) \<Rightarrow> 'w app_option" where
  "WithHighRoll N open_stream close_send =
     (\<lambda>km conf. hr_game N open_stream close_send (hr_NewService km (cfg_ServerAddress (cfg_Identity conf))))"

text \<open>The registry of a server with both games.\<close>

lemma both_games:
  assumes "srv_registry s = newRegistry"
  shows "registry_challenge (srv_registry (apply_options km conf [WithFactorFight N o1 c1 fuel cfg, WithHighRoll M o2 c2] s)) i =
     (if i = hr_GameID then Some (game_Challenge (WithHighRoll M o2 c2 km conf))
      else if i = ff_GameID then Some (game_Challenge (WithFactorFight N o1 c1 fuel cfg km conf))
      else None)"
  using assms
  by (simp add: apply_options_def Server_Register_def registry_challenge_register WithFactorFight_def WithHighRoll_def
      ff_game_def hr_game_def registry_challenge_def newRegistry_def registerGame_def)

section \<open>From the command to the game\<close>

text \<open>A remote procedure that returns what the handler returns, when it returns.\<close>

definition answers :: "('r \<Rightarrow> 'w \<Rightarrow> 'a \<times> 'w) \<Rightarrow> ('r \<Rightarrow> 'w \<Rightarrow> ('a \<times> 'w) option) \<Rightarrow> bool" where
  "answers rpc handler \<longleftrightarrow> (\<forall>r w x. handler r w = Some x \<longrightarrow> rpc r w = x)"

lemma challenge_message_ok:
  assumes "cmd_signer E cfg a = Inr s" "ed_correct (cmd_ed E) (privateKey s)"
    and "marshal \<lparr>ch_Target = target, ch_GameId = i\<rparr> = Inr b"
  shows "\<exists>sg. challenge_message E cfg a marshal target i
      = Inr \<lparr>sc_Challenge = Some \<lparr>ch_Target = target, ch_GameId = i\<rparr>, sc_Signature = Some sg\<rparr>
    \<and> SignerAddress sg = a \<and> sig_Signature sg = ed_Sign (cmd_ed E) (privateKey s) (cmd_sha E b)"
  using assms cmd_signer_InrD [OF assms(1)]
  by (simp add: challenge_message_def SignProto_def SignMessage_def identity_Sign_def ed25519_Sign_def ed_correct_def Let_def)

text \<open>A challenge that the owner signed reaches the registered game.\<close>

lemma owner_challenge_dispatched:
  assumes "SignerAddress sg = ''owner''" "sig_Signature sg \<noteq> []" "marshal ch = Inr b"
    and "length (ownerPublicKey km) = 32" "ed_Verify (ve_ed env) (ownerPublicKey km) (ve_sha env b) (sig_Signature sg)"
    and "\<forall>w. NewClient env (ch_Target ch) w = (None, w)"
    and "registry_challenge reg (ch_GameId ch) = Some challenge"
  shows "svc_Challenge env marshal km reg \<lparr>sc_Challenge = Some ch, sc_Signature = Some sg\<rparr> w
    = challenge (ch_Target ch) (snd (ve_now env (snd (owner_verifier env km w))))"
proof -
  obtain v w1 where v: "owner_verifier env km w = (v, w1)" by fastforce
  have "check_signature env (ownerPublicKey km) b (sig_Signature sg) e = None" for e
    using assms(4,5) by (simp add: check_signature_None_iff)
  with owner_cached [of env km w w1] assms(1,2) have
    "VerifyMessageSignature env v b (Some sg) w1 = (None, v, snd (ve_now env w1))"
    by (simp add: VerifyMessageSignature_def v)
  with assms v show ?thesis by (simp add: svc_Challenge_def VerifySignatureProto_def)
qed

lemma NewClient_stream [simp]: "NewClient (ff_env K i) a w = (None, w)"
  by (simp add: NewClient_def stream_env_def)

text \<open>C4: a challenge works from the command line to the end of the game. When the owner's
  \<open>challenge send\<close>, with the key at the default path, reaches a server with both games, the
  server checks the owner's signature, finds FactorFight by its identifier and plays the target;
  against an honest target (see the game of two honest servers: no SQL store, the clock within
  the lifetime of the entries) the game ends and the command gets its result. The command's
  timeout is not part of the model.\<close>

theorem owner_challenge_plays:
  assumes link: "sound_link K t DefaultVerifierTTL"
    and servers: "server_of K kmH addrH idH sH" "server_of K kmL addrL idL sL"
    and strategies: "strategy (resolveStrategy (cfg_Strategy cfgH))" "strategy (resolveStrategy (cfg_Strategy cfgL))"
    and game: "honest_game (lk_sha K) convertInternalFactorfightMoveToProto convertfactorfightpbMoveToInternal
      (resolveStrategy (cfg_Strategy cfgH)) (resolveStrategy (cfg_Strategy cfgL)) fuel nsH nsL = Some (won, H, L, wireH, wireL)"
    and secrets: "wf_secrets nsH" "wf_secrets nsL" and short: "length wireH < 18446744073709551616"
    and owner: "cmd_signer E (send_cfg exampleKeyPath) ''owner'' = Inr s" "ed_correct (lk_ed K) (privateKey s)"
      "\<forall>m. ed_Sign (lk_ed K) (privateKey s) m \<noteq> []" "ownerPublicKey kmL = drop 32 (privateKey s)"
    and cmd: "cmd_ed E = lk_ed K" "cmd_sha E = lk_sha K" "cmd_dial E addrL w = (None, w)"
      "marshal \<lparr>ch_Target = addrH, ch_GameId = ff_GameID\<rparr> = Inr b"
    and reg: "srv_registry app = newRegistry" "cfg_ServerAddress (cfg_Identity conf) = addrL"
      "reg = srv_registry (apply_options kmL conf [WithFactorFight (stream_net K idH) (\<lambda>w. (None, w)) (\<lambda>w. (None, w)) fuel cfgL,
        WithHighRoll M o2 c2] app)"
    and args: "parsed (flags_of [''challenge'', ''send''])
      [''target'' \<mapsto> F_String addrH, ''game'' \<mapsto> F_String ff_GameID, ''server'' \<mapsto> F_String addrL] args"
    and rpc: "answers rpc (svc_Challenge (ff_env K idH) marshal kmL reg)"
    and world: "w = \<lparr>st_secrets = nsL, st_reads = n, st_in = signed_wire K idH sH wireH, st_out = [], st_acts = []\<rparr>"
  shows "\<exists>w'. challenge_send_Action E marshal rpc args w
      = (Inr [''Challenge sent successfully!'', ''Target: '' @ addrH, ''Game: '' @ ff_GameID, ''Win: '' @ show_bool (\<not> won)],
         complete cfgL (\<not> won) (GameLog L) w')
    \<and> st_out w' = signed_wire K idL sL wireL"
proof -
  let ?ch = "\<lparr>ch_Target = addrH, ch_GameId = ff_GameID\<rparr>"
  have sha: "hash32 (lk_sha K)" using link by (simp add: sound_link_def)
  obtain actsL ns2 where 2: "PlayWithInitiative (lk_sha K) (pb_session (resolveStrategy (cfg_Strategy cfgL))) fuel False
        \<lparr>ww_secrets = nsL, ww_in = wireH, ww_out = [], ww_acts = []\<rparr>
      = Some ((\<not> won, GameLog L, None), \<lparr>ww_secrets = ns2, ww_in = [], ww_out = wireL, ww_acts = actsL\<rparr>)"
    by (rule honest_players_finish [OF strategies game]) (elim exE)
  have wf: "list_all wf_wire wireH" using honest_game_wf [OF game sha secrets] by simp
  from challenge_message_ok [OF owner(1), of marshal addrH ff_GameID b] owner(2) cmd(1,4) obtain sg where
    m: "challenge_message E (send_cfg exampleKeyPath) ''owner'' marshal addrH ff_GameID
      = Inr \<lparr>sc_Challenge = Some ?ch, sc_Signature = Some sg\<rparr>"
    and sg: "SignerAddress sg = ''owner''" "sig_Signature sg = ed_Sign (lk_ed K) (privateKey s) (lk_sha K b)"
    using cmd(2) by auto
  let ?play = "game_Challenge (WithFactorFight (stream_net K idH) (\<lambda>w. (None, w)) (\<lambda>w. (None, w)) fuel cfgL kmL conf)"
  let ?w2 = "\<lparr>st_secrets = nsL, st_reads = n + 2, st_in = signed_wire K idH sH wireH, st_out = [], st_acts = []\<rparr>"
  have "registry_challenge reg ff_GameID = Some ?play"
    unfolding reg(3) by (simp add: both_games [OF reg(1)] ff_GameID_def hr_GameID_def)
  with owner_challenge_dispatched [of sg marshal ?ch b kmL "ff_env K idH" reg ?play w] sg owner cmd(4)
  have d: "svc_Challenge (ff_env K idH) marshal kmL reg \<lparr>sc_Challenge = Some ?ch, sc_Signature = Some sg\<rparr> w
      = ?play addrH ?w2"
    by (simp add: ed_correct_def world owner_verifier_def AddPeerIdentity_def)
  from Challenge_finishes [OF link servers secrets(2) wf short 2, of "n + 2"] reg(2) obtain w' where
    "?play addrH ?w2 = Some (Inr \<lparr>resp_Win = Some (\<not> won), resp_Message = ''''\<rparr>, complete cfgL (\<not> won) (GameLog L) w')"
    "st_out w' = signed_wire K idL sL wireL"
    by (auto simp: WithFactorFight_def ff_game_def ff_NewService_def rpc_result_def)
  moreover from this d rpc have "rpc \<lparr>sc_Challenge = Some ?ch, sc_Signature = Some sg\<rparr> w
      = (Inr \<lparr>resp_Win = Some (\<not> won), resp_Message = ''''\<rparr>, complete cfgL (\<not> won) (GameLog L) w')"
    by (simp add: answers_def)
  ultimately have "sendChallenge E exampleKeyPath marshal rpc addrL addrH ff_GameID w
      = (Inr \<lparr>resp_Win = Some (\<not> won), resp_Message = ''''\<rparr>, complete cfgL (\<not> won) (GameLog L) w')"
    by (simp add: sendChallenge_def cmd_call_def m cmd(3))
  with \<open>st_out w' = _\<close> challenge_args [OF args] show ?thesis
    by (intro exI [of _ w']) (simp add: challenge_send_Action_def challenge_sent_lines_def)
qed

text \<open>The owner of the second example server sends the challenge.\<close>

definition owner_cmd :: "ff_stream cmd_env" where
  "owner_cmd =
     \<lparr>cmd_codec = example_codec,
      cmd_fs = empty_fs\<lparr>files := [exampleKeyPath \<mapsto> pem_Encode example_codec \<lparr>pem_Type = ''PRIVATE KEY'', pem_Bytes = replicate 64 9\<rparr>,
        examplePubKeyPath \<mapsto> pem_Encode example_codec \<lparr>pem_Type = ''PUBLIC KEY'', pem_Bytes = replicate 32 1\<rparr>]\<rparr>,
      cmd_example = None, cmd_ed = example_ed, cmd_sha = example_hash, cmd_dial = (\<lambda>a w. (None, w)), cmd_now = (\<lambda>w. (0, w))\<rparr>"

definition owner_args :: cli_args where
  "owner_args = [''target'' \<mapsto> F_String ''al:1'', ''game'' \<mapsto> F_String ff_GameID, ''server'' \<mapsto> F_String ''bob:1'',
     ''key-path'' \<mapsto> F_String exampleKeyPath, ''timeout'' \<mapsto> F_Int 30]"

definition owner_conf :: config where
  "owner_conf = zero_config\<lparr>cfg_Identity := (cfg_Identity zero_config)\<lparr>cfg_ServerAddress := ''bob:1''\<rparr>\<rparr>"

definition owner_hr :: "ff_stream hr_net" where
  "owner_hr =
     \<lparr>hr_verify = ff_env ff_example_link (example_identity 1 ''al:1'' ''s''), hr_Marshal = (\<lambda>m. Inr []),
      hr_Recv = (\<lambda>w. (Inl (Errorf ''EOF''), w)), hr_Send = (\<lambda>w m. (None, w)), hr_rand = (\<lambda>w. (replicate 32 0, w))\<rparr>"

definition owner_reg :: "ff_stream registry" where
  "owner_reg = srv_registry (apply_options (keys_of 2 ''bob:1'') owner_conf
     [WithFactorFight (stream_net ff_example_link (example_identity 1 ''al:1'' ''s'')) (\<lambda>w. (None, w)) (\<lambda>w. (None, w)) 3
        \<lparr>cfg_Strategy = None, OnGameComplete = None\<rparr>,
      WithHighRoll owner_hr (\<lambda>w. (None, w)) (\<lambda>w. (None, w))]
     \<lparr>srv_services = [], srv_level = LevelInfo, srv_store = False, srv_registry = newRegistry, srv_cancelled = False\<rparr>)"

lemma owner_args_parsed:
  "parsed (flags_of [''challenge'', ''send''])
     [''target'' \<mapsto> F_String ''al:1'', ''game'' \<mapsto> F_String ff_GameID, ''server'' \<mapsto> F_String ''bob:1''] owner_args"
  by (simp add: parsed_def flags_of_send challenge_flags_def key_path_flag_def timeout_flag_def StringFlag_def owner_args_def
      exampleKeyPath_def)

theorem owner_challenge_plays_witness:
  "\<exists>w w'. challenge_send_Action owner_cmd (\<lambda>_. Inr [3])
       (\<lambda>r w. the (svc_Challenge (ff_env ff_example_link (example_identity 1 ''al:1'' ''s'')) (\<lambda>_. Inr [3])
          (keys_of 2 ''bob:1'') owner_reg r w)) owner_args w
     = (Inr [''Challenge sent successfully!'', ''Target: '' @ ''al:1'', ''Game: '' @ ff_GameID, ''Win: '' @ show_bool False], w')"
proof -
  let ?cH = "\<lparr>cfg_Strategy = Some quick_pick, OnGameComplete = None\<rparr> :: ff_stream ff_config"
  let ?cL = "\<lparr>cfg_Strategy = None, OnGameComplete = None\<rparr> :: ff_stream ff_config"
  let ?s = "\<lparr>privateKey = replicate 64 9, publicKey = replicate 32 9, signer_address = ''owner''\<rparr>"
  let ?env = "ff_env ff_example_link (example_identity 1 ''al:1'' ''s'')"
  let ?app = "\<lparr>srv_services = [], srv_level = LevelInfo, srv_store = False, srv_registry = newRegistry, srv_cancelled = False\<rparr> :: ff_stream app_server"
  have r: "resolveStrategy (cfg_Strategy ?cH) = quick_pick" "resolveStrategy (cfg_Strategy ?cL) = ClosestMove_ChooseMove"
    "lk_sha ff_example_link = example_hash" "lk_ed ff_example_link = example_ed" by (simp_all add: resolveStrategy_def example_link_def)
  obtain wireH wireL where g: "honest_game (lk_sha ff_example_link) convertInternalFactorfightMoveToProto convertfactorfightpbMoveToInternal
       (resolveStrategy (cfg_Strategy ?cH)) (resolveStrategy (cfg_Strategy ?cL)) 3 quick_ns quick_ns = Some (True, H5, C5, wireH, wireL)"
    "length wireH < 18446744073709551616" unfolding r by (rule sent_game)
  have s: "strategy (resolveStrategy (cfg_Strategy ?cH))" "strategy (resolveStrategy (cfg_Strategy ?cL))"
    unfolding r by (rule quick.strategy_axioms closest.strategy_axioms)+
  have a: "''al:1'' \<noteq> ''''" "''bob:1'' \<noteq> ''''" by simp_all
  have o: "cmd_signer owner_cmd (send_cfg exampleKeyPath) ''owner'' = Inr ?s" by code_simp
  have e: "ed_correct (lk_ed ff_example_link) (privateKey ?s)" "\<forall>m. ed_Sign (lk_ed ff_example_link) (privateKey ?s) m \<noteq> []"
    "ownerPublicKey (keys_of 2 ''bob:1'') = drop 32 (privateKey ?s)" "cmd_ed owner_cmd = lk_ed ff_example_link"
    "cmd_sha owner_cmd = lk_sha ff_example_link" "cmd_dial owner_cmd ''bob:1'' w = (None, w)"
    "srv_registry ?app = newRegistry" "cfg_ServerAddress (cfg_Identity owner_conf) = ''bob:1''" for w
    using ed_correct_example [of 9]
    by (simp_all add: r keys_of_def owner_cmd_def owner_conf_def zero_config_def example_priv_def) (simp add: example_ed_def)
  note fin = owner_challenge_plays [where marshal = "\<lambda>_. Inr [3]" and b = "[3]", OF example_link_sound example_server_of [OF a(1), of 1] example_server_of [OF a(2), of 2]
      s g(1) quick_ns_wf quick_ns_wf g(2) o e(1-5) e(6) refl e(7,8) owner_reg_def owner_args_parsed _ refl]
  have c: "complete \<lparr>cfg_Strategy = x, OnGameComplete = None\<rparr> won log w = w" for x won log and w :: ff_stream
    by (simp add: complete_def)
  have "answers (\<lambda>r w. the (f r w)) f" for f :: "signed_challenge \<Rightarrow> ff_stream \<Rightarrow> (challenge_response res \<times> ff_stream) option"
    by (simp add: answers_def)
  from fin [where n = "0", OF this, unfolded c not_True_eq_False] show ?thesis by blast
qed

end
