(* ===== verification/App_Example.thy ===== *)
theory App_Example
  imports App_Games Srv_Games
begin

text \<open>
  The example server (\<open>example/server/main.go\<close>): what it announces when a game has ended, and the
  run of a server with both games. Environment variables, the logger, standard output and the
  Pushover library are parameters.
\<close>

section \<open>Notifications\<close>

record ('p, 'r, 'm, 'w) pushover =
  po_New :: "string \<Rightarrow> 'p"
  po_NewRecipient :: "string \<Rightarrow> 'r"
  po_NewMessageWithTitle :: "string \<Rightarrow> string \<Rightarrow> 'm"
  po_SendMessage :: "'p \<Rightarrow> 'm \<Rightarrow> 'r \<Rightarrow> 'w \<Rightarrow> go_error option \<times> 'w"

record ('p, 'r) notify_client =
  nc_app :: 'p
  nc_recipient :: 'r

definition newNotifyClient :: "('p, 'r, 'm, 'w) pushover \<Rightarrow> string \<Rightarrow> string \<Rightarrow> ('p, 'r) notify_client res" where
  "newNotifyClient P appToken recipientToken =
     Inr \<lparr>nc_app = po_New P appToken, nc_recipient = po_NewRecipient P recipientToken\<rparr>"

definition notify_send ::
    "('p, 'r, 'm, 'w) pushover \<Rightarrow> ('p, 'r) notify_client \<Rightarrow> string \<Rightarrow> string \<Rightarrow> 'w \<Rightarrow> go_error option \<times> 'w" where
  "notify_send P c title message =
     po_SendMessage P (nc_app c) (po_NewMessageWithTitle P message title) (nc_recipient c)"

section \<open>The end of a game\<close>

record 'w terminal =
  log_Info :: "string \<Rightarrow> string \<Rightarrow> string \<Rightarrow> 'w \<Rightarrow> 'w"
  out_Println :: "string \<Rightarrow> 'w \<Rightarrow> 'w"
  err_Fprintf :: "string \<Rightarrow> go_error \<Rightarrow> 'w \<Rightarrow> 'w"

definition winText :: "bool \<Rightarrow> string" where
  "winText won = (if won then ''Win!'' else ''Lose!'')"

definition notify ::
    "('p, 'r, 'm, 'w) pushover \<Rightarrow> 'w terminal \<Rightarrow> ('p, 'r) notify_client option \<Rightarrow> bool \<Rightarrow> 'w \<Rightarrow> 'w" where
  "notify P T client won w =
     (case client of
        None \<Rightarrow> w
      | Some c \<Rightarrow>
          (case notify_send P c ''FactorFight Game'' (''Result: '' @ winText won) w of
             (None, w1) \<Rightarrow> w1
           | (Some e, w1) \<Rightarrow> err_Fprintf T (''Failed to send Pushover notification: %v'' @ [CHR 10]) e w1))"

text \<open>What \<open>fmt.Println\<close> prints for a value with a \<open>String\<close> method: it catches the method's panic.\<close>

definition Println_text :: "string res \<Rightarrow> string" where
  "Println_text r =
     (case r of
        Inr t \<Rightarrow> t
      | Inl _ \<Rightarrow> ''%!v(PANIC=String method: runtime error: invalid memory address or nil pointer dereference)'')"

definition example_OnGameComplete ::
    "('p, 'r, 'm, 'w) pushover \<Rightarrow> 'w terminal \<Rightarrow> ('p, 'r) notify_client option \<Rightarrow> bool \<Rightarrow> log_entry list \<Rightarrow> 'w \<Rightarrow> 'w" where
  "example_OnGameComplete P T client won gameLog w =
     (let w1 = log_Info T ''FactorFight game complete'' ''result'' (winText won) w;
          w2 = out_Println T (Println_text (GameLog_String gameLog)) w1
      in notify P T client won w2)"

definition example_config ::
    "('p, 'r, 'm, 'w) pushover \<Rightarrow> 'w terminal \<Rightarrow> ('p, 'r) notify_client option \<Rightarrow> 'w ff_config" where
  "example_config P T client =
     \<lparr>cfg_Strategy = Some ClosestMove_ChooseMove, OnGameComplete = Some (example_OnGameComplete P T client)\<rparr>"

section \<open>The run\<close>

definition pushover_client ::
    "(string \<Rightarrow> string) \<Rightarrow> ('p, 'r, 'm, 'w) pushover \<Rightarrow> ('p, 'r) notify_client option res" where
  "pushover_client getenv P =
     (let appToken = getenv ''PUSHOVER_APP_TOKEN''; recipientToken = getenv ''PUSHOVER_RECIPIENT_TOKEN'' in
      if appToken \<noteq> '''' \<and> recipientToken \<noteq> '''' then
        (case newNotifyClient P appToken recipientToken of
           Inl e \<Rightarrow> Inl (wrapf ''error creating Pushover client: %w'' e)
         | Inr c \<Rightarrow> Inr (Some c))
      else Inr None)"

definition example_run ::
    "(string \<Rightarrow> string) \<Rightarrow> ('p, 'r, 'm, 'w) pushover \<Rightarrow> 'w terminal \<Rightarrow> 'v cue_lib \<Rightarrow> (config \<Rightarrow> go_error option \<times> config)
     \<Rightarrow> host \<Rightarrow> key_codec \<Rightarrow> filesystem \<Rightarrow> bytes option
     \<Rightarrow> 'w ff_net \<Rightarrow> ('w \<Rightarrow> go_error option \<times> 'w) \<Rightarrow> ('w \<Rightarrow> go_error option \<times> 'w) \<Rightarrow> nat
     \<Rightarrow> 'w hr_net \<Rightarrow> ('w \<Rightarrow> go_error option \<times> 'w) \<Rightarrow> ('w \<Rightarrow> go_error option \<times> 'w) \<Rightarrow> effect list
     \<Rightarrow> go_error option \<times> effect list" where
  "example_run getenv P T cue process h C fs cache N open_ff close_ff fuel M open_hr close_hr tr =
     (case pushover_client getenv P of
        Inl e \<Rightarrow> (Some e, tr)
      | Inr client \<Rightarrow>
     (case LoadConfig cue process of
        Inl e \<Rightarrow> (Some e, tr)
      | Inr cfg \<Rightarrow> App_Run cue h C fs cache cfg
            [WithFactorFight N open_ff close_ff fuel (example_config P T client), WithHighRoll M open_hr close_hr] tr))"

text \<open>\<open>main\<close> ends the process with status 1 on an error (\<open>log.Fatal\<close>); the signal handler is the context
  whose cancellation is in the \<open>host\<close>.\<close>

definition example_main :: "go_error option \<times> effect list \<Rightarrow> nat \<times> effect list" where
  "example_main r = (case r of (Some e, tr) \<Rightarrow> (1, tr) | (None, tr) \<Rightarrow> (0, tr))"

text \<open>A signal stops the server in order, and yet the process fails: \<open>Server.Run\<close> returns the context's
  error, and \<open>main\<close> treats every error as fatal.\<close>

lemma App_Run_cancelled:
  assumes "host_End h = Cancelled e"
  shows "fst (App_Run cue h C fs cache cfg opts tr) \<noteq> None"
  using assms
  by (auto simp: App_Run_def Server_Run_def split: option.splits sum.splits prod.splits)

lemma interrupt_exits_1:
  assumes "host_End h = Cancelled e"
  shows "fst (example_main (example_run getenv P T cue process h C fs cache N open_ff close_ff fuel M open_hr close_hr tr)) = 1"
proof -
  have "fst (example_run getenv P T cue process h C fs cache N open_ff close_ff fuel M open_hr close_hr tr) \<noteq> None"
    using App_Run_cancelled [OF assms] by (auto simp: example_run_def split: sum.splits)
  then show ?thesis by (auto simp: example_main_def split: prod.splits option.splits)
qed

section \<open>What is announced\<close>

text \<open>Every move of a served game has its expressions: what comes from the wire has empty ones.\<close>

lemma ff_session_receives_exprs: "ff_session N pick = Inr S \<Longrightarrow> receives_exprs S"
  by (auto simp: ff_session_def NewSession_def receives_exprs_def peer_RecvMove_def has_exprs_def
      convertfactorfightpbMoveToInternal_def fromProtoPawn_def split: sum.splits prod.splits ff_message.splits)

lemma PlayWithInitiative_printable:
  assumes "strategy pick" "ff_session N pick = Inr S"
    and "PlayWithInitiative sha S fuel high w = Some ((won, log, err), w1)"
  shows "printable log"
proof -
  have pick: "ChooseMove S = pick" using assms(2) by (auto simp: ff_session_def NewSession_def)
  from assms(3) show ?thesis
    by (auto simp: PlayWithInitiative_def printable_def [of "[]"] split: prod.splits sum.splits
        intro: strategy.Play_printable [OF assms(1) ff_session_receives_exprs [OF assms(2)] pick])
qed

lemma GameLog_String_result:
  assumes "legal_game f log s p" "State_Win s \<or> State_Lose s" "printable log"
  obtains front where "GameLog_String log = Inr (front @ (if State_Win s then ''Win!'' else ''Lose!'') @ [CHR 10])"
proof -
  from assms have "log \<noteq> []" by (blast dest: legal_game_over_log)
  with legal_game_last [OF assms(1)] have "entry_State (last log) = s" by blast
  moreover obtain t where "entries_text log = Inr t" using assms(3) by (rule printable_text)
  ultimately show thesis
    using \<open>log \<noteq> []\<close> that [of "''Game Log ('' @ Itoa (int (length log)) @ '' moves):'' @ [CHR 10]
      @ ''================'' @ [CHR 10] @ t"] by (simp add: GameLog_String_def)
qed

text \<open>
  The effects of an announcement, in their order and written out: the log line, the printed game
  with the result as its last line, and, with a client, one message to its recipient, whose
  failure is printed. \<open>w\<close> is the world that the game left, \<open>w'\<close> the one after the announcement.
\<close>

definition announced ::
    "('p, 'r, 'm, 'w) pushover \<Rightarrow> 'w terminal \<Rightarrow> ('p, 'r) notify_client option \<Rightarrow> bool \<Rightarrow> 'w \<Rightarrow> 'w \<Rightarrow> bool" where
  "announced P T client won w w' \<longleftrightarrow>
     (\<exists>peer_first log s p front result w1.
        legal_game peer_first log s p \<and> (won \<longleftrightarrow> State_Win s) \<and> (\<not> won \<longleftrightarrow> State_Lose s)
        \<and> result = (if won then ''Win!'' else ''Lose!'')
        \<and> GameLog_String log = Inr (front @ result @ [CHR 10])
        \<and> w1 = out_Println T (front @ result @ [CHR 10]) (log_Info T ''FactorFight game complete'' ''result'' result w)
        \<and> (case client of
              None \<Rightarrow> w' = w1
            | Some c \<Rightarrow>
                (case po_SendMessage P (nc_app c)
                        (po_NewMessageWithTitle P (''Result: '' @ result) ''FactorFight Game'') (nc_recipient c) w1 of
                   (None, w2) \<Rightarrow> w' = w2
                 | (Some e, w2) \<Rightarrow>
                     w' = err_Fprintf T (''Failed to send Pushover notification: %v'' @ [CHR 10]) e w2)))"

lemma example_strategy [simp]: "resolveStrategy (cfg_Strategy (example_config P T client)) = ClosestMove_ChooseMove"
  by (simp add: example_config_def resolveStrategy_def)

lemma complete_announced:
  assumes "legal_game f log s p" "won \<longleftrightarrow> State_Win s" "\<not> won \<longleftrightarrow> State_Lose s" "printable log"
  shows "announced P T client won w (complete (example_config P T client) won log w)"
proof -
  from assms have "State_Win s \<or> State_Lose s" by blast
  then obtain front where f: "GameLog_String log = Inr (front @ winText won @ [CHR 10])"
    using GameLog_String_result [OF assms(1) _ assms(4)] assms(2) by (auto simp: winText_def)
  let ?w1 = "out_Println T (front @ winText won @ [CHR 10]) (log_Info T ''FactorFight game complete'' ''result'' (winText won) w)"
  show ?thesis
    unfolding announced_def
    by (rule exI [of _ f], rule exI [of _ log], rule exI [of _ s], rule exI [of _ p], rule exI [of _ front],
        rule exI [of _ "winText won"], rule exI [of _ ?w1], intro conjI assms f refl winText_def)
      (simp add: complete_def example_config_def example_OnGameComplete_def f Println_text_def
        notify_def notify_send_def split: option.split prod.split)
qed

lemma run_announced:
  assumes "ff_session N ClosestMove_ChooseMove = Inr S"
    and "PlayWithInitiative sha S fuel high w0 = Some ((won, log, None), w1)"
  shows "announced P T client won w (complete (example_config P T client) won log w)"
proof -
  from PlayWithInitiative_legal [OF closest.strategy_axioms assms] obtain f s p where
    "legal_game f log s p" "won \<longleftrightarrow> State_Win s" "\<not> won \<longleftrightarrow> State_Lose s" by auto
  then show ?thesis
    by (rule complete_announced) (rule PlayWithInitiative_printable [OF closest.strategy_axioms assms])
qed

text \<open>The same services without a callback: the game alone.\<close>

definition quiet_config :: "'w ff_config" where
  "quiet_config = \<lparr>cfg_Strategy = None, OnGameComplete = None\<rparr>"

lemma quiet_config [simp]:
  "complete quiet_config won log w = w"
  "resolveStrategy (cfg_Strategy quiet_config) = ClosestMove_ChooseMove"
  by (simp_all add: quiet_config_def complete_def resolveStrategy_def)

lemma Service_Play_quiet:
  assumes "Service_Play N (example_config P T client) km addr fuel w = Some (None, w')"
  obtains S won log w0 p w1 where "ff_session N ClosestMove_ChooseMove = Inr S"
    "PlayWithInitiative (ve_sha (ff_verify N)) S fuel True w0 = Some ((won, log, None), (p, w1))"
    "w' = complete (example_config P T client) won log w1"
    "Service_Play N quiet_config km addr fuel w = Some (None, w1)"
  using assms by (auto simp: Service_Play_def split: sum.splits option.splits prod.splits)

lemma Service_Challenge_quiet:
  assumes "Service_Challenge N open_stream close_send (example_config P T client) km addr fuel target w
    = Some ((Some resp, e), w')"
  obtains S won log w0 p w1 where "ff_session N ClosestMove_ChooseMove = Inr S"
    "PlayWithInitiative (ve_sha (ff_verify N)) S fuel False w0 = Some ((won, log, None), (p, w1))"
    "resp_Win resp = Some won" "w' = snd (close_send (complete (example_config P T client) won log w1))"
    "Service_Challenge N open_stream (\<lambda>w. (None, w)) quiet_config km addr fuel target w = Some ((Some resp, None), w1)"
  using assms by (auto simp: Service_Challenge_def Let_def split: sum.splits option.splits prod.splits)

text \<open>C14: the example server announces what happened. A game that its \<open>Play\<close> or its \<open>Challenge\<close>
  ends without a game error was legal and has a winner. The log line, the last line of the
  printed game and the notification to the configured recipient, sent in this order right after
  the game, name the same result, which is the right one; for a challenge it is also the one in
  the response. The printing never panics.\<close>

theorem announced_result:
  "(Service_Play N (example_config P T client) km addr fuel w = Some (None, w') \<longrightarrow>
     (\<exists>won w1. Service_Play N quiet_config km addr fuel w = Some (None, w1) \<and> announced P T client won w1 w'))
 \<and> (Service_Challenge N open_stream close_send (example_config P T client) km addr fuel target w = Some ((Some resp, e), w')
     \<longrightarrow> (\<exists>won w1 w2.
          Service_Challenge N open_stream (\<lambda>w. (None, w)) quiet_config km addr fuel target w = Some ((Some resp, None), w1)
          \<and> resp_Win resp = Some won \<and> announced P T client won w1 w2 \<and> w' = snd (close_send w2)))"
proof (intro conjI impI)
  assume "Service_Play N (example_config P T client) km addr fuel w = Some (None, w')"
  then show "\<exists>won w1. Service_Play N quiet_config km addr fuel w = Some (None, w1) \<and> announced P T client won w1 w'"
    by (rule Service_Play_quiet) (blast intro: run_announced)
next
  assume "Service_Challenge N open_stream close_send (example_config P T client) km addr fuel target w = Some ((Some resp, e), w')"
  then show "\<exists>won w1 w2.
      Service_Challenge N open_stream (\<lambda>w. (None, w)) quiet_config km addr fuel target w = Some ((Some resp, None), w1)
      \<and> resp_Win resp = Some won \<and> announced P T client won w1 w2 \<and> w' = snd (close_send w2)"
    by (rule Service_Challenge_quiet) (blast intro: run_announced)
qed

text \<open>
  The game that \<open>bob:1\<close> wins, announced to a client. The world keeps whether the message was
  \<open>Result: Lose!\<close>, under the right title and to the right recipient; the log line and the printed
  game leave no trace in it.
\<close>

definition bob_pushover :: "(string, string, string \<times> string, bob_world) pushover" where
  "bob_pushover =
     \<lparr>po_New = (\<lambda>t. t), po_NewRecipient = (\<lambda>t. t), po_NewMessageWithTitle = Pair,
      po_SendMessage = (\<lambda>app m r w.
        (None, w\<lparr>reported := Some (app = ''app'' \<and> r = ''me'' \<and> m = (''Result: Lose!'', ''FactorFight Game''), [])\<rparr>))\<rparr>"

definition bob_terminal :: "bob_world terminal" where
  "bob_terminal = \<lparr>log_Info = (\<lambda>_ _ v w. w), out_Println = (\<lambda>_ w. w), err_Fprintf = (\<lambda>_ _ w. w)\<rparr>"

definition bob_client :: "(string, string) notify_client option" where
  "bob_client = Some (projr (newNotifyClient bob_pushover ''app'' ''me''))"

lemma announced_to_bob:
  "announced bob_pushover bob_terminal bob_client won w w' \<Longrightarrow> reported w' = Some (\<not> won, [])"
  by (auto simp: announced_def bob_pushover_def bob_terminal_def bob_client_def newNotifyClient_def)

lemma bob_announced:
  obtains w' where "Service_Play bob_net (example_config bob_pushover bob_terminal bob_client) example_km ''home:1'' 2 bob_start = Some (None, w')"
    "reported w' = Some (True, [])"
proof -
  obtain w' log where play: "Service_Play bob_net bob_config example_km ''home:1'' 2 bob_start = Some (None, w')"
    and rep: "reported w' = Some (False, log)"
    using bob_summary by (auto simp: bob_summary_def)
  let ?cfg = "example_config bob_pushover bob_terminal bob_client"
  have "resolveStrategy (cfg_Strategy ?cfg) = resolveStrategy (cfg_Strategy bob_config)"
    by (simp add: example_config_def bob_config_def resolveStrategy_def)
  from Service_Play_callback [OF this play] obtain won l w1 where "w' = complete bob_config won l w1"
    "Service_Play bob_net ?cfg example_km ''home:1'' 2 bob_start = Some (None, complete ?cfg won l w1)" by blast
  with rep show thesis
    by (intro that) (auto simp: complete_def bob_config_def example_config_def example_OnGameComplete_def notify_def
        notify_send_def newNotifyClient_def bob_pushover_def bob_client_def bob_terminal_def winText_def)
qed

theorem announced_result_witness:
  "\<exists>w1 w'. Service_Play bob_net (example_config bob_pushover bob_terminal bob_client) example_km ''home:1'' 2 bob_start = Some (None, w')
     \<and> reported w' = Some (True, []) \<and> Service_Play bob_net quiet_config example_km ''home:1'' 2 bob_start = Some (None, w1)
     \<and> announced bob_pushover bob_terminal bob_client False w1 w'"
proof -
  obtain w' where play: "Service_Play bob_net (example_config bob_pushover bob_terminal bob_client) example_km ''home:1'' 2 bob_start = Some (None, w')"
    and rep: "reported w' = Some (True, [])" by (rule bob_announced)
  from announced_result [of bob_net bob_pushover bob_terminal bob_client example_km "''home:1''" 2 bob_start w'] play obtain won w1 where
    q: "Service_Play bob_net quiet_config example_km ''home:1'' 2 bob_start = Some (None, w1)"
    and a: "announced bob_pushover bob_terminal bob_client won w1 w'" by blast
  from announced_to_bob [OF a] rep have "\<not> won" by simp
  with play rep q a show ?thesis by (intro exI conjI) simp_all
qed

end
