(* ===== verification/Gen_Setters.thy ===== *)
theory Gen_Setters
  imports Srv_Services
begin

text \<open>
  The protoc plugin that generates setters (\<open>cmd/protoc-gen-setters/main.go\<close>). The descriptors of
  \<open>protogen\<close> are records with what the plugin reads of them; \<open>QualifiedGoIdent\<close>, which knows the
  imports of the generated file, is a parameter. Imports and formatting, which \<open>protogen\<close> adds
  when it writes the file, are left out. The lines generated for the two messages with the option
  are compared with the files under \<open>gen/\<close>.
\<close>

section \<open>Descriptors\<close>

record go_ident =
  GoName :: string
  GoImportPath :: string

datatype field_kind = MessageKind | GroupKind | ScalarKind

record proto_field =
  pf_GoName :: string
  pf_GoIdent :: go_ident
  pf_Kind :: field_kind
  pf_Message :: "go_ident option"
  pf_Oneof :: bool
  pf_Optional :: bool

text \<open>The extension's value is absent when the message has no options or another type.\<close>

record proto_message =
  pmsg_GoIdent :: go_ident
  pmsg_Fields :: "proto_field list"
  pmsg_GenerateSetters :: "bool option"

record proto_file =
  file_Generate :: bool
  file_Prefix :: string
  file_Package :: string
  file_Messages :: "proto_message list"

section \<open>The plugin\<close>

definition hasGenerateSetters :: "proto_message \<Rightarrow> bool" where
  "hasGenerateSetters msg = (case pmsg_GenerateSetters msg of None \<Rightarrow> False | Some b \<Rightarrow> b)"

definition skipped_field :: "proto_field \<Rightarrow> bool" where
  "skipped_field f \<longleftrightarrow> pf_Oneof f \<and> \<not> pf_Optional f"

definition paramType :: "(go_ident \<Rightarrow> string) \<Rightarrow> proto_field \<Rightarrow> string" where
  "paramType qualify f =
     (case pf_Kind f of
        ScalarKind \<Rightarrow> qualify (pf_GoIdent f)
      | _ \<Rightarrow> (case pf_Message f of Some m \<Rightarrow> qualify m | None \<Rightarrow> qualify (pf_GoIdent f)))"

definition setter_lines :: "string \<Rightarrow> string \<Rightarrow> string \<Rightarrow> string \<Rightarrow> string list" where
  "setter_lines recv msgName goField param =
     [''func ('' @ recv @ '' *'' @ msgName @ '') Set'' @ goField @ ''(v *'' @ param @ '') {'',
      ''    '' @ recv @ ''.'' @ goField @ '' = v'',
      ''}'',
      '''']"

text \<open>\<open>GoName[:1]\<close> panics for an empty name.\<close>

fun generateMessageSetters :: "(go_ident \<Rightarrow> string) \<Rightarrow> string \<Rightarrow> proto_field list \<Rightarrow> string list res" where
  "generateMessageSetters qualify msgName [] = Inr []"
| "generateMessageSetters qualify msgName (f # fs) =
     (if skipped_field f then generateMessageSetters qualify msgName fs
      else if msgName = '''' then Inl (Panic ''slice bounds out of range'')
      else
        (case generateMessageSetters qualify msgName fs of
           Inl e \<Rightarrow> Inl e
         | Inr ls \<Rightarrow> Inr (setter_lines (ToLower (take 1 msgName)) msgName (pf_GoName f) (paramType qualify f) @ ls)))"

definition message_file :: "(go_ident \<Rightarrow> string) \<Rightarrow> proto_file \<Rightarrow> proto_message \<Rightarrow> (string \<times> string list) res" where
  "message_file qualify file msg =
     (let name = GoName (pmsg_GoIdent msg) in
      case generateMessageSetters qualify name (pmsg_Fields msg) of
        Inl e \<Rightarrow> Inl e
      | Inr ls \<Rightarrow>
          Inr (file_Prefix file @ ''_'' @ name @ ''_setters.pb.go'',
            [''// Code generated by protoc-gen-setters. DO NOT EDIT.'', '''', ''package '' @ file_Package file, ''''] @ ls))"

fun all_res :: "'a res list \<Rightarrow> 'a list res" where
  "all_res [] = Inr []"
| "all_res (r # rs) =
     (case r of Inl e \<Rightarrow> Inl e | Inr x \<Rightarrow> (case all_res rs of Inl e \<Rightarrow> Inl e | Inr xs \<Rightarrow> Inr (x # xs)))"

definition generateFile :: "(go_ident \<Rightarrow> string) \<Rightarrow> proto_file \<Rightarrow> (string \<times> string list) list res" where
  "generateFile qualify file = all_res (map (message_file qualify file) (filter hasGenerateSetters (file_Messages file)))"

definition setters_main :: "(go_ident \<Rightarrow> string) \<Rightarrow> proto_file list \<Rightarrow> (string \<times> string list) list res" where
  "setters_main qualify input =
     map_sum id concat (all_res (map (generateFile qualify) (filter file_Generate input)))"

section \<open>What is generated\<close>

text \<open>One setter for every field that is not a member of a real oneof, in order.\<close>

lemma setters_of_fields:
  assumes "msgName \<noteq> ''''"
  shows "generateMessageSetters qualify msgName fs =
    Inr (concat (map (\<lambda>f. setter_lines (ToLower (take 1 msgName)) msgName (pf_GoName f) (paramType qualify f))
      (filter (\<lambda>f. \<not> skipped_field f) fs)))"
  using assms by (induction fs) simp_all

text \<open>The descriptors of the two messages with the option.\<close>

definition message_field :: "string \<Rightarrow> string \<Rightarrow> go_ident \<Rightarrow> proto_field" where
  "message_field msg name typ =
     \<lparr>pf_GoName = name, pf_GoIdent = \<lparr>GoName = msg @ ''_'' @ name, GoImportPath = GoImportPath typ\<rparr>,
      pf_Kind = MessageKind, pf_Message = Some typ, pf_Oneof = False, pf_Optional = False\<rparr>"

definition signed_message :: "string \<Rightarrow> string \<Rightarrow> string \<Rightarrow> string \<Rightarrow> proto_message" where
  "signed_message path name inner sig =
     \<lparr>pmsg_GoIdent = \<lparr>GoName = name, GoImportPath = path\<rparr>,
      pmsg_Fields = [message_field name ''Message'' \<lparr>GoName = inner, GoImportPath = path\<rparr>,
        message_field name ''Signature'' \<lparr>GoName = sig, GoImportPath = ''identity''\<rparr>],
      pmsg_GenerateSetters = Some True\<rparr>"

definition plain_message :: "string \<Rightarrow> string \<Rightarrow> proto_message" where
  "plain_message path name =
     \<lparr>pmsg_GoIdent = \<lparr>GoName = name, GoImportPath = path\<rparr>, pmsg_Fields = [], pmsg_GenerateSetters = None\<rparr>"

definition dice_file :: proto_file where
  "dice_file = \<lparr>file_Generate = True, file_Prefix = ''dice'', file_Package = ''v1'',
     file_Messages = [plain_message ''dice'' ''Message'', signed_message ''dice'' ''SignedMessage'' ''Message'' ''Signature'']\<rparr>"

definition ff_file :: proto_file where
  "ff_file = \<lparr>file_Generate = True, file_Prefix = ''factorfight'', file_Package = ''v1'',
     file_Messages = [plain_message ''ff'' ''FactorFightMessage'',
       signed_message ''ff'' ''SignedFactorFightMessage'' ''FactorFightMessage'' ''OrderedSignature'']\<rparr>"

definition identity_file :: proto_file where
  "identity_file = \<lparr>file_Generate = False, file_Prefix = ''identity'', file_Package = ''v1'',
     file_Messages = [plain_message ''identity'' ''Signature'']\<rparr>"

definition identity_alias :: "go_ident \<Rightarrow> string" where
  "identity_alias i = (if GoImportPath i = ''identity'' then ''v1.'' @ GoName i else GoName i)"

text \<open>The generated files are those of \<open>gen/go/proto/dice/v1\<close> and \<open>gen/go/proto/factorfight/v1\<close>, but
  for imports and indentation.\<close>

theorem generated_setters:
  "setters_main identity_alias [identity_file, dice_file, ff_file] = Inr
     [(''dice_SignedMessage_setters.pb.go'',
       [''// Code generated by protoc-gen-setters. DO NOT EDIT.'', '''', ''package v1'', '''',
        ''func (s *SignedMessage) SetMessage(v *Message) {'', ''    s.Message = v'', ''}'', '''',
        ''func (s *SignedMessage) SetSignature(v *v1.Signature) {'', ''    s.Signature = v'', ''}'', '''']),
      (''factorfight_SignedFactorFightMessage_setters.pb.go'',
       [''// Code generated by protoc-gen-setters. DO NOT EDIT.'', '''', ''package v1'', '''',
        ''func (s *SignedFactorFightMessage) SetMessage(v *FactorFightMessage) {'', ''    s.Message = v'', ''}'', '''',
        ''func (s *SignedFactorFightMessage) SetSignature(v *v1.OrderedSignature) {'', ''    s.Signature = v'', ''}'', ''''])]"
  by code_simp

text \<open>The parameter of a scalar field's setter is a pointer to the identifier of the field itself,
  which names no type: the generated code does not compile.\<close>

lemma scalar_setter_has_no_type:
  "pf_Kind f = ScalarKind \<Longrightarrow> paramType qualify f = qualify (pf_GoIdent f)"
  by (simp add: paramType_def)

end
