(* ===== verification/Spec2Isabelle.thy ===== *)
theory Spec2Isabelle
  imports Dice_Concurrent Srv_Games Srv_Locks HR_Wire App_Example Gen_Setters
begin

text \<open>
  A verification library for ztg (Zero Trust Gaming), a set of Go packages with which two game
  servers play against each other without trusting each other.

  \<^bold>\<open>The program.\<close> Two servers speak over gRPC streams. A roll of the dice (\<open>dice/\<close>) is a
  commit-reveal exchange: commitment, secret and confirmation travel as 33-byte messages, and the
  rolls are drawn from the hash of both secrets. FactorFight (\<open>factorfight/\<close>) is a board game on such
  rolls; each side generates its own moves and validates the other's. Between servers the messages
  are protobuf messages with ordered signatures (\<open>server/factorfight/\<close>), or plain ones for the
  HighRoll game (\<open>server/highroll/\<close>). A verifier (\<open>server/verifier.go\<close>) finds a peer's key in its
  cache, in the SQL store (\<open>identity/store/\<close>) or at the peer itself, and keeps a hash chain per peer.
  Handlers (\<open>server/identity_service.go\<close>, \<open>server/game_service.go\<close>) let the owner set trust and start
  challenges; commands (\<open>cmd/\<close>) build and sign these requests; \<open>ztg.go\<close> puts a server together, and
  \<open>example/server/\<close> is one.

  \<^bold>\<open>Theories and the code they model.\<close>
  \<^item> \<open>Ztg_Prelude\<close>: errors and panics as values (\<open>go_error\<close>, results of type \<open>'a res\<close>), 64- and 32-bit
    integers, byte encodings, and the generic facts about them.
  \<^item> \<open>Dice_Message\<close> (\<open>dice/message.go\<close>), \<open>Dice_Roller\<close> (\<open>dice/roller.go\<close>), \<open>Dice_Channel\<close>
    (\<open>dice/pipe_peer.go\<close>, and the peer interface as the locales \<open>dice_sim\<close> and \<open>dice_peer\<close>), \<open>Dice_Protocol\<close> (what the
    exchange guarantees).
  \<^item> \<open>Go_Channel\<close> (\<open>dice/channel_peer.go\<close>, \<open>factorfight/channel_peer.go\<close>: buffered channels in a store),
    \<open>Dice_Exchange\<close> (the goroutines of a roll over them as a step relation, and its invariant),
    \<open>Dice_Concurrent\<close> (what holds in every run of two rolls, cancelled or not).
  \<^item> \<open>FF_Move\<close> (\<open>factorfight/move.go\<close>), \<open>FF_Game\<close> (state, log, validation, strategy of
    \<open>factorfight/game.go\<close> and \<open>strategy.go\<close>), \<open>FF_Session\<close> (turns, the game loop, legal games as an
    inductive relation, the locale \<open>strategy\<close>), \<open>FF_Play\<close> (what a game guarantees), \<open>FF_Wire\<close> (a game
    between two honest players over wires; the locale \<open>session_sim\<close> of sessions in step), \<open>Two_Ends\<close> (the
    sends and receives of the two ends of a stream, interleaved).
  \<^item> \<open>Id_Chain\<close> (\<open>identity/chain.go\<close>, \<open>identity/signer.go\<close>, \<open>server/signer.go\<close>), \<open>Id_Store\<close>
    (\<open>identity/store/\<close> over the statements of \<open>gen/go/sqlc/\<close>; the locale \<open>identity_store\<close>, which sees a store as a set of keys with their trust for each
    address), \<open>Id_Keys\<close>
    (\<open>identity/key.go\<close>, \<open>identity/example_keys.go\<close>, \<open>identity/identity.go\<close>, \<open>cmd/key\<close>).
  \<^item> \<open>Srv_Cache\<close> (the two caches of \<open>server/verifier.go\<close>; the locale \<open>expiring_map\<close>),
    \<open>Srv_Locks\<close> (all calls to the identity cache, by goroutines that share it, lock by lock), \<open>Srv_Verifier\<close>
    (the verifier; the locale \<open>verifying_server\<close> extends \<open>identity_store\<close> by a network that does not
    touch the store, and is interpreted on a server's world), \<open>Srv_Services\<close> (the handlers and the
    registry), \<open>Srv_FactorFight\<close> and \<open>Srv_HighRoll\<close> (the game servers), \<open>Srv_Games\<close> (a served game).
  \<^item> \<open>Srv_Known\<close> (verifiers that know a key), \<open>Srv_Stream\<close> (one end of a stream, servers with sound
    keys), \<open>Srv_Wire\<close> and \<open>HR_Wire\<close> (a FactorFight game and a HighRoll game between two servers: the
    signed stream simulates the wire, by interpretation of \<open>dice_sim\<close> and \<open>session_sim\<close> on the two
    \<open>peer.go\<close>; a HighRoll game with a mirror).
  \<^item> \<open>Cmd_Requests\<close> (what \<open>cmd/trust\<close>, \<open>cmd/challenge\<close>, \<open>cmd/identity\<close> build, sign and send), \<open>Cmd_Line\<close>
    (their tables of commands and flags, their actions and what they print), \<open>App_Start\<close>
    (\<open>config/\<close>, \<open>ztg.go\<close>, \<open>server/server.go\<close>), \<open>App_Games\<close> (the services' constructors, the options
    of \<open>ztg.go\<close>, and a challenge from the command line to the end of the game), \<open>App_Example\<close>
    (\<open>example/server/\<close>), \<open>Gen_Setters\<close> (\<open>cmd/protoc-gen-setters/\<close>: the generated files as lines).

  \<^bold>\<open>How state and operations correspond.\<close> A struct is a record with the code's fields, a method a
  function that returns the updated record beside its result; a call that can fail returns a
  \<open>res\<close> or an optional error, and a run-time panic is an error of its own kind, so that no crash is
  hidden. Peers, streams, clock, random source and network are operations of records over a
  world that is threaded through; a whole server's world has its database in it. Pointers that may
  be nil are options. Two-party statements relate two such runs. \<open>Server.Run\<close> is a list of effects, the gRPC server the
  list of the services registered with it. What the library does with a second service of the same
  name is not said: the model lists it twice.

  \<^bold>\<open>What is shown.\<close>
  \<^item> Dice: two honest ends agree on the rolls; a peer that has committed cannot choose the
    outcome; our secret is not sent before the peer's commitment has come; every accepted word
    makes each face equally likely; exactly when a roll succeeds; the message round trip. Over channel peers, goroutine by
    goroutine: no deadlock, at most 30 steps, no wrong rolls under cancellation.
  \<^item> FactorFight: generated moves follow the rules, bumps included, and are validated by the other side, whatever is
    validated is a legal move, boards stay well-formed, two players end on mirrored boards with
    one winner, a game returns when the peer can only deliver so many moves, and a turn of ours
    fails only for the dice or the stream.
  \<^item> Identity: a hash chain binds its history; a stored key stays in the store, and the only key of an
    address is the one that is served; a message is accepted exactly under a key from the cache, the
    store or the peer, in this order; accepted messages of a peer are linked; sweeping the caches is
    invisible; calls to the shared cache all end; a key is cached only when it has verified a
    message, and at its own address; generated keys load.
  \<^item> Servers: two honest servers play every game that ends to its end, over signed streams and
    without deadlock, and report the same winner, also when the owner's command asked for it; two honest servers roll the
    same dice, without deadlock as well; honest signed streams are accepted in full and in order; served games are legal and
    reported with the right winner, and announced with it; the owner's trust command works; a run
    has no effect before its configuration is good, and serves with everything registered.
  \<^item> Weaknesses, as theorems: a rejected identity reaches the store and is believed later, a
    stranger can make itself trusted, ordered messages can be replayed anywhere in the chain, a
    short key and an unset message crash a server, moves are cut to 32 bits on the wire, \<open>trust
    create\<close> prints requests that no server accepts, the store is closed before running requests
    have ended and not at all when the port is taken, a cancelled roll strands its worker, a mirror
    without a key plays HighRoll, a lookup in the identity cache removes what another goroutine has
    just written, and any of several keys stored for one address may be served.

  \<^bold>\<open>Bounds and fuel.\<close> The game loop takes fuel, one unit per round, and returns \<open>None\<close> without it;
  \<open>Play_returns\<close> shows that n+1 rounds are enough for a peer that can deliver n moves and that more
  fuel changes nothing. A game of two honest servers must end within the lifetime of a cache entry,
  five minutes, and a FactorFight game take fewer than \<open>2^64\<close> messages. Everything else is total by structure. Board positions are Go's 64-bit
  integers, protobuf integers 32-bit words, sequence numbers 64-bit words, dice words 16 bits.
  A call to the identity cache takes at most eight steps, the length of a \<open>Get\<close> that finds an expired
  entry.

  \<^bold>\<open>Parameters.\<close> SHA-256, ed25519, protobuf encoding, JSON, YAML, CUE, the environment, PEM and X.509,
  Pushover, the services that gRPC reflection adds, the import names of generated files and the URL authority
  parser are parameters; the properties name what they use of them (a
  signature verifies under its key; decoding undoes encoding; a commitment binds). PostgreSQL is
  the table, its constraints and the statements in \<open>query.sql\<close>; its clock is a field, and so is the
  function by which it chooses among the rows of one address, since the lookup says \<open>LIMIT 1\<close> without
  an order.

  The statements about two servers, or a server and its mirror, are for servers without an SQL store:
  with one, the first message of a peer also inserts its identity, which can fail.

  \<^bold>\<open>Not modelled.\<close> Goroutines elsewhere than in a roll and at the identity cache, beyond the order that
  mutexes force, contexts elsewhere, timeouts, logging but for the example server's, the dispatch of a gRPC call to
  its registered handler, the parser of the command line, and the generated protobuf code, whose messages are records.
\<close>

end
